theory Spec2Isabelle
  imports Main "HOL-Library.Word"
begin

unbundle bit_operations_syntax

section \<open>The USBTMC driver (usbtmc.c): data model\<close>

type_synonym u8 = "8 word"
type_synonym u16 = "16 word"
type_synonym u32 = "32 word"

text \<open>
  Negative return values of the kernel interfaces. A function of the driver that returns
  \<open>int\<close> is modelled with a result \<open>errno + 'a\<close>: \<open>Inl e\<close> is the return of \<open>-e\<close>,
  \<open>Inr x\<close> a non-negative return together with what the call handed to its caller.
\<close>

datatype errno =
    ENOMEM | ENODEV | EINVAL | EPERM | EIO | ETIMEDOUT | EFAULT | EBADRQC | EBADF
  | ERESTARTSYS | EOVERFLOW | ECONNRESET | ENOENT | ESHUTDOWN | EILSEQ | ETIME | EPIPE
  | EPROTO | EAGAIN

text \<open>
  Modelled from the spec: the status bytes of the class control requests. The header
  \<open>tmc.h\<close> that defines them is not among the sources; section 6 of the specification
  gives \<open>SUCCESS = 1\<close>, \<open>PENDING = 2\<close>, \<open>FAILED = 0x81\<close>.
\<close>

definition USBTMC_STATUS_SUCCESS :: u8 where "USBTMC_STATUS_SUCCESS = 0x01"
definition USBTMC_STATUS_PENDING :: u8 where "USBTMC_STATUS_PENDING = 0x02"
definition USBTMC_STATUS_FAILED :: u8 where "USBTMC_STATUS_FAILED = 0x81"

definition USBTMC_HEADER_SIZE :: nat where "USBTMC_HEADER_SIZE = 12"
definition USBTMC_MIN_TIMEOUT :: nat where "USBTMC_MIN_TIMEOUT = 500"
definition USBTMC_MAX_READS_TO_CLEAR_BULK_IN :: nat where
  "USBTMC_MAX_READS_TO_CLEAR_BULK_IN = 100"

text \<open>
  The class requests the driver issues on the control pipe, by name (their numbers are
  in \<open>tmc.h\<close>), and the recipient part of \<open>bmRequestType\<close>; every class request is
  \<open>USB_DIR_IN | USB_TYPE_CLASS\<close>.
\<close>

datatype request =
    USBTMC_REQUEST_INITIATE_ABORT_BULK_OUT
  | USBTMC_REQUEST_CHECK_ABORT_BULK_OUT_STATUS
  | USBTMC_REQUEST_INITIATE_ABORT_BULK_IN
  | USBTMC_REQUEST_CHECK_ABORT_BULK_IN_STATUS
  | USBTMC_REQUEST_INITIATE_CLEAR
  | USBTMC_REQUEST_CHECK_CLEAR_STATUS
  | USBTMC_REQUEST_GET_CAPABILITIES
  | USBTMC_REQUEST_INDICATOR_PULSE
  | USBTMC488_REQUEST_READ_STATUS_BYTE
  | USBTMC488_REQUEST_REN_CONTROL
  | USBTMC488_REQUEST_GOTO_LOCAL
  | USBTMC488_REQUEST_LOCAL_LOCKOUT

datatype recip = USB_RECIP_INTERFACE | USB_RECIP_ENDPOINT

text \<open>
  One call into the USB core. \<open>ControlMsg\<close> is a class request with \<open>wValue\<close>,
  \<open>wIndex\<close> and the size asked for; \<open>ControlRaw\<close> is the generic request of
  \<open>usbtmc_ioctl_request\<close> with the user's \<open>bRequest\<close>, \<open>bRequestType\<close>, \<open>wValue\<close>,
  \<open>wIndex\<close>, \<open>wLength\<close> and the bytes of the kernel buffer for an OUT transfer;
  \<open>BulkOut ep bytes\<close> hands \<open>bytes\<close> to the bulk-out pipe; \<open>BulkIn ep size\<close> asks
  the bulk-in pipe for at most \<open>size\<close> bytes; \<open>ClearHalt ep\<close> is \<open>usb_clear_halt\<close>.
\<close>

datatype usb_call =
    ControlMsg request recip u16 u16 nat
  | ControlRaw u8 u8 u16 u16 nat "u8 list"
  | BulkOut nat "u8 list"
  | BulkIn nat nat
  | ClearHalt nat

text \<open>
  A completion of the interrupt-in URB as \<open>usbtmc_interrupt\<close> sees it: \<open>urb->status\<close>
  (\<open>None\<close> is 0) and the first two bytes of \<open>data->iin_buffer\<close>.
\<close>

record urb =
  urb_status :: "errno option"
  iin_buffer0 :: u8
  iin_buffer1 :: u8

text \<open>
  An endpoint descriptor of the interface's current setting: the address, what
  \<open>usb_endpoint_maxp\<close> gives, the polling interval, and how the predicates
  \<open>usb_endpoint_is_bulk_in\<close>, \<open>usb_endpoint_is_bulk_out\<close>, \<open>usb_endpoint_is_int_in\<close> of the
  USB core classify it.
\<close>

datatype ep_kind = BULK_IN | BULK_OUT | INT_IN | OTHER_EP

record usb_endpoint_descriptor =
  bEndpointAddress :: nat
  maxp :: nat
  bInterval :: nat
  kind :: ep_kind

record usbtmc_dev_capabilities =
  interface_capabilities :: u8
  device_capabilities :: u8
  usb488_interface_capabilities :: u8
  usb488_device_capabilities :: u8

text \<open>\<open>struct usbtmc_file_data\<close>: one per open file.\<close>

record usbtmc_file_data =
  srq_byte :: u8
  srq_asserted :: int
  f_TermChar :: u8
  f_TermCharEnabled :: bool
  f_auto_abort :: bool

text \<open>
  \<open>struct usbtmc_device_data\<close>. \<open>file_list\<close> maps the address of each open handle to
  its record (the intrusive list of the source; its order is never observed).
  \<open>cur_altsetting\<close> stands for \<open>intf->cur_altsetting->endpoint\<close>. \<open>iin_urb\<close> says
  whether the interrupt URB exists. \<open>io_buffer_size\<close> is the module parameter of that
  name, a global of the source, and \<open>registered\<close> says whether \<open>usb_find_interface\<close>
  finds the device's minor. Reference counting and the locks are left out: operations
  run one at a time. The last three fields are not in the source: \<open>trace\<close> logs every
  call into the USB core, most recent first; \<open>allocs\<close> counts the calls of \<open>kmalloc\<close>;
  \<open>sigio\<close> counts the calls of \<open>kill_fasync\<close>.
\<close>

record usbtmc_device_data =
  file_list :: "nat \<rightharpoonup> usbtmc_file_data"
  cur_altsetting :: "usb_endpoint_descriptor list"
  bulk_in :: nat
  bulk_out :: nat
  bTag :: u8
  bTag_last_write :: u8
  bTag_last_read :: u8
  bNotify1 :: u8
  bNotify2 :: u8
  ifnum :: u16
  iin_bTag :: u8
  iin_data_valid :: int
  iin_ep :: nat
  iin_ep_present :: bool
  iin_interval :: nat
  iin_urb :: bool
  iin_wMaxPacketSize :: nat
  usb488_caps :: u8
  timeout :: u32
  TermChar :: u8
  TermCharEnabled :: bool
  auto_abort :: bool
  eom_val :: bool
  zombie :: bool
  capabilities :: usbtmc_dev_capabilities
  fasync :: bool
  io_buffer_size :: nat
  registered :: bool
  trace :: "usb_call list"
  allocs :: nat
  sigio :: nat

text \<open>
  Everything outside the driver. \<open>kmalloc_ok i n\<close>: whether the \<open>i\<close>-th allocation, of
  \<open>n\<close> bytes, succeeds. \<open>usb_reply t\<close>: the answer of the USB core to the call at the
  head of the log \<open>t\<close>, after the calls in its tail: \<open>Inl e\<close> is the return of \<open>-e\<close>,
  \<open>Inr (n, buffer)\<close> is success with \<open>n\<close> bytes transferred and \<open>buffer\<close> the contents
  of the transfer buffer afterwards. \<open>wait_reply t\<close>: what happens while
  \<open>usbtmc488_ioctl_read_stb\<close> sleeps on \<open>waitq\<close>: the interrupt-in completions that
  arrive, and whether a signal is pending for the sleeper.
\<close>

record env =
  kmalloc_ok :: "nat \<Rightarrow> nat \<Rightarrow> bool"
  usb_reply :: "usb_call list \<Rightarrow> errno + nat \<times> (nat \<Rightarrow> u8)"
  wait_reply :: "usb_call list \<Rightarrow> urb list \<times> bool"

section \<open>Kernel interfaces\<close>

definition kmalloc :: "env \<Rightarrow> nat \<Rightarrow> usbtmc_device_data \<Rightarrow> bool \<times> usbtmc_device_data" where
  "kmalloc env n s = (kmalloc_ok env (allocs s) n, s\<lparr>allocs := Suc (allocs s)\<rparr>)"

definition usb_submit ::
  "env \<Rightarrow> usb_call \<Rightarrow> usbtmc_device_data \<Rightarrow> (errno + nat \<times> (nat \<Rightarrow> u8)) \<times> usbtmc_device_data" where
  "usb_submit env c s = (usb_reply env (c # trace s), s\<lparr>trace := c # trace s\<rparr>)"

definition usb_control_msg ::
  "env \<Rightarrow> request \<Rightarrow> recip \<Rightarrow> u16 \<Rightarrow> u16 \<Rightarrow> nat \<Rightarrow> usbtmc_device_data
     \<Rightarrow> (errno + nat \<times> (nat \<Rightarrow> u8)) \<times> usbtmc_device_data" where
  "usb_control_msg env rq rc wValue wIndex len s = usb_submit env (ControlMsg rq rc wValue wIndex len) s"

text \<open>
  \<open>usb_bulk_msg\<close> on the send and on the receive pipe: \<open>retval\<close> and \<open>actual\<close>.
  The USB core never reports more bytes than the length it was called with, which the
  model writes out as \<open>min\<close>.
\<close>

definition usb_bulk_msg_snd ::
  "env \<Rightarrow> nat \<Rightarrow> u8 list \<Rightarrow> usbtmc_device_data \<Rightarrow> (errno + nat) \<times> usbtmc_device_data" where
  "usb_bulk_msg_snd env ep bytes s =
     (case usb_submit env (BulkOut ep bytes) s of
        (Inl e, s') \<Rightarrow> (Inl e, s')
      | (Inr (actual, _), s') \<Rightarrow> (Inr (min actual (length bytes)), s'))"

definition usb_bulk_msg_rcv ::
  "env \<Rightarrow> nat \<Rightarrow> nat \<Rightarrow> usbtmc_device_data
     \<Rightarrow> (errno + nat \<times> (nat \<Rightarrow> u8)) \<times> usbtmc_device_data" where
  "usb_bulk_msg_rcv env ep len s =
     (case usb_submit env (BulkIn ep len) s of
        (Inl e, s') \<Rightarrow> (Inl e, s')
      | (Inr (actual, buffer), s') \<Rightarrow> (Inr (min actual len, buffer), s'))"

definition usb_clear_halt ::
  "env \<Rightarrow> nat \<Rightarrow> usbtmc_device_data \<Rightarrow> (errno + unit) \<times> usbtmc_device_data" where
  "usb_clear_halt env ep s =
     (case usb_submit env (ClearHalt ep) s of
        (Inl e, s') \<Rightarrow> (Inl e, s')
      | (Inr _, s') \<Rightarrow> (Inr (), s'))"

section \<open>The interrupt-in handler\<close>

text \<open>
  \<open>usbtmc_interrupt\<close>. The result says whether the handler reached \<open>usb_submit_urb\<close>
  (whose failure is only logged). Wake-ups have no effect of their own here: sleeping on
  \<open>waitq\<close> is modelled in \<open>wait_event_interruptible_timeout\<close> below.
\<close>

definition usbtmc_interrupt :: "urb \<Rightarrow> usbtmc_device_data \<Rightarrow> bool \<times> usbtmc_device_data" where
  "usbtmc_interrupt u s =
     (case urb_status u of
        None \<Rightarrow>
          if iin_buffer0 u > 0x81 then
            (True, s\<lparr>bNotify1 := iin_buffer0 u, bNotify2 := iin_buffer1 u, iin_data_valid := 1\<rparr>)
          else if iin_buffer0 u = 0x81 then
            (True, s\<lparr>file_list :=
                       (\<lambda>fd. map_option (\<lambda>file_data. file_data\<lparr>srq_byte := iin_buffer1 u,
                                                              srq_asserted := 1\<rparr>)
                                         (file_list s fd)),
                     sigio := (if fasync s then Suc (sigio s) else sigio s)\<rparr>)
          else (True, s)
      | Some e \<Rightarrow>
          if e \<in> {EOVERFLOW, ECONNRESET, ENOENT, ESHUTDOWN, EILSEQ, ETIME, EPIPE} then (False, s)
          else (True, s))"

text \<open>
  The completions that arrive during a sleep, in order; a completion after which the
  handler does not resubmit the URB is the last one.
\<close>

fun run_interrupts :: "urb list \<Rightarrow> usbtmc_device_data \<Rightarrow> usbtmc_device_data" where
  "run_interrupts [] s = s"
| "run_interrupts (u # us) s =
     (case usbtmc_interrupt u s of
        (True, s') \<Rightarrow> run_interrupts us s'
      | (False, s') \<Rightarrow> s')"

text \<open>
  \<open>wait_event_interruptible_timeout (data->waitq, iin_data_valid != 0, data->timeout)\<close>:
  positive when the condition holds, \<open>-ERESTARTSYS\<close> when a signal ends the sleep,
  0 when the time runs out.
\<close>

definition wait_event_interruptible_timeout ::
  "env \<Rightarrow> usbtmc_device_data \<Rightarrow> (errno + nat) \<times> usbtmc_device_data" where
  "wait_event_interruptible_timeout env s =
     (case wait_reply env (trace s) of
        (urbs, signal) \<Rightarrow>
          let s' = run_interrupts urbs s in
          if iin_data_valid s' \<noteq> 0 then (Inr 1, s')
          else if signal then (Inl ERESTARTSYS, s')
          else (Inr 0, s'))"

section \<open>USB488 status byte and simple requests\<close>

text \<open>The \<open>exit\<close> label of \<open>usbtmc488_ioctl_read_stb\<close>: bump the interrupt bTag.\<close>

definition read_stb_exit ::
  "(errno + u8) \<times> usbtmc_device_data \<Rightarrow> (errno + u8) \<times> usbtmc_device_data" where
  "read_stb_exit rs =
     (case rs of (rv, s) \<Rightarrow>
        let s1 = s\<lparr>iin_bTag := iin_bTag s + 1\<rparr> in
        (rv, if iin_bTag s1 > 127 then s1\<lparr>iin_bTag := 2\<rparr> else s1))"

text \<open>
  \<open>usbtmc488_ioctl_read_stb (file_data, arg)\<close>. \<open>fd\<close> is the address of the handle and
  \<open>arg_ok\<close> says whether \<open>put_user\<close> to \<open>arg\<close> succeeds. \<open>Inr stb\<close> is the return of 0
  with \<open>stb\<close> stored at \<open>arg\<close>. A handle that is not open never reaches the driver (the
  file layer owns \<open>file->private_data\<close>); the model answers \<open>EBADF\<close> there.
\<close>

definition usbtmc488_ioctl_read_stb ::
  "env \<Rightarrow> nat \<Rightarrow> bool \<Rightarrow> usbtmc_device_data \<Rightarrow> (errno + u8) \<times> usbtmc_device_data" where
  "usbtmc488_ioctl_read_stb env fd arg_ok s =
     (case file_list s fd of
        None \<Rightarrow> (Inl EBADF, s)
      | Some file_data \<Rightarrow>
          let s1 = s\<lparr>file_list := (file_list s)(fd \<mapsto> file_data\<lparr>srq_asserted := 0\<rparr>)\<rparr> in
          if srq_asserted file_data \<noteq> 0 then
            (if arg_ok then Inr (srq_byte file_data) else Inl EFAULT, s1)
          else
            (case kmalloc env 8 s1 of
               (False, s2) \<Rightarrow> (Inl ENOMEM, s2)
             | (True, s2) \<Rightarrow>
                 let s3 = s2\<lparr>iin_data_valid := 0\<rparr> in
                 read_stb_exit
                   (case usb_control_msg env USBTMC488_REQUEST_READ_STATUS_BYTE USB_RECIP_INTERFACE
                           (ucast (iin_bTag s3)) (ifnum s3) 3 s3 of
                      (Inl e, s4) \<Rightarrow> (Inl e, s4)
                    | (Inr (rv, buffer), s4) \<Rightarrow>
                        if buffer 0 \<noteq> USBTMC_STATUS_SUCCESS then (Inl EIO, s4)
                        else if iin_ep_present s4 then
                          (case wait_event_interruptible_timeout env s4 of
                             (Inl e, s5) \<Rightarrow> (Inl e, s5)
                           | (Inr n, s5) \<Rightarrow>
                               if n = 0 then (Inl ETIMEDOUT, s5)
                               else (if arg_ok then Inr (bNotify2 s5) else Inl EFAULT, s5))
                        else (if arg_ok then Inr (buffer 2) else Inl EFAULT, s4))))"

text \<open>
  \<open>usbtmc488_ioctl_simple (data, arg, cmd)\<close>. \<open>CAPABILITY_SIMPLE\<close> stands for the macro
  \<open>USBTMC488_CAPABILITY_SIMPLE\<close> of \<open>tmc.h\<close>, which is not among the sources; \<open>arg\<close> is
  the byte \<open>copy_from_user\<close> reads at the user's pointer, \<open>None\<close> when it faults.
\<close>

definition usbtmc488_ioctl_simple ::
  "env \<Rightarrow> u8 \<Rightarrow> u8 option \<Rightarrow> request \<Rightarrow> usbtmc_device_data \<Rightarrow> (errno + unit) \<times> usbtmc_device_data" where
  "usbtmc488_ioctl_simple env CAPABILITY_SIMPLE arg cmd s =
     (if usb488_caps s AND CAPABILITY_SIMPLE = 0 then (Inl EINVAL, s)
      else
        (case kmalloc env 8 s of
           (False, s1) \<Rightarrow> (Inl ENOMEM, s1)
         | (True, s1) \<Rightarrow>
             (case (if cmd = USBTMC488_REQUEST_REN_CONTROL
                    then (case arg of None \<Rightarrow> Inl EFAULT
                                    | Some val \<Rightarrow> Inr (if val \<noteq> 0 then 1 else 0))
                    else Inr 0) of
                Inl e \<Rightarrow> (Inl e, s1)
              | Inr wValue \<Rightarrow>
                  (case usb_control_msg env cmd USB_RECIP_INTERFACE wValue (ifnum s1) 1 s1 of
                     (Inl e, s2) \<Rightarrow> (Inl e, s2)
                   | (Inr (rv, buffer), s2) \<Rightarrow>
                       if rv \<noteq> 1 then (Inl EIO, s2)
                       else if buffer 0 \<noteq> USBTMC_STATUS_SUCCESS then (Inl EIO, s2)
                       else (Inr (), s2)))))"

section \<open>Abort of bulk transfers\<close>

text \<open>
  \<open>usbtmc_ioctl_abort_bulk_out\<close>. Its status loop (the label
  \<open>usbtmc_abort_bulk_out_check_status\<close>) is bounded by \<open>n\<close>, which the source
  increments right after the request.
\<close>

function abort_bulk_out_check_status ::
  "env \<Rightarrow> nat \<Rightarrow> usbtmc_device_data \<Rightarrow> (errno + unit) \<times> usbtmc_device_data" where
  "abort_bulk_out_check_status env n s =
     (case usb_control_msg env USBTMC_REQUEST_CHECK_ABORT_BULK_OUT_STATUS USB_RECIP_ENDPOINT
             0 (of_nat (bulk_out s)) 8 s of
        (Inl e, s1) \<Rightarrow> (Inl e, s1)
      | (Inr (rv, buffer), s1) \<Rightarrow>
          if buffer 0 = USBTMC_STATUS_SUCCESS then usb_clear_halt env (bulk_out s1) s1
          else if buffer 0 = USBTMC_STATUS_PENDING \<and> Suc n < USBTMC_MAX_READS_TO_CLEAR_BULK_IN
          then abort_bulk_out_check_status env (Suc n) s1
          else (Inl EPERM, s1))"
  by pat_completeness auto
termination
  by (relation "measure (\<lambda>(env, n, s). USBTMC_MAX_READS_TO_CLEAR_BULK_IN - n)") auto

definition usbtmc_ioctl_abort_bulk_out ::
  "env \<Rightarrow> usbtmc_device_data \<Rightarrow> (errno + unit) \<times> usbtmc_device_data" where
  "usbtmc_ioctl_abort_bulk_out env s =
     (case kmalloc env 8 s of
        (False, s1) \<Rightarrow> (Inl ENOMEM, s1)
      | (True, s1) \<Rightarrow>
          (case usb_control_msg env USBTMC_REQUEST_INITIATE_ABORT_BULK_OUT USB_RECIP_ENDPOINT
                  (ucast (bTag_last_write s1)) (of_nat (bulk_out s1)) 2 s1 of
             (Inl e, s2) \<Rightarrow> (Inl e, s2)
           | (Inr (rv, buffer), s2) \<Rightarrow>
               if buffer 0 \<noteq> USBTMC_STATUS_SUCCESS then (Inl EPERM, s2)
               else abort_bulk_out_check_status env 0 s2))"

text \<open>
  The search for \<open>wMaxPacketSize\<close> of the bulk-in endpoint in \<open>cur_altsetting\<close>: the
  last endpoint with the address wins, 0 when there is none.
\<close>

definition find_max_size :: "usb_endpoint_descriptor list \<Rightarrow> nat \<Rightarrow> nat" where
  "find_max_size endpoints addr =
     foldl (\<lambda>max_size desc. if bEndpointAddress desc = addr then maxp desc else max_size) 0 endpoints"

text \<open>
  The \<open>do ... while ((actual == max_size) && (n < USBTMC_MAX_READS_TO_CLEAR_BULK_IN))\<close>
  loop that empties the bulk-in endpoint; it returns \<open>rv\<close> or \<open>actual\<close>, and \<open>n\<close>.
\<close>

function drain_bulk_in ::
  "env \<Rightarrow> nat \<Rightarrow> nat \<Rightarrow> usbtmc_device_data \<Rightarrow> (errno + nat) \<times> nat \<times> usbtmc_device_data" where
  "drain_bulk_in env max_size n s =
     (case usb_bulk_msg_rcv env (bulk_in s) (io_buffer_size s) s of
        (Inl e, s1) \<Rightarrow> (Inl e, Suc n, s1)
      | (Inr (actual, buffer), s1) \<Rightarrow>
          if actual = max_size \<and> Suc n < USBTMC_MAX_READS_TO_CLEAR_BULK_IN
          then drain_bulk_in env max_size (Suc n) s1
          else (Inr actual, Suc n, s1))"
  by pat_completeness auto
termination
  by (relation "measure (\<lambda>(env, max_size, n, s). USBTMC_MAX_READS_TO_CLEAR_BULK_IN - n)") auto

text \<open>
  The label \<open>usbtmc_abort_bulk_in_status\<close> of \<open>usbtmc_ioctl_abort_bulk_in\<close>. Nothing
  bounds the number of times a device may answer PENDING, so the loop takes fuel and
  \<open>None\<close> is the run that has not returned when the fuel is spent.
\<close>

fun abort_bulk_in_status ::
  "nat \<Rightarrow> env \<Rightarrow> nat \<Rightarrow> nat \<Rightarrow> nat \<Rightarrow> usbtmc_device_data
     \<Rightarrow> ((errno + unit) \<times> usbtmc_device_data) option" where
  "abort_bulk_in_status 0 env max_size n actual s = None"
| "abort_bulk_in_status (Suc fuel) env max_size n actual s =
     (case usb_control_msg env USBTMC_REQUEST_CHECK_ABORT_BULK_IN_STATUS USB_RECIP_ENDPOINT
             0 (of_nat (bulk_in s)) 8 s of
        (Inl e, s1) \<Rightarrow> Some (Inl e, s1)
      | (Inr (rv, buffer), s1) \<Rightarrow>
          if buffer 0 = USBTMC_STATUS_SUCCESS then Some (Inr (), s1)
          else if buffer 0 \<noteq> USBTMC_STATUS_PENDING then Some (Inl EPERM, s1)
          else if buffer 1 = 1 then
            (case drain_bulk_in env max_size n s1 of
               (Inl e, n', s2) \<Rightarrow> Some (Inl e, s2)
             | (Inr actual', n', s2) \<Rightarrow>
                 if actual' = max_size then Some (Inl EPERM, s2)
                 else abort_bulk_in_status fuel env max_size n' actual' s2)
          else if actual = max_size then Some (Inl EPERM, s1)
          else abort_bulk_in_status fuel env max_size n actual s1)"

definition usbtmc_ioctl_abort_bulk_in ::
  "nat \<Rightarrow> env \<Rightarrow> usbtmc_device_data \<Rightarrow> ((errno + unit) \<times> usbtmc_device_data) option" where
  "usbtmc_ioctl_abort_bulk_in fuel env s =
     (case kmalloc env (io_buffer_size s) s of
        (False, s1) \<Rightarrow> Some (Inl ENOMEM, s1)
      | (True, s1) \<Rightarrow>
          (case usb_control_msg env USBTMC_REQUEST_INITIATE_ABORT_BULK_IN USB_RECIP_ENDPOINT
                  (ucast (bTag_last_read s1)) (of_nat (bulk_in s1)) 2 s1 of
             (Inl e, s2) \<Rightarrow> Some (Inl e, s2)
           | (Inr (rv, buffer), s2) \<Rightarrow>
               if buffer 0 = USBTMC_STATUS_FAILED then Some (Inr (), s2)
               else if buffer 0 \<noteq> USBTMC_STATUS_SUCCESS then Some (Inl EPERM, s2)
               else
                 let max_size = find_max_size (cur_altsetting s2) (bulk_in s2) in
                 if max_size = 0 then Some (Inl EPERM, s2)
                 else
                   (case drain_bulk_in env max_size 0 s2 of
                      (Inl e, n, s3) \<Rightarrow> Some (Inl e, s3)
                    | (Inr actual, n, s3) \<Rightarrow>
                        if actual = max_size then Some (Inl EPERM, s3)
                        else abort_bulk_in_status fuel env max_size 0 actual s3)))"

section \<open>Bulk-out framing: TRIGGER and REQUEST_DEV_DEP_MSG_IN\<close>

text \<open>\<open>data->bTag++; if (!data->bTag) data->bTag++;\<close>\<close>

definition increment_bTag :: "usbtmc_device_data \<Rightarrow> usbtmc_device_data" where
  "increment_bTag s =
     (let s1 = s\<lparr>bTag := bTag s + 1\<rparr> in
      if bTag s1 = 0 then s1\<lparr>bTag := bTag s1 + 1\<rparr> else s1)"

text \<open>The four bytes \<open>x >> 0\<close>, \<open>x >> 8\<close>, \<open>x >> 16\<close>, \<open>x >> 24\<close>, each cut to \<open>u8\<close>.\<close>

definition le32_bytes :: "nat \<Rightarrow> u8 list" where
  "le32_bytes x = [of_nat x, of_nat (x div 2 ^ 8), of_nat (x div 2 ^ 16), of_nat (x div 2 ^ 24)]"

definition usbtmc488_ioctl_trigger ::
  "env \<Rightarrow> usbtmc_device_data \<Rightarrow> (errno + unit) \<times> usbtmc_device_data" where
  "usbtmc488_ioctl_trigger env s =
     (case kmalloc env USBTMC_HEADER_SIZE s of
        (False, s1) \<Rightarrow> (Inl ENOMEM, s1)
      | (True, s1) \<Rightarrow>
          let buffer = [128, bTag s1, NOT (bTag s1)] @ replicate 9 0 in
          (case usb_bulk_msg_snd env (bulk_out s1) buffer s1 of
             (retval, s2) \<Rightarrow>
               let s3 = increment_bTag (s2\<lparr>bTag_last_write := bTag s2\<rparr>) in
               (case retval of Inl e \<Rightarrow> (Inl e, s3) | Inr _ \<Rightarrow> (Inr (), s3))))"

text \<open>
  \<open>send_request_dev_dep_msg_in (file_data, transfer_size)\<close>: the handle's \<open>TermChar\<close>
  and \<open>TermCharEnabled\<close> go into the header.
\<close>

definition send_request_dev_dep_msg_in ::
  "env \<Rightarrow> nat \<Rightarrow> nat \<Rightarrow> usbtmc_device_data \<Rightarrow> (errno + unit) \<times> usbtmc_device_data" where
  "send_request_dev_dep_msg_in env fd transfer_size s =
     (case file_list s fd of
        None \<Rightarrow> (Inl EBADF, s)
      | Some file_data \<Rightarrow>
          (case kmalloc env USBTMC_HEADER_SIZE s of
             (False, s1) \<Rightarrow> (Inl ENOMEM, s1)
           | (True, s1) \<Rightarrow>
               let buffer = [2, bTag s1, NOT (bTag s1), 0] @ le32_bytes transfer_size @
                            [if f_TermCharEnabled file_data then 2 else 0, f_TermChar file_data, 0, 0] in
               (case usb_bulk_msg_snd env (bulk_out s1) buffer s1 of
                  (retval, s2) \<Rightarrow>
                    let s3 = increment_bTag (s2\<lparr>bTag_last_write := bTag s2\<rparr>) in
                    (case retval of Inl e \<Rightarrow> (Inl e, s3) | Inr _ \<Rightarrow> (Inr (), s3)))))"

section \<open>The read engine\<close>

text \<open>
  \<open>copy_to_user (buf + off, src, n)\<close> for a user buffer of which the first \<open>ulen\<close>
  bytes can be written; a copy of no bytes always succeeds.
\<close>

definition copy_to_user :: "nat \<Rightarrow> nat \<Rightarrow> nat \<Rightarrow> bool" where
  "copy_to_user ulen off n = (n = 0 \<or> off + n \<le> ulen)"

text \<open>
  \<open>if (data->auto_abort) usbtmc_ioctl_abort_bulk_in (data); goto exit;\<close> with the
  \<open>retval\<close> the read returns at \<open>exit\<close>.
\<close>

definition read_abort ::
  "nat \<Rightarrow> env \<Rightarrow> errno + u8 list \<Rightarrow> usbtmc_device_data
     \<Rightarrow> ((errno + u8 list) \<times> usbtmc_device_data) option" where
  "read_abort fuel env retval s =
     (if auto_abort s then
        (case usbtmc_ioctl_abort_bulk_in fuel env s of
           None \<Rightarrow> None
         | Some (_, s') \<Rightarrow> Some (retval, s'))
      else Some (retval, s))"

text \<open>\<open>buffer[4] + (buffer[5] << 8) + (buffer[6] << 16) + (buffer[7] << 24)\<close> as \<open>u32\<close>.\<close>

definition n_characters_of :: "(nat \<Rightarrow> u8) \<Rightarrow> nat" where
  "n_characters_of buffer =
     unat (buffer 4) + unat (buffer 5) * 2 ^ 8 + unat (buffer 6) * 2 ^ 16 + unat (buffer 7) * 2 ^ 24"

text \<open>
  The \<open>while (remaining > 0)\<close> loop of \<open>usbtmc_read\<close>. \<open>out\<close> is what has been copied
  to the user's buffer, so \<open>done\<close> of the source is \<open>length out\<close>; \<open>Inr out\<close> is the
  return of \<open>done\<close>. A header fault leaves \<open>retval\<close> as \<open>usb_bulk_msg\<close> set it, which
  is 0 there: the read returns 0, and \<open>done\<close> is 0 too. A device may keep sending empty
  packets, so the loop takes fuel.
\<close>

fun usbtmc_read_loop ::
  "nat \<Rightarrow> env \<Rightarrow> nat \<Rightarrow> nat \<Rightarrow> nat \<Rightarrow> u8 list \<Rightarrow> usbtmc_device_data
     \<Rightarrow> ((errno + u8 list) \<times> usbtmc_device_data) option" where
  "usbtmc_read_loop 0 env ulen this_part remaining out s =
     (if remaining > 0 then None else Some (Inr out, s))"
| "usbtmc_read_loop (Suc fuel) env ulen this_part remaining out s =
     (if remaining > 0 then
        (case usb_bulk_msg_rcv env (bulk_in s) (io_buffer_size s) s of
           (retval, s0) \<Rightarrow>
             let s1 = s0\<lparr>bTag_last_read := bTag s0\<rparr> in
             (case retval of
                Inl e \<Rightarrow> read_abort fuel env (Inl e) s1
              | Inr (actual, buffer) \<Rightarrow>
                  if length out = 0 then
                    if actual < USBTMC_HEADER_SIZE then read_abort fuel env (Inr []) s1
                    else if buffer 0 \<noteq> 2 then read_abort fuel env (Inr []) s1
                    else if buffer 1 \<noteq> bTag_last_write s1 then read_abort fuel env (Inr []) s1
                    else
                      let n_characters = n_characters_of buffer in
                      if n_characters > this_part then read_abort fuel env (Inr []) s1
                      else
                        let actual1 = actual - USBTMC_HEADER_SIZE;
                            remaining1 = (if remaining > n_characters then n_characters else remaining);
                            actual2 = (if actual1 > remaining1 then remaining1 else actual1);
                            remaining2 = remaining1 - actual2;
                            remaining3 = (if buffer 8 AND 1 \<noteq> 0 \<and> actual2 \<ge> n_characters
                                          then 0 else remaining2)
                        in
                        if \<not> copy_to_user ulen (length out) actual2 then Some (Inl EFAULT, s1)
                        else usbtmc_read_loop fuel env ulen this_part remaining3
                               (out @ map buffer [USBTMC_HEADER_SIZE ..< USBTMC_HEADER_SIZE + actual2]) s1
                  else
                    let actual1 = (if actual > remaining then remaining else actual);
                        remaining1 = remaining - actual1
                    in
                    if \<not> copy_to_user ulen (length out) actual1 then Some (Inl EFAULT, s1)
                    else usbtmc_read_loop fuel env ulen this_part remaining1
                           (out @ map buffer [0 ..< actual1]) s1))
      else Some (Inr out, s))"

text \<open>
  \<open>usbtmc_read (filp, buf, count, f_pos)\<close>: \<open>fd\<close> is the handle, \<open>ulen\<close> the number of
  bytes that can be written at \<open>buf\<close>. The file layer caps \<open>count\<close> at \<open>MAX_RW_COUNT\<close>,
  below \<open>2 ^ 31\<close>, so sizes are natural numbers here. The file position, which the
  driver only adds \<open>done\<close> to, is left out.
\<close>

definition usbtmc_read ::
  "nat \<Rightarrow> env \<Rightarrow> nat \<Rightarrow> nat \<Rightarrow> nat \<Rightarrow> usbtmc_device_data
     \<Rightarrow> ((errno + u8 list) \<times> usbtmc_device_data) option" where
  "usbtmc_read fuel env fd ulen count s =
     (case kmalloc env (io_buffer_size s) s of
        (False, s1) \<Rightarrow> Some (Inl ENOMEM, s1)
      | (True, s1) \<Rightarrow>
          if zombie s1 then Some (Inl ENODEV, s1)
          else
            (case send_request_dev_dep_msg_in env fd count s1 of
               (Inl e, s2) \<Rightarrow>
                 if auto_abort s2 then
                   (case usbtmc_ioctl_abort_bulk_out env s2 of (_, s3) \<Rightarrow> Some (Inl e, s3))
                 else Some (Inl e, s2)
             | (Inr _, s2) \<Rightarrow> usbtmc_read_loop fuel env ulen count count [] s2))"

section \<open>The write engine\<close>

text \<open>\<open>io_buffer_size - USBTMC_HEADER_SIZE\<close> in \<open>unsigned int\<close>.\<close>

definition payload_room :: "nat \<Rightarrow> nat" where
  "payload_room iosz = (iosz + 2 ^ 32 - USBTMC_HEADER_SIZE) mod 2 ^ 32"

text \<open>\<open>roundup (x, 4)\<close>\<close>

definition roundup4 :: "nat \<Rightarrow> nat" where
  "roundup4 x = ((x + 3) div 4) * 4"

text \<open>
  The \<open>do ... while (n_bytes)\<close> loop of \<open>usbtmc_write\<close>: every pass hands the first
  \<open>n_bytes\<close> bytes of \<open>buffer\<close> to the bulk-out pipe. A pipe that reports success and
  no byte transferred keeps the loop going, so it takes fuel.
\<close>

fun write_send ::
  "nat \<Rightarrow> env \<Rightarrow> u8 list \<Rightarrow> nat \<Rightarrow> usbtmc_device_data
     \<Rightarrow> ((errno + unit) \<times> usbtmc_device_data) option" where
  "write_send 0 env buffer n_bytes s = None"
| "write_send (Suc fuel) env buffer n_bytes s =
     (case usb_bulk_msg_snd env (bulk_out s) (take n_bytes buffer) s of
        (Inl e, s1) \<Rightarrow> Some (Inl e, s1)
      | (Inr actual, s1) \<Rightarrow>
          if n_bytes - actual = 0 then Some (Inr (), s1)
          else write_send fuel env buffer (n_bytes - actual) s1)"

text \<open>The DEV_DEP_MSG_OUT frame of one chunk: header, payload, zero padding.\<close>

definition dev_dep_msg_out :: "u8 \<Rightarrow> nat \<Rightarrow> u8 \<Rightarrow> u8 list \<Rightarrow> u8 list" where
  "dev_dep_msg_out tag this_part attr payload =
     [1, tag, NOT tag, 0] @ le32_bytes this_part @ [attr, 0, 0, 0] @ payload @
     replicate (roundup4 (USBTMC_HEADER_SIZE + this_part) - (USBTMC_HEADER_SIZE + this_part)) 0"

text \<open>
  The \<open>while (remaining > 0)\<close> loop of \<open>usbtmc_write\<close>. \<open>ubuf\<close> holds the bytes that
  can be read at the user's \<open>buf\<close>; \<open>copy_from_user (..., buf + done, this_part)\<close>
  faults when it reaches beyond them.
\<close>

fun usbtmc_write_loop ::
  "nat \<Rightarrow> env \<Rightarrow> u8 list \<Rightarrow> nat \<Rightarrow> nat \<Rightarrow> nat \<Rightarrow> usbtmc_device_data
     \<Rightarrow> ((errno + nat) \<times> usbtmc_device_data) option" where
  "usbtmc_write_loop 0 env ubuf count remaining done s =
     (if remaining > 0 then None else Some (Inr count, s))"
| "usbtmc_write_loop (Suc fuel) env ubuf count remaining done s =
     (if remaining > 0 then
        let this_part = (if remaining > payload_room (io_buffer_size s)
                         then payload_room (io_buffer_size s) else remaining);
            attr = (if remaining > payload_room (io_buffer_size s) then 0
                    else if eom_val s then 1 else 0)
        in
        if done + this_part > length ubuf then Some (Inl EFAULT, s)
        else
          let buffer = dev_dep_msg_out (bTag s) this_part attr (take this_part (drop done ubuf));
              n_bytes = roundup4 (USBTMC_HEADER_SIZE + this_part)
          in
          (case write_send fuel env buffer n_bytes s of
             None \<Rightarrow> None
           | Some (retval, s1) \<Rightarrow>
               let s2 = increment_bTag (s1\<lparr>bTag_last_write := bTag s1\<rparr>) in
               (case retval of
                  Inl e \<Rightarrow>
                    if auto_abort s2 then
                      (case usbtmc_ioctl_abort_bulk_out env s2 of (_, s3) \<Rightarrow> Some (Inl e, s3))
                    else Some (Inl e, s2)
                | Inr _ \<Rightarrow>
                    usbtmc_write_loop fuel env ubuf count (remaining - this_part) (done + this_part) s2))
      else Some (Inr count, s))"

text \<open>
  \<open>usbtmc_write (filp, buf, count, f_pos)\<close>; \<open>count\<close> is capped by the file layer as
  for \<open>usbtmc_read\<close>.
\<close>

definition usbtmc_write ::
  "nat \<Rightarrow> env \<Rightarrow> u8 list \<Rightarrow> nat \<Rightarrow> usbtmc_device_data
     \<Rightarrow> ((errno + nat) \<times> usbtmc_device_data) option" where
  "usbtmc_write fuel env ubuf count s =
     (case kmalloc env (io_buffer_size s) s of
        (False, s1) \<Rightarrow> Some (Inl ENOMEM, s1)
      | (True, s1) \<Rightarrow>
          if zombie s1 then Some (Inl ENODEV, s1)
          else usbtmc_write_loop fuel env ubuf count count 0 s1)"

section \<open>Clear, capabilities and the small control requests\<close>

text \<open>
  The label \<open>usbtmc_clear_check_status\<close> of \<open>usbtmc_ioctl_clear\<close>; like the status loop
  of the bulk-in abort it can go on for as long as the device answers PENDING.
\<close>

fun clear_check_status ::
  "nat \<Rightarrow> env \<Rightarrow> nat \<Rightarrow> nat \<Rightarrow> nat \<Rightarrow> usbtmc_device_data
     \<Rightarrow> ((errno + unit) \<times> usbtmc_device_data) option" where
  "clear_check_status 0 env max_size n actual s = None"
| "clear_check_status (Suc fuel) env max_size n actual s =
     (case usb_control_msg env USBTMC_REQUEST_CHECK_CLEAR_STATUS USB_RECIP_INTERFACE 0 0 2 s of
        (Inl e, s1) \<Rightarrow> Some (Inl e, s1)
      | (Inr (rv, buffer), s1) \<Rightarrow>
          if buffer 0 = USBTMC_STATUS_SUCCESS then Some (usb_clear_halt env (bulk_out s1) s1)
          else if buffer 0 \<noteq> USBTMC_STATUS_PENDING then Some (Inl EPERM, s1)
          else if buffer 1 = 1 then
            (case drain_bulk_in env max_size n s1 of
               (Inl e, n', s2) \<Rightarrow> Some (Inl e, s2)
             | (Inr actual', n', s2) \<Rightarrow>
                 if actual' = max_size then Some (Inl EPERM, s2)
                 else clear_check_status fuel env max_size n' actual' s2)
          else if actual = max_size then Some (Inl EPERM, s1)
          else clear_check_status fuel env max_size n actual s1)"

definition usbtmc_ioctl_clear ::
  "nat \<Rightarrow> env \<Rightarrow> usbtmc_device_data \<Rightarrow> ((errno + unit) \<times> usbtmc_device_data) option" where
  "usbtmc_ioctl_clear fuel env s =
     (case kmalloc env (io_buffer_size s) s of
        (False, s1) \<Rightarrow> Some (Inl ENOMEM, s1)
      | (True, s1) \<Rightarrow>
          (case usb_control_msg env USBTMC_REQUEST_INITIATE_CLEAR USB_RECIP_INTERFACE 0 0 1 s1 of
             (Inl e, s2) \<Rightarrow> Some (Inl e, s2)
           | (Inr (rv, buffer), s2) \<Rightarrow>
               if buffer 0 \<noteq> USBTMC_STATUS_SUCCESS then Some (Inl EPERM, s2)
               else
                 let max_size = find_max_size (cur_altsetting s2) (bulk_in s2) in
                 if max_size = 0 then Some (Inl EPERM, s2)
                 else clear_check_status fuel env max_size 0 0 s2))"

definition usbtmc_ioctl_clear_out_halt ::
  "env \<Rightarrow> usbtmc_device_data \<Rightarrow> (errno + unit) \<times> usbtmc_device_data" where
  "usbtmc_ioctl_clear_out_halt env s = usb_clear_halt env (bulk_out s) s"

definition usbtmc_ioctl_clear_in_halt ::
  "env \<Rightarrow> usbtmc_device_data \<Rightarrow> (errno + unit) \<times> usbtmc_device_data" where
  "usbtmc_ioctl_clear_in_halt env s = usb_clear_halt env (bulk_in s) s"

definition get_capabilities ::
  "env \<Rightarrow> usbtmc_device_data \<Rightarrow> (errno + unit) \<times> usbtmc_device_data" where
  "get_capabilities env s =
     (case kmalloc env 0x18 s of
        (False, s1) \<Rightarrow> (Inl ENOMEM, s1)
      | (True, s1) \<Rightarrow>
          (case usb_control_msg env USBTMC_REQUEST_GET_CAPABILITIES USB_RECIP_INTERFACE 0 0 0x18 s1 of
             (Inl e, s2) \<Rightarrow> (Inl e, s2)
           | (Inr (rv, buffer), s2) \<Rightarrow>
               if buffer 0 \<noteq> USBTMC_STATUS_SUCCESS then (Inl EPERM, s2)
               else
                 (Inr (),
                  s2\<lparr>capabilities :=
                       \<lparr>interface_capabilities = buffer 4,
                        device_capabilities = buffer 5,
                        usb488_interface_capabilities = buffer 14,
                        usb488_device_capabilities = buffer 15\<rparr>,
                     usb488_caps := (buffer 14 AND 0x07) OR push_bit 4 (buffer 15 AND 0x0f)\<rparr>)))"

definition usbtmc_ioctl_indicator_pulse ::
  "env \<Rightarrow> usbtmc_device_data \<Rightarrow> (errno + unit) \<times> usbtmc_device_data" where
  "usbtmc_ioctl_indicator_pulse env s =
     (case kmalloc env 2 s of
        (False, s1) \<Rightarrow> (Inl ENOMEM, s1)
      | (True, s1) \<Rightarrow>
          (case usb_control_msg env USBTMC_REQUEST_INDICATOR_PULSE USB_RECIP_INTERFACE 0 0 1 s1 of
             (Inl e, s2) \<Rightarrow> (Inl e, s2)
           | (Inr (rv, buffer), s2) \<Rightarrow>
               if buffer 0 \<noteq> USBTMC_STATUS_SUCCESS then (Inl EPERM, s2)
               else (Inr (), s2)))"

text \<open>
  \<open>struct usbtmc_ctrlrequest\<close> of \<open>tmc.h\<close> as \<open>copy_from_user\<close> delivers it, with
  \<open>req_data\<close> the bytes that can be read and written at its user pointer \<open>data\<close>.
\<close>

record usbtmc_ctrlrequest =
  bRequestType :: u8
  bRequest :: u8
  wValue :: u16
  wIndex :: u16
  wLength :: u16
  req_data :: "u8 list"

text \<open>
  What an ioctl hands back: the value it returns and what it stores through the user's
  pointer.
\<close>

datatype ioctl_out = Out_none | Out_u8 u8 | Out_u32 u32 | Out_data nat "u8 list"

text \<open>
  \<open>usbtmc_ioctl_request\<close>: \<open>arg\<close> is \<open>None\<close> when reading the request structure
  faults. \<open>USB_DIR_IN\<close> is bit 7 of \<open>bmRequestType\<close>.
\<close>

definition usbtmc_ioctl_request ::
  "env \<Rightarrow> usbtmc_ctrlrequest option \<Rightarrow> usbtmc_device_data
     \<Rightarrow> (errno + ioctl_out) \<times> usbtmc_device_data" where
  "usbtmc_ioctl_request env arg s =
     (case arg of
        None \<Rightarrow> (Inl EFAULT, s)
      | Some request \<Rightarrow>
          (case kmalloc env (unat (wLength request)) s of
             (False, s1) \<Rightarrow> (Inl ENOMEM, s1)
           | (True, s1) \<Rightarrow>
               let dir_in = (bRequestType request AND 0x80 \<noteq> 0);
                   len = unat (wLength request) in
               if \<not> dir_in \<and> len \<noteq> 0 \<and> len > length (req_data request) then (Inl EFAULT, s1)
               else
                 (case usb_submit env
                         (ControlRaw (bRequest request) (bRequestType request) (wValue request)
                            (wIndex request) len
                            (if dir_in then [] else take len (req_data request))) s1 of
                    (Inl e, s2) \<Rightarrow> (Inl e, s2)
                  | (Inr (rv, buffer), s2) \<Rightarrow>
                      if dir_in then
                        let rv1 = (if rv > len then len else rv) in
                        if rv1 \<noteq> 0 \<and> rv1 > length (req_data request) then (Inl EFAULT, s2)
                        else (Inr (Out_data rv1 (map buffer [0 ..< rv1])), s2)
                      else (Inr (Out_data rv []), s2))))"

definition usbtmc_ioctl_get_timeout ::
  "bool \<Rightarrow> usbtmc_device_data \<Rightarrow> (errno + ioctl_out) \<times> usbtmc_device_data" where
  "usbtmc_ioctl_get_timeout arg_ok s =
     (if \<not> arg_ok then (Inl EFAULT, s) else (Inr (Out_u32 (timeout s)), s))"

definition usbtmc_ioctl_set_timeout ::
  "u32 option \<Rightarrow> usbtmc_device_data \<Rightarrow> (errno + unit) \<times> usbtmc_device_data" where
  "usbtmc_ioctl_set_timeout arg s =
     (case arg of
        None \<Rightarrow> (Inl EFAULT, s)
      | Some t \<Rightarrow>
          if unat t < USBTMC_MIN_TIMEOUT then (Inl EINVAL, s)
          else (Inr (), s\<lparr>timeout := t\<rparr>))"

definition usbtmc_ioctl_eom_enable ::
  "u8 option \<Rightarrow> usbtmc_device_data \<Rightarrow> (errno + unit) \<times> usbtmc_device_data" where
  "usbtmc_ioctl_eom_enable arg s =
     (case arg of
        None \<Rightarrow> (Inl EFAULT, s)
      | Some eom_enable \<Rightarrow>
          if eom_enable > 1 then (Inl EINVAL, s)
          else (Inr (), s\<lparr>eom_val := (eom_enable \<noteq> 0)\<rparr>))"

text \<open>\<open>struct usbtmc_termchar\<close> of \<open>tmc.h\<close> is the pair \<open>(term_char, term_char_enabled)\<close>.\<close>

definition usbtmc_ioctl_config_termc ::
  "(u8 \<times> u8) option \<Rightarrow> usbtmc_device_data \<Rightarrow> (errno + unit) \<times> usbtmc_device_data" where
  "usbtmc_ioctl_config_termc arg s =
     (case arg of
        None \<Rightarrow> (Inl EFAULT, s)
      | Some (term_char, term_char_enabled) \<Rightarrow>
          if term_char_enabled > 1 \<or>
             (term_char_enabled \<noteq> 0 \<and> device_capabilities (capabilities s) AND 1 = 0)
          then (Inl EINVAL, s)
          else (Inr (), s\<lparr>TermChar := term_char, TermCharEnabled := (term_char_enabled \<noteq> 0)\<rparr>))"

section \<open>The ioctl dispatcher\<close>

text \<open>
  The commands of \<open>tmc.h\<close> by name; \<open>IOCTL_OTHER\<close> is any other number. The user
  memory at \<open>arg\<close> comes as each command reads it: \<open>None\<close> where \<open>copy_from_user\<close>
  faults, and \<open>arg_writable\<close> for whether storing the result succeeds.
\<close>

datatype ioctl_cmd =
    USBTMC_IOCTL_CLEAR_OUT_HALT
  | USBTMC_IOCTL_CLEAR_IN_HALT
  | USBTMC_IOCTL_INDICATOR_PULSE
  | USBTMC_IOCTL_CLEAR
  | USBTMC_IOCTL_ABORT_BULK_OUT
  | USBTMC_IOCTL_ABORT_BULK_IN
  | USBTMC_IOCTL_CTRL_REQUEST
  | USBTMC_IOCTL_GET_TIMEOUT
  | USBTMC_IOCTL_SET_TIMEOUT
  | USBTMC_IOCTL_EOM_ENABLE
  | USBTMC_IOCTL_CONFIG_TERMCHAR
  | USBTMC488_IOCTL_GET_CAPS
  | USBTMC488_IOCTL_READ_STB
  | USBTMC488_IOCTL_REN_CONTROL
  | USBTMC488_IOCTL_GOTO_LOCAL
  | USBTMC488_IOCTL_LOCAL_LOCKOUT
  | USBTMC488_IOCTL_TRIGGER
  | IOCTL_OTHER

record user_arg =
  arg_u8 :: "u8 option"
  arg_u32 :: "u32 option"
  arg_termchar :: "(u8 \<times> u8) option"
  arg_request :: "usbtmc_ctrlrequest option"
  arg_writable :: bool

definition ret_none ::
  "(errno + unit) \<times> usbtmc_device_data \<Rightarrow> (errno + ioctl_out) \<times> usbtmc_device_data" where
  "ret_none rs = (case rs of (Inl e, s) \<Rightarrow> (Inl e, s) | (Inr _, s) \<Rightarrow> (Inr Out_none, s))"

definition ret_u8 ::
  "(errno + u8) \<times> usbtmc_device_data \<Rightarrow> (errno + ioctl_out) \<times> usbtmc_device_data" where
  "ret_u8 rs = (case rs of (Inl e, s) \<Rightarrow> (Inl e, s) | (Inr v, s) \<Rightarrow> (Inr (Out_u8 v), s))"

definition usbtmc_ioctl ::
  "nat \<Rightarrow> env \<Rightarrow> u8 \<Rightarrow> nat \<Rightarrow> ioctl_cmd \<Rightarrow> user_arg \<Rightarrow> usbtmc_device_data
     \<Rightarrow> ((errno + ioctl_out) \<times> usbtmc_device_data) option" where
  "usbtmc_ioctl fuel env CAPABILITY_SIMPLE fd cmd arg s =
     (if zombie s then Some (Inl ENODEV, s)
      else
        (case cmd of
           USBTMC_IOCTL_CLEAR_OUT_HALT \<Rightarrow> Some (ret_none (usbtmc_ioctl_clear_out_halt env s))
         | USBTMC_IOCTL_CLEAR_IN_HALT \<Rightarrow> Some (ret_none (usbtmc_ioctl_clear_in_halt env s))
         | USBTMC_IOCTL_INDICATOR_PULSE \<Rightarrow> Some (ret_none (usbtmc_ioctl_indicator_pulse env s))
         | USBTMC_IOCTL_CLEAR \<Rightarrow> map_option ret_none (usbtmc_ioctl_clear fuel env s)
         | USBTMC_IOCTL_ABORT_BULK_OUT \<Rightarrow> Some (ret_none (usbtmc_ioctl_abort_bulk_out env s))
         | USBTMC_IOCTL_ABORT_BULK_IN \<Rightarrow> map_option ret_none (usbtmc_ioctl_abort_bulk_in fuel env s)
         | USBTMC_IOCTL_CTRL_REQUEST \<Rightarrow> Some (usbtmc_ioctl_request env (arg_request arg) s)
         | USBTMC_IOCTL_GET_TIMEOUT \<Rightarrow> Some (usbtmc_ioctl_get_timeout (arg_writable arg) s)
         | USBTMC_IOCTL_SET_TIMEOUT \<Rightarrow> Some (ret_none (usbtmc_ioctl_set_timeout (arg_u32 arg) s))
         | USBTMC_IOCTL_EOM_ENABLE \<Rightarrow> Some (ret_none (usbtmc_ioctl_eom_enable (arg_u8 arg) s))
         | USBTMC_IOCTL_CONFIG_TERMCHAR \<Rightarrow>
             Some (ret_none (usbtmc_ioctl_config_termc (arg_termchar arg) s))
         | USBTMC488_IOCTL_GET_CAPS \<Rightarrow>
             Some (if arg_writable arg then (Inr (Out_u8 (usb488_caps s)), s) else (Inl EFAULT, s))
         | USBTMC488_IOCTL_READ_STB \<Rightarrow>
             Some (ret_u8 (usbtmc488_ioctl_read_stb env fd (arg_writable arg) s))
         | USBTMC488_IOCTL_REN_CONTROL \<Rightarrow>
             Some (ret_none (usbtmc488_ioctl_simple env CAPABILITY_SIMPLE (arg_u8 arg)
                               USBTMC488_REQUEST_REN_CONTROL s))
         | USBTMC488_IOCTL_GOTO_LOCAL \<Rightarrow>
             Some (ret_none (usbtmc488_ioctl_simple env CAPABILITY_SIMPLE (arg_u8 arg)
                               USBTMC488_REQUEST_GOTO_LOCAL s))
         | USBTMC488_IOCTL_LOCAL_LOCKOUT \<Rightarrow>
             Some (ret_none (usbtmc488_ioctl_simple env CAPABILITY_SIMPLE (arg_u8 arg)
                               USBTMC488_REQUEST_LOCAL_LOCKOUT s))
         | USBTMC488_IOCTL_TRIGGER \<Rightarrow> Some (ret_none (usbtmc488_ioctl_trigger env s))
         | IOCTL_OTHER \<Rightarrow> Some (Inl EBADRQC, s)))"

section \<open>Lifecycle: probe, open, release, disconnect\<close>

text \<open>
  The interface handed to \<open>usbtmc_probe\<close>, and what the host answers to the calls of
  probe that are not transfers: \<open>usb_alloc_urb\<close>, \<open>usb_submit_urb\<close> and
  \<open>usb_register_dev\<close> (\<open>None\<close> is 0).
\<close>

record usb_interface =
  bInterfaceNumber :: u8
  endpoint :: "usb_endpoint_descriptor list"

record probe_host =
  alloc_urb_ok :: bool
  submit_urb_rv :: "errno option"
  register_dev_rv :: "errno option"

text \<open>What \<open>kzalloc\<close> returns for the device record, with the two ghost logs empty.\<close>

definition kzalloc_data :: usbtmc_device_data where
  "kzalloc_data =
     \<lparr>file_list = Map.empty, cur_altsetting = [], bulk_in = 0, bulk_out = 0, bTag = 0,
      bTag_last_write = 0, bTag_last_read = 0, bNotify1 = 0, bNotify2 = 0, ifnum = 0,
      iin_bTag = 0, iin_data_valid = 0, iin_ep = 0, iin_ep_present = False, iin_interval = 0,
      iin_urb = False, iin_wMaxPacketSize = 0, usb488_caps = 0, timeout = 0, TermChar = 0,
      TermCharEnabled = False, auto_abort = False, eom_val = False, zombie = False,
      capabilities = \<lparr>interface_capabilities = 0, device_capabilities = 0,
                        usb488_interface_capabilities = 0, usb488_device_capabilities = 0\<rparr>,
      fasync = False, io_buffer_size = 0, registered = False, trace = [], allocs = 0, sigio = 0\<rparr>"

text \<open>The three \<open>for\<close> loops of probe that stop at the first endpoint of a kind.\<close>

definition find_endpoint :: "ep_kind \<Rightarrow> usb_endpoint_descriptor list \<Rightarrow> usb_endpoint_descriptor option" where
  "find_endpoint k eps = find (\<lambda>desc. kind desc = k) eps"

text \<open>
  \<open>usbtmc_probe\<close>, with the values of the module parameters \<open>io_buffer_size\<close> and
  \<open>usb_timeout\<close> at the time of the call. A failed probe frees the record.
\<close>

definition usbtmc_probe ::
  "env \<Rightarrow> probe_host \<Rightarrow> usb_interface \<Rightarrow> nat \<Rightarrow> u32 \<Rightarrow> errno + usbtmc_device_data" where
  "usbtmc_probe env host intf param_io_buffer_size param_usb_timeout =
     (let iosz = (if param_io_buffer_size < 512 then 512 else param_io_buffer_size);
          iosz = iosz - iosz mod 4;
          usb_timeout = (if unat param_usb_timeout < USBTMC_MIN_TIMEOUT
                         then of_nat USBTMC_MIN_TIMEOUT else param_usb_timeout)
      in
      case kmalloc env 0 kzalloc_data of
        (False, _) \<Rightarrow> Inl ENOMEM
      | (True, d0) \<Rightarrow>
          let d1 = d0\<lparr>io_buffer_size := iosz, cur_altsetting := endpoint intf, zombie := False,
                      bTag := 1, TermCharEnabled := False, TermChar := 0x0A,
                      timeout := usb_timeout, eom_val := True, iin_bTag := 2,
                      ifnum := ucast (bInterfaceNumber intf)\<rparr>;
              d2 = (case find_endpoint BULK_IN (endpoint intf) of
                      None \<Rightarrow> d1 | Some ep \<Rightarrow> d1\<lparr>bulk_in := bEndpointAddress ep\<rparr>);
              d3 = (case find_endpoint BULK_OUT (endpoint intf) of
                      None \<Rightarrow> d2 | Some ep \<Rightarrow> d2\<lparr>bulk_out := bEndpointAddress ep\<rparr>);
              d4 = (case find_endpoint INT_IN (endpoint intf) of
                      None \<Rightarrow> d3
                    | Some ep \<Rightarrow> d3\<lparr>iin_ep_present := True, iin_ep := bEndpointAddress ep,
                                     iin_wMaxPacketSize := maxp ep, iin_interval := bInterval ep\<rparr>);
              d5 = snd (get_capabilities env d4)
          in
          if iin_ep_present d5 then
            if \<not> alloc_urb_ok host then Inl ENOMEM
            else
              (case kmalloc env (iin_wMaxPacketSize d5) (d5\<lparr>iin_urb := True\<rparr>) of
                 (False, _) \<Rightarrow> Inl ENOMEM
               | (True, d6) \<Rightarrow>
                   (case submit_urb_rv host of
                      Some e \<Rightarrow> Inl e
                    | None \<Rightarrow>
                        (case register_dev_rv host of
                           Some e \<Rightarrow> Inl e
                         | None \<Rightarrow> Inr (d6\<lparr>registered := True\<rparr>))))
          else
            (case register_dev_rv host of
               Some e \<Rightarrow> Inl e
             | None \<Rightarrow> Inr (d5\<lparr>registered := True\<rparr>)))"

text \<open>
  \<open>usbtmc_open\<close>: \<open>fd\<close> is the address \<open>kzalloc\<close> gives the new handle, one that no
  open handle has.
\<close>

definition usbtmc_open ::
  "env \<Rightarrow> nat \<Rightarrow> usbtmc_device_data \<Rightarrow> (errno + unit) \<times> usbtmc_device_data" where
  "usbtmc_open env fd s =
     (if \<not> registered s then (Inl ENODEV, s)
      else
        (case kmalloc env 0 s of
           (False, s1) \<Rightarrow> (Inl ENOMEM, s1)
         | (True, s1) \<Rightarrow>
             (Inr (),
              s1\<lparr>file_list := (file_list s1)(fd \<mapsto>
                    \<lparr>srq_byte = 0, srq_asserted = 0, f_TermChar = TermChar s1,
                     f_TermCharEnabled = TermCharEnabled s1, f_auto_abort = auto_abort s1\<rparr>)\<rparr>)))"

definition usbtmc_release :: "nat \<Rightarrow> usbtmc_device_data \<Rightarrow> usbtmc_device_data" where
  "usbtmc_release fd s = s\<lparr>file_list := (file_list s)(fd := None)\<rparr>"

definition usbtmc_free_int :: "usbtmc_device_data \<Rightarrow> usbtmc_device_data" where
  "usbtmc_free_int s = (if \<not> iin_ep_present s \<or> \<not> iin_urb s then s else s\<lparr>iin_urb := False\<rparr>)"

definition usbtmc_disconnect :: "usbtmc_device_data \<Rightarrow> usbtmc_device_data" where
  "usbtmc_disconnect s = usbtmc_free_int (s\<lparr>registered := False, zombie := True\<rparr>)"

text \<open>
  Writes that reach the record from outside the file operations: the sysfs attributes
  \<open>TermChar\<close>, \<open>TermCharEnabled\<close> and \<open>auto_abort\<close>, the writable module parameter
  \<open>io_buffer_size\<close>, and \<open>usbtmc_fasync\<close>.
\<close>

datatype attr_write =
    Store_TermChar u8
  | Store_TermCharEnabled bool
  | Store_auto_abort bool
  | Store_io_buffer_size nat
  | Set_fasync bool

fun attr_store :: "attr_write \<Rightarrow> usbtmc_device_data \<Rightarrow> usbtmc_device_data" where
  "attr_store (Store_TermChar c) s = s\<lparr>TermChar := c\<rparr>"
| "attr_store (Store_TermCharEnabled b) s = s\<lparr>TermCharEnabled := b\<rparr>"
| "attr_store (Store_auto_abort b) s = s\<lparr>auto_abort := b\<rparr>"
| "attr_store (Store_io_buffer_size n) s = s\<lparr>io_buffer_size := n\<rparr>"
| "attr_store (Set_fasync b) s = s\<lparr>fasync := b\<rparr>"

section \<open>Runs of the driver\<close>

text \<open>
  One step of a device: a file operation that returns, an interrupt completion, a write
  from outside, or the disconnect. \<open>steps\<close> is any number of them.
\<close>

inductive step :: "env \<Rightarrow> usbtmc_device_data \<Rightarrow> usbtmc_device_data \<Rightarrow> bool" for env where
  step_read: "usbtmc_read fuel env fd ulen count s = Some (r, s') \<Longrightarrow> step env s s'"
| step_write: "usbtmc_write fuel env ubuf count s = Some (rw, s') \<Longrightarrow> step env s s'"
| step_ioctl: "usbtmc_ioctl fuel env CAPABILITY_SIMPLE fd cmd arg s = Some (ri, s') \<Longrightarrow> step env s s'"
| step_open: "file_list s fd = None \<Longrightarrow> usbtmc_open env fd s = (ro, s') \<Longrightarrow> step env s s'"
| step_release: "step env s (usbtmc_release fd s)"
| step_interrupt: "usbtmc_interrupt u s = (b, s') \<Longrightarrow> step env s s'"
| step_attr: "step env s (attr_store w s)"
| step_disconnect: "step env s (usbtmc_disconnect s)"

inductive steps :: "env \<Rightarrow> usbtmc_device_data \<Rightarrow> usbtmc_device_data \<Rightarrow> bool" for env where
  steps_refl: "steps env s s"
| steps_step: "steps env s s' \<Longrightarrow> step env s' s'' \<Longrightarrow> steps env s s''"

text \<open>The states a device can be in: those a successful probe leaves, and their successors.\<close>

inductive reachable :: "env \<Rightarrow> usbtmc_device_data \<Rightarrow> bool" for env where
  reachable_probe:
    "usbtmc_probe env host intf param_io_buffer_size param_usb_timeout = Inr s \<Longrightarrow> reachable env s"
| reachable_step: "reachable env s \<Longrightarrow> step env s s' \<Longrightarrow> reachable env s'"

section \<open>Views of a device state\<close>

text \<open>
  The statements below speak about the log of USB calls through three views:
  \<open>bulk_outs\<close>, the bulk-out transfers of the log, most recent first; \<open>bulk_in_count\<close>, the number of
  bulk-in transfers; and \<open>core\<close>, the record with the two logs of calls and allocations
  blanked, which is what stays the same when an operation only talks to the device.
\<close>

fun is_bulk_out :: "usb_call \<Rightarrow> bool" where
  "is_bulk_out (BulkOut ep bytes) = True"
| "is_bulk_out c = False"

fun is_bulk_in :: "usb_call \<Rightarrow> bool" where
  "is_bulk_in (BulkIn ep len) = True"
| "is_bulk_in c = False"

definition core :: "usbtmc_device_data \<Rightarrow> usbtmc_device_data" where
  "core s = s\<lparr>trace := [], allocs := 0\<rparr>"

definition bulk_outs :: "usbtmc_device_data \<Rightarrow> usb_call list" where
  "bulk_outs s = filter is_bulk_out (trace s)"

definition bulk_in_count :: "usbtmc_device_data \<Rightarrow> nat" where
  "bulk_in_count s = length (filter is_bulk_in (trace s))"


text \<open>
  \<open>quiet s s'\<close>: from \<open>s\<close> to \<open>s'\<close> nothing but control transfers, halt clears and
  allocations happened. \<open>ctrl_only\<close> also allows bulk-in transfers.
\<close>

definition quiet :: "usbtmc_device_data \<Rightarrow> usbtmc_device_data \<Rightarrow> bool" where
  "quiet s s' \<longleftrightarrow> core s' = core s \<and> bulk_outs s' = bulk_outs s \<and> bulk_in_count s' = bulk_in_count s"

definition ctrl_only :: "usbtmc_device_data \<Rightarrow> usbtmc_device_data \<Rightarrow> bool" where
  "ctrl_only s s' \<longleftrightarrow> core s' = core s \<and> bulk_outs s' = bulk_outs s \<and> bulk_in_count s \<le> bulk_in_count s'"


text \<open>
  A bulk-out transfer is well tagged when, if it reaches offset 2, its byte at offset 1
  is not zero and its byte at offset 2 is the complement of it.
\<close>

fun frame_ok :: "usb_call \<Rightarrow> bool" where
  "frame_ok (BulkOut ep bytes) = (3 \<le> length bytes \<longrightarrow> bytes ! 1 \<noteq> 0 \<and> bytes ! 2 = NOT (bytes ! 1))"
| "frame_ok c = True"


text \<open>
  A bulk-out transfer is a whole frame when it has the 12 bytes of a header at least, a
  non-zero byte at offset 1 and the complement of that byte at offset 2. It is a resend
  of the transfer before it when it goes to the same endpoint and hands over, again, one
  or more of the leading bytes of that transfer: this is what the \<open>do ... while\<close> loop
  of \<open>usbtmc_write\<close> does after a partial transfer. A log of bulk-out transfers (most
  recent first) is framed when every transfer in it is a whole frame or a resend of the
  transfer before it, and the oldest one is a whole frame.
\<close>

fun whole :: "usb_call \<Rightarrow> bool" where
  "whole (BulkOut ep bytes) =
     (12 \<le> length bytes \<and> bytes ! 1 \<noteq> 0 \<and> bytes ! 2 = NOT (bytes ! 1))"
| "whole c = False"

fun resend_of :: "usb_call \<Rightarrow> usb_call \<Rightarrow> bool" where
  "resend_of (BulkOut ep bytes) (BulkOut ep0 bytes0) =
     (ep = ep0 \<and> bytes \<noteq> [] \<and> length bytes \<le> length bytes0 \<and> bytes = take (length bytes) bytes0)"
| "resend_of c d = False"

fun framed :: "usb_call list \<Rightarrow> bool" where
  "framed [] = True"
| "framed [c] = whole c"
| "framed (c # d # cs) = ((whole c \<or> resend_of c d) \<and> framed (d # cs))"


text \<open>The ranges of the two tag counters, with the framing of all that was sent.\<close>

definition iin_ok :: "usbtmc_device_data \<Rightarrow> bool" where
  "iin_ok s \<longleftrightarrow> 2 \<le> iin_bTag s \<and> iin_bTag s \<le> 127"

definition tag_ok :: "usbtmc_device_data \<Rightarrow> bool" where
  "tag_ok s \<longleftrightarrow> bTag s \<noteq> 0 \<and> framed (bulk_outs s)"


text \<open>What every operation preserves: the zombie flag once set, and the two tag invariants.\<close>

definition keeps :: "usbtmc_device_data \<Rightarrow> usbtmc_device_data \<Rightarrow> bool" where
  "keeps s s' \<longleftrightarrow> (zombie s \<longrightarrow> zombie s') \<and> (iin_ok s \<longrightarrow> iin_ok s') \<and> (tag_ok s \<longrightarrow> tag_ok s')"


text \<open>
  \<open>sends_prefix ep buffer c\<close>: the call \<open>c\<close> hands the first bytes of \<open>buffer\<close> to the
  bulk-out pipe. \<open>last_out_tag_ok s\<close>: the most recent bulk-out transfer carries
  \<open>bTag_last_write\<close> in its tag byte (if it is long enough to have one).
\<close>

definition sends_prefix :: "nat \<Rightarrow> u8 list \<Rightarrow> usb_call \<Rightarrow> bool" where
  "sends_prefix ep buffer c \<longleftrightarrow> (\<exists>k. c = BulkOut ep (take k buffer))"

definition last_out_tag_ok :: "usbtmc_device_data \<Rightarrow> bool" where
  "last_out_tag_ok s =
     (case bulk_outs s of
        BulkOut ep b # t \<Rightarrow> (2 \<le> length b \<longrightarrow> b ! 1 = bTag_last_write s)
      | _ \<Rightarrow> False)"


section \<open>Example devices and environments\<close>

text \<open>
  \<open>scripted rs\<close> is the environment in which every allocation succeeds, nothing happens
  during a sleep, and the \<open>k\<close>-th call into the USB core is answered by the \<open>k\<close>-th
  entry of \<open>rs\<close> (a timeout when the script is used up). \<open>buf_of xs\<close> is a transfer
  buffer that holds \<open>xs\<close> followed by zeroes.
\<close>

definition buf_of :: "u8 list \<Rightarrow> nat \<Rightarrow> u8" where
  "buf_of xs i = (if i < length xs then xs ! i else 0)"

definition scripted :: "(errno + nat \<times> (nat \<Rightarrow> u8)) list \<Rightarrow> env" where
  "scripted rs =
     \<lparr>kmalloc_ok = (\<lambda>i n. True),
      usb_reply = (\<lambda>t. if 0 < length t \<and> length t \<le> length rs then rs ! (length t - 1)
                       else Inl ETIMEDOUT),
      wait_reply = (\<lambda>t. ([], False))\<rparr>"

definition caps_reply :: "errno + nat \<times> (nat \<Rightarrow> u8)" where
  "caps_reply = Inr (24, buf_of [1])"


text \<open>
  An interface with one bulk-in and one bulk-out endpoint and no interrupt endpoint; the
  device record that probe leaves for it when GET_CAPABILITIES reports no capability;
  the same device with one open handle, at address 1.
\<close>

definition example_intf :: usb_interface where
  "example_intf =
     \<lparr>bInterfaceNumber = 0,
      endpoint = [\<lparr>bEndpointAddress = 0x81, maxp = 512, bInterval = 0, kind = BULK_IN\<rparr>,
                  \<lparr>bEndpointAddress = 0x02, maxp = 512, bInterval = 0, kind = BULK_OUT\<rparr>]\<rparr>"

definition example_host :: probe_host where
  "example_host = \<lparr>alloc_urb_ok = True, submit_urb_rv = None, register_dev_rv = None\<rparr>"

definition probed_dev :: usbtmc_device_data where
  "probed_dev =
     kzalloc_data\<lparr>cur_altsetting := endpoint example_intf, bulk_in := 0x81, bulk_out := 0x02,
                   bTag := 1, iin_bTag := 2, timeout := 5000, TermChar := 0x0A, eom_val := True,
                   io_buffer_size := 2048, registered := True,
                   trace := [ControlMsg USBTMC_REQUEST_GET_CAPABILITIES USB_RECIP_INTERFACE 0 0 0x18],
                   allocs := 2\<rparr>"

definition example_handle :: usbtmc_file_data where
  "example_handle =
     \<lparr>srq_byte = 0, srq_asserted = 0, f_TermChar = 0x0A, f_TermCharEnabled = False,
      f_auto_abort = False\<rparr>"

definition opened_dev :: usbtmc_device_data where
  "opened_dev = probed_dev\<lparr>file_list := [1 \<mapsto> example_handle], allocs := 3\<rparr>"


text \<open>
  Status byte: a handle with a pending service request, an environment whose second
  answer is a READ_STATUS_BYTE reply with status byte \<open>0x42\<close>, the device after that
  request, an SRQ notification, and a device with two open handles.
\<close>

definition srq_dev :: usbtmc_device_data where
  "srq_dev = opened_dev\<lparr>file_list := [1 \<mapsto> example_handle\<lparr>srq_byte := 0x42, srq_asserted := 1\<rparr>]\<rparr>"

definition stb_env :: env where
  "stb_env = scripted [caps_reply, Inr (3, buf_of [1, 0, 0x42])]"

definition stb_dev :: usbtmc_device_data where
  "stb_dev =
     opened_dev\<lparr>trace := ControlMsg USBTMC488_REQUEST_READ_STATUS_BYTE USB_RECIP_INTERFACE 2 0 3 #
                            trace opened_dev,
                 allocs := 4, iin_bTag := 3\<rparr>"

definition srq_urb :: urb where
  "srq_urb = \<lparr>urb_status = None, iin_buffer0 = 0x81, iin_buffer1 = 0x42\<rparr>"

definition two_handles_dev :: usbtmc_device_data where
  "two_handles_dev = opened_dev\<lparr>file_list := [1 \<mapsto> example_handle, 2 \<mapsto> example_handle]\<rparr>"


text \<open>A user argument that faults; no memory at all.\<close>

definition no_writable_arg :: user_arg where
  "no_writable_arg =
     \<lparr>arg_u8 = None, arg_u32 = None, arg_termchar = None, arg_request = None, arg_writable = False\<rparr>"

definition nomem_env :: env where
  "nomem_env = (scripted [caps_reply])\<lparr>kmalloc_ok := (\<lambda>i n. False)\<rparr>"


text \<open>
  Reads of 64 bytes: the request frame, a reply of ten bytes with EOM, the same reply with
  MsgID 9, and the device after the read.
\<close>

definition request_frame :: "u8 list" where
  "request_frame = [2, 1, 0xFE, 0, 64, 0, 0, 0, 0, 0x0A, 0, 0]"

definition reply_ok :: "u8 list" where
  "reply_ok = [2, 1, 0xFE, 0, 10, 0, 0, 0, 1, 0, 0, 0, 1, 2, 3, 4, 5, 6, 7, 8, 9, 10, 0, 0]"

definition reply_bad_msgid :: "u8 list" where
  "reply_bad_msgid = [9, 1, 0xFE, 0, 10, 0, 0, 0, 1, 0, 0, 0, 1, 2, 3, 4, 5, 6, 7, 8, 9, 10, 0, 0]"

definition read_env :: env where
  "read_env = scripted [caps_reply, Inr (12, buf_of []), Inr (24, buf_of reply_ok)]"

definition bad_msgid_env :: env where
  "bad_msgid_env = scripted [caps_reply, Inr (12, buf_of []), Inr (24, buf_of reply_bad_msgid),
                             Inr (2, buf_of [0x81])]"

definition read_done_dev :: usbtmc_device_data where
  "read_done_dev =
     opened_dev\<lparr>bTag := 2, bTag_last_write := 1, bTag_last_read := 2,
                 trace := BulkIn 0x81 2048 # BulkOut 2 request_frame # trace opened_dev,
                 allocs := 5\<rparr>"


text \<open>
  Writes of the four bytes \<open>ABCD\<close>: the frame, a pipe that takes all 16 bytes at once, and
  a pipe that takes 4 bytes of the first transfer and 12 of the second.
\<close>

definition out_frame :: "u8 list" where
  "out_frame = [1, 1, 0xFE, 0, 4, 0, 0, 0, 1, 0, 0, 0, 0x41, 0x42, 0x43, 0x44]"

definition write_env :: env where
  "write_env = scripted [caps_reply, Inr (16, buf_of [])]"

definition write_done_dev :: usbtmc_device_data where
  "write_done_dev =
     opened_dev\<lparr>bTag := 2, bTag_last_write := 1,
                 trace := BulkOut 2 out_frame # trace opened_dev, allocs := 4\<rparr>"

definition partial_env :: env where
  "partial_env = scripted [caps_reply, Inr (4, buf_of []), Inr (12, buf_of [])]"

definition partial_dev :: usbtmc_device_data where
  "partial_dev =
     opened_dev\<lparr>bTag := 2, bTag_last_write := 1,
                 trace := BulkOut 2 (take 12 out_frame) # BulkOut 2 out_frame # trace opened_dev,
                 allocs := 4\<rparr>"


text \<open>
  One run of a device after probe and open: a TRIGGER (tag 1), a read of 64 bytes (tag 2)
  answered with ten bytes, and a write of \<open>ABCD\<close> (tag 3) on a pipe that takes 4 bytes of
  the first transfer and 12 of the second.
\<close>

definition run_request :: "u8 list" where
  "run_request = [2, 2, 0xFD, 0, 64, 0, 0, 0, 0, 0x0A, 0, 0]"

definition run_reply :: "u8 list" where
  "run_reply = [2, 2, 0xFD, 0, 10, 0, 0, 0, 1, 0, 0, 0, 1, 2, 3, 4, 5, 6, 7, 8, 9, 10, 0, 0]"

definition run_frame :: "u8 list" where
  "run_frame = [1, 3, 0xFC, 0, 4, 0, 0, 0, 1, 0, 0, 0, 0x41, 0x42, 0x43, 0x44]"

definition run_env :: env where
  "run_env = scripted [caps_reply, Inr (12, buf_of []), Inr (12, buf_of []), Inr (24, buf_of run_reply),
                       Inr (4, buf_of []), Inr (12, buf_of [])]"

definition run_triggered :: usbtmc_device_data where
  "run_triggered =
     opened_dev\<lparr>bTag := 2, bTag_last_write := 1,
                 trace := BulkOut 2 [128, 1, 0xFE, 0, 0, 0, 0, 0, 0, 0, 0, 0] # trace opened_dev,
                 allocs := 4\<rparr>"

definition run_read :: usbtmc_device_data where
  "run_read =
     run_triggered\<lparr>bTag := 3, bTag_last_write := 2, bTag_last_read := 3,
                    trace := BulkIn 0x81 2048 # BulkOut 2 run_request # trace run_triggered,
                    allocs := 6\<rparr>"

definition run_written :: usbtmc_device_data where
  "run_written =
     run_read\<lparr>bTag := 4, bTag_last_write := 3,
               trace := BulkOut 2 (take 12 run_frame) # BulkOut 2 run_frame # trace run_read,
               allocs := 7\<rparr>"


text \<open>
  Reads with \<open>auto_abort\<close> set: the request send fails with \<open>EPIPE\<close>; or the request is
  out (\<open>sent_dev\<close>) and the bulk-in transfer times out. The device answers both INITIATE
  requests with status FAILED.
\<close>

definition abort_dev :: usbtmc_device_data where
  "abort_dev = opened_dev\<lparr>auto_abort := True\<rparr>"

definition send_fails_env :: env where
  "send_fails_env = scripted [caps_reply, Inl EPIPE, Inr (2, buf_of [0x81])]"

definition send_failed_dev :: usbtmc_device_data where
  "send_failed_dev =
     abort_dev\<lparr>bTag := 2, bTag_last_write := 1,
                trace := BulkOut 2 request_frame # trace abort_dev, allocs := 5\<rparr>"

definition abort_out_dev :: usbtmc_device_data where
  "abort_out_dev =
     send_failed_dev\<lparr>trace := ControlMsg USBTMC_REQUEST_INITIATE_ABORT_BULK_OUT USB_RECIP_ENDPOINT 1 2 2 #
                                 trace send_failed_dev,
                      allocs := 6\<rparr>"

definition sent_dev :: usbtmc_device_data where
  "sent_dev =
     abort_dev\<lparr>bTag := 2, bTag_last_write := 1,
                trace := BulkOut 2 request_frame # trace abort_dev, allocs := 5\<rparr>"

definition bulk_in_fails_env :: env where
  "bulk_in_fails_env = scripted [caps_reply, Inr (12, buf_of []), Inl ETIMEDOUT, Inr (2, buf_of [0x81])]"

definition bulk_in_done_dev :: usbtmc_device_data where
  "bulk_in_done_dev = sent_dev\<lparr>trace := BulkIn 0x81 2048 # trace sent_dev\<rparr>"

definition abort_in_dev :: usbtmc_device_data where
  "abort_in_dev =
     sent_dev\<lparr>bTag_last_read := 2,
               trace := ControlMsg USBTMC_REQUEST_INITIATE_ABORT_BULK_IN USB_RECIP_ENDPOINT 2 0x81 2 #
                          BulkIn 0x81 2048 # trace sent_dev,
               allocs := 6\<rparr>"


section \<open>Effects of the operations\<close>

lemmas prim_defs = kmalloc_def usb_submit_def usb_control_msg_def usb_bulk_msg_snd_def
  usb_bulk_msg_rcv_def usb_clear_halt_def

declare drain_bulk_in.simps [simp del]
declare abort_bulk_out_check_status.simps [simp del]

subsection \<open>Operations that only talk on the control pipe\<close>

lemma core_fields:
  assumes "core s' = core s"
  shows "bTag s' = bTag s" "bTag_last_write s' = bTag_last_write s"
    "bTag_last_read s' = bTag_last_read s" "iin_bTag s' = iin_bTag s" "zombie s' = zombie s"
    "auto_abort s' = auto_abort s" "file_list s' = file_list s"
    "iin_data_valid s' = iin_data_valid s" "usb488_caps s' = usb488_caps s"
    "io_buffer_size s' = io_buffer_size s" "bulk_in s' = bulk_in s" "bulk_out s' = bulk_out s"
    "eom_val s' = eom_val s"
proof -
  have f: "g (core s') = g (core s)" for g :: "usbtmc_device_data \<Rightarrow> 'b"
    using assms by simp
  show "bTag s' = bTag s" using f[of bTag] by (simp add: core_def)
  show "bTag_last_write s' = bTag_last_write s" using f[of bTag_last_write] by (simp add: core_def)
  show "bTag_last_read s' = bTag_last_read s" using f[of bTag_last_read] by (simp add: core_def)
  show "iin_bTag s' = iin_bTag s" using f[of iin_bTag] by (simp add: core_def)
  show "zombie s' = zombie s" using f[of zombie] by (simp add: core_def)
  show "auto_abort s' = auto_abort s" using f[of auto_abort] by (simp add: core_def)
  show "file_list s' = file_list s" using f[of file_list] by (simp add: core_def)
  show "iin_data_valid s' = iin_data_valid s" using f[of iin_data_valid] by (simp add: core_def)
  show "usb488_caps s' = usb488_caps s" using f[of usb488_caps] by (simp add: core_def)
  show "io_buffer_size s' = io_buffer_size s" using f[of io_buffer_size] by (simp add: core_def)
  show "bulk_in s' = bulk_in s" using f[of bulk_in] by (simp add: core_def)
  show "bulk_out s' = bulk_out s" using f[of bulk_out] by (simp add: core_def)
  show "eom_val s' = eom_val s" using f[of eom_val] by (simp add: core_def)
qed

lemma quiet_refl [simp]: "quiet s s"
  by (simp add: quiet_def)

lemma quiet_trans: "quiet s s' \<Longrightarrow> quiet s' s'' \<Longrightarrow> quiet s s''"
  unfolding quiet_def by simp

lemma quiet_ctrl_only: "quiet s s' \<Longrightarrow> ctrl_only s s'"
  by (simp add: quiet_def ctrl_only_def)

lemma ctrl_only_refl [simp]: "ctrl_only s s"
  by (simp add: ctrl_only_def)

lemma ctrl_only_trans: "ctrl_only s s' \<Longrightarrow> ctrl_only s' s'' \<Longrightarrow> ctrl_only s s''"
  unfolding ctrl_only_def by simp

lemma quiet_kmalloc: "kmalloc env n s = (b, s') \<Longrightarrow> quiet s s'"
  by (auto simp: quiet_def kmalloc_def core_def bulk_outs_def bulk_in_count_def)

lemma quiet_control: "usb_control_msg env rq rc v i n s = (r, s') \<Longrightarrow> quiet s s'"
  by (auto simp: quiet_def prim_defs core_def bulk_outs_def bulk_in_count_def)

lemma quiet_halt: "usb_clear_halt env ep s = (r, s') \<Longrightarrow> quiet s s'"
  by (auto simp: quiet_def prim_defs core_def bulk_outs_def bulk_in_count_def split: sum.splits prod.splits)

lemma rcv_effect:
  "usb_bulk_msg_rcv env ep n s = (r, s') \<Longrightarrow>
     core s' = core s \<and> bulk_outs s' = bulk_outs s \<and> bulk_in_count s' = Suc (bulk_in_count s) \<and> trace s' = BulkIn ep n # trace s"
  by (auto simp: prim_defs core_def bulk_outs_def bulk_in_count_def split: sum.splits prod.splits)

lemma ctrl_only_rcv: "usb_bulk_msg_rcv env ep n s = (r, s') \<Longrightarrow> ctrl_only s s'"
  by (drule rcv_effect) (simp add: ctrl_only_def)

lemma ctrl_only_drain: "drain_bulk_in env m n s = (r, n', s') \<Longrightarrow> ctrl_only s s'"
proof (induction env m n s arbitrary: r n' s' rule: drain_bulk_in.induct)
  case (1 env max_size n s)
  obtain rr s1 where rcv: "usb_bulk_msg_rcv env (bulk_in s) (io_buffer_size s) s = (rr, s1)"
    by (cases "usb_bulk_msg_rcv env (bulk_in s) (io_buffer_size s) s")
  have a: "ctrl_only s s1" using rcv by (rule ctrl_only_rcv)
  show ?case
  proof (cases rr)
    case (Inl e)
    with 1(2) rcv a show ?thesis by (simp add: drain_bulk_in.simps[of env max_size n s])
  next
    case (Inr p)
    obtain actual buffer where p: "p = (actual, buffer)" by (cases p)
    show ?thesis
    proof (cases "actual = max_size \<and> Suc n < USBTMC_MAX_READS_TO_CLEAR_BULK_IN")
      case True
      with 1(2) rcv Inr p have "drain_bulk_in env max_size (Suc n) s1 = (r, n', s')"
        by (simp add: drain_bulk_in.simps[of env max_size n s])
      with 1(1)[OF rcv[symmetric] Inr p[symmetric] True] have "ctrl_only s1 s'" by simp
      with a show ?thesis by (rule ctrl_only_trans)
    next
      case False
      with 1(2) rcv Inr p a show ?thesis
        by (auto simp add: drain_bulk_in.simps[of env max_size n s])
    qed
  qed
qed

lemma quiet_abort_out_check:
  "abort_bulk_out_check_status env n s = (r, s') \<Longrightarrow> quiet s s'"
proof (induction env n s arbitrary: r s' rule: abort_bulk_out_check_status.induct)
  case (1 env n s)
  obtain rr s1 where c: "usb_control_msg env USBTMC_REQUEST_CHECK_ABORT_BULK_OUT_STATUS
       USB_RECIP_ENDPOINT 0 (of_nat (bulk_out s)) 8 s = (rr, s1)"
    by (cases "usb_control_msg env USBTMC_REQUEST_CHECK_ABORT_BULK_OUT_STATUS
       USB_RECIP_ENDPOINT 0 (of_nat (bulk_out s)) 8 s")
  have a: "quiet s s1" using c by (rule quiet_control)
  show ?case
  proof (cases rr)
    case (Inl e)
    with 1(2) c a show ?thesis by (simp add: abort_bulk_out_check_status.simps[of env n s])
  next
    case (Inr p)
    obtain rv buffer where p: "p = (rv, buffer)" by (cases p)
    consider (ok) "buffer 0 = USBTMC_STATUS_SUCCESS"
      | (again) "buffer 0 \<noteq> USBTMC_STATUS_SUCCESS"
          "buffer 0 = USBTMC_STATUS_PENDING \<and> Suc n < USBTMC_MAX_READS_TO_CLEAR_BULK_IN"
      | (fail) "buffer 0 \<noteq> USBTMC_STATUS_SUCCESS"
          "\<not> (buffer 0 = USBTMC_STATUS_PENDING \<and> Suc n < USBTMC_MAX_READS_TO_CLEAR_BULK_IN)"
      by blast
    then show ?thesis
    proof cases
      case ok
      with 1(2) c Inr p have "usb_clear_halt env (bulk_out s1) s1 = (r, s')"
        by (simp add: abort_bulk_out_check_status.simps[of env n s])
      then have "quiet s1 s'" by (rule quiet_halt)
      with a show ?thesis by (rule quiet_trans)
    next
      case again
      with 1(2) c Inr p have "abort_bulk_out_check_status env (Suc n) s1 = (r, s')"
        by (simp add: abort_bulk_out_check_status.simps[of env n s])
      with 1(1)[OF c[symmetric] Inr p[symmetric] again] have "quiet s1 s'" by simp
      with a show ?thesis by (rule quiet_trans)
    next
      case fail
      with 1(2) c Inr p a show ?thesis
        by (auto simp add: abort_bulk_out_check_status.simps[of env n s])
    qed
  qed
qed

lemma quiet_abort_out: "usbtmc_ioctl_abort_bulk_out env s = (r, s') \<Longrightarrow> quiet s s'"
proof -
  assume a: "usbtmc_ioctl_abort_bulk_out env s = (r, s')"
  obtain b s1 where k: "kmalloc env 8 s = (b, s1)" by (cases "kmalloc env 8 s")
  obtain rr s2 where c: "usb_control_msg env USBTMC_REQUEST_INITIATE_ABORT_BULK_OUT USB_RECIP_ENDPOINT
                  (ucast (bTag_last_write s1)) (of_nat (bulk_out s1)) 2 s1 = (rr, s2)"
    by (cases "usb_control_msg env USBTMC_REQUEST_INITIATE_ABORT_BULK_OUT USB_RECIP_ENDPOINT
                  (ucast (bTag_last_write s1)) (of_nat (bulk_out s1)) 2 s1")
  obtain r3 s3 where d: "abort_bulk_out_check_status env 0 s2 = (r3, s3)"
    by (cases "abort_bulk_out_check_status env 0 s2")
  note f = quiet_kmalloc[OF k] quiet_control[OF c] quiet_abort_out_check[OF d]
  from a k c d f show ?thesis
    by (auto simp: usbtmc_ioctl_abort_bulk_out_def quiet_def split: bool.splits sum.splits if_splits)
qed

lemma ctrl_only_abort_in_status:
  "abort_bulk_in_status fuel env m n a s = Some (r, s') \<Longrightarrow> ctrl_only s s'"
proof (induction fuel arbitrary: n a s)
  case 0
  then show ?case by simp
next
  case (Suc fuel)
  obtain rr s1 where c: "usb_control_msg env USBTMC_REQUEST_CHECK_ABORT_BULK_IN_STATUS USB_RECIP_ENDPOINT
             0 (of_nat (bulk_in s)) 8 s = (rr, s1)"
    by (cases "usb_control_msg env USBTMC_REQUEST_CHECK_ABORT_BULK_IN_STATUS USB_RECIP_ENDPOINT
             0 (of_nat (bulk_in s)) 8 s")
  obtain rd nd sd where d: "drain_bulk_in env m n s1 = (rd, nd, sd)"
    by (metis prod_cases3)
  note f = quiet_ctrl_only[OF quiet_control[OF c]] ctrl_only_drain[OF d]
  from Suc.prems c d f show ?case
    by (auto simp: ctrl_only_def split: sum.splits if_splits dest!: Suc.IH)
qed

lemma ctrl_only_abort_in:
  "usbtmc_ioctl_abort_bulk_in fuel env s = Some (r, s') \<Longrightarrow> ctrl_only s s'"
proof -
  assume a: "usbtmc_ioctl_abort_bulk_in fuel env s = Some (r, s')"
  obtain b s1 where k: "kmalloc env (io_buffer_size s) s = (b, s1)"
    by (cases "kmalloc env (io_buffer_size s) s")
  obtain rr s2 where c: "usb_control_msg env USBTMC_REQUEST_INITIATE_ABORT_BULK_IN USB_RECIP_ENDPOINT
                  (ucast (bTag_last_read s1)) (of_nat (bulk_in s1)) 2 s1 = (rr, s2)"
    by (cases "usb_control_msg env USBTMC_REQUEST_INITIATE_ABORT_BULK_IN USB_RECIP_ENDPOINT
                  (ucast (bTag_last_read s1)) (of_nat (bulk_in s1)) 2 s1")
  obtain rd nd sd where d:
    "drain_bulk_in env (find_max_size (cur_altsetting s2) (bulk_in s2)) 0 s2 = (rd, nd, sd)"
    by (metis prod_cases3)
  note f = quiet_ctrl_only[OF quiet_kmalloc[OF k]] quiet_ctrl_only[OF quiet_control[OF c]]
    ctrl_only_drain[OF d]
  from a k c d f show ?thesis
    by (auto simp: usbtmc_ioctl_abort_bulk_in_def ctrl_only_def Let_def
        split: bool.splits sum.splits if_splits dest!: ctrl_only_abort_in_status)
qed

lemma ctrl_only_clear_check:
  "clear_check_status fuel env m n a s = Some (r, s') \<Longrightarrow> ctrl_only s s'"
proof (induction fuel arbitrary: n a s)
  case 0
  then show ?case by simp
next
  case (Suc fuel)
  obtain rr s1 where c: "usb_control_msg env USBTMC_REQUEST_CHECK_CLEAR_STATUS USB_RECIP_INTERFACE
             0 0 2 s = (rr, s1)"
    by (cases "usb_control_msg env USBTMC_REQUEST_CHECK_CLEAR_STATUS USB_RECIP_INTERFACE 0 0 2 s")
  obtain rd nd sd where d: "drain_bulk_in env m n s1 = (rd, nd, sd)"
    by (metis prod_cases3)
  obtain rh sh where h: "usb_clear_halt env (bulk_out s1) s1 = (rh, sh)"
    by (cases "usb_clear_halt env (bulk_out s1) s1")
  note f = quiet_ctrl_only[OF quiet_control[OF c]] ctrl_only_drain[OF d]
    quiet_ctrl_only[OF quiet_halt[OF h]]
  from Suc.prems c d h f show ?case
    by (auto simp: ctrl_only_def split: sum.splits if_splits dest!: Suc.IH)
qed

lemma ctrl_only_clear:
  "usbtmc_ioctl_clear fuel env s = Some (r, s') \<Longrightarrow> ctrl_only s s'"
proof -
  assume a: "usbtmc_ioctl_clear fuel env s = Some (r, s')"
  obtain b s1 where k: "kmalloc env (io_buffer_size s) s = (b, s1)"
    by (cases "kmalloc env (io_buffer_size s) s")
  obtain rr s2 where c: "usb_control_msg env USBTMC_REQUEST_INITIATE_CLEAR USB_RECIP_INTERFACE
                  0 0 1 s1 = (rr, s2)"
    by (cases "usb_control_msg env USBTMC_REQUEST_INITIATE_CLEAR USB_RECIP_INTERFACE 0 0 1 s1")
  note f = quiet_ctrl_only[OF quiet_kmalloc[OF k]] quiet_ctrl_only[OF quiet_control[OF c]]
  from a k c f show ?thesis
    by (auto simp: usbtmc_ioctl_clear_def ctrl_only_def Let_def
        split: bool.splits sum.splits if_splits dest!: ctrl_only_clear_check)
qed

lemma quiet_indicator_pulse: "usbtmc_ioctl_indicator_pulse env s = (r, s') \<Longrightarrow> quiet s s'"
proof -
  assume a: "usbtmc_ioctl_indicator_pulse env s = (r, s')"
  obtain b s1 where k: "kmalloc env 2 s = (b, s1)" by (cases "kmalloc env 2 s")
  obtain rr s2 where c: "usb_control_msg env USBTMC_REQUEST_INDICATOR_PULSE USB_RECIP_INTERFACE
                  0 0 1 s1 = (rr, s2)"
    by (cases "usb_control_msg env USBTMC_REQUEST_INDICATOR_PULSE USB_RECIP_INTERFACE 0 0 1 s1")
  note f = quiet_kmalloc[OF k] quiet_control[OF c]
  from a k c f show ?thesis
    by (auto simp: usbtmc_ioctl_indicator_pulse_def quiet_def split: bool.splits sum.splits if_splits)
qed

lemma quiet_simple: "usbtmc488_ioctl_simple env m arg cmd s = (r, s') \<Longrightarrow> quiet s s'"
proof -
  assume a: "usbtmc488_ioctl_simple env m arg cmd s = (r, s')"
  obtain b s1 where k: "kmalloc env 8 s = (b, s1)" by (cases "kmalloc env 8 s")
  have c: "quiet s1 (snd (usb_control_msg env cmd USB_RECIP_INTERFACE w (ifnum s1) 1 s1))" for w
    by (rule quiet_control) (rule surjective_pairing)
  note f = quiet_kmalloc[OF k]
  from a k f show ?thesis
    using c[of 0] c[of 1]
    by (auto simp: usbtmc488_ioctl_simple_def quiet_def
        split: bool.splits sum.splits if_splits option.splits prod.splits)
qed

lemma quiet_request: "usbtmc_ioctl_request env arg s = (r, s') \<Longrightarrow> quiet s s'"
  by (auto simp: usbtmc_ioctl_request_def quiet_def prim_defs core_def bulk_outs_def bulk_in_count_def Let_def
      split: option.splits bool.splits sum.splits if_splits prod.splits)

subsection \<open>What every operation keeps\<close>

lemma keeps_refl [simp]: "keeps s s"
  by (simp add: keeps_def)

lemma keeps_trans: "keeps s s' \<Longrightarrow> keeps s' s'' \<Longrightarrow> keeps s s''"
  unfolding keeps_def by blast

lemma core_keeps: "core s' = core s \<Longrightarrow> bulk_outs s' = bulk_outs s \<Longrightarrow> keeps s s'"
  using core_fields[of s' s] by (simp add: keeps_def iin_ok_def tag_ok_def)

lemma ctrl_only_keeps: "ctrl_only s s' \<Longrightarrow> keeps s s'"
  by (simp add: ctrl_only_def core_keeps)

lemma quiet_keeps: "quiet s s' \<Longrightarrow> keeps s s'"
  by (simp add: quiet_def core_keeps)

lemma increment_bTag_nonzero: "bTag (increment_bTag s) \<noteq> 0"
  by (simp add: increment_bTag_def Let_def)

lemma increment_bTag_fields:
  "zombie (increment_bTag s) = zombie s" "iin_bTag (increment_bTag s) = iin_bTag s"
  "trace (increment_bTag s) = trace s" "bTag_last_write (increment_bTag s) = bTag_last_write s"
  "bTag_last_read (increment_bTag s) = bTag_last_read s" "auto_abort (increment_bTag s) = auto_abort s"
  "allocs (increment_bTag s) = allocs s"
  by (simp_all add: increment_bTag_def Let_def)



lemma iin_bump: "2 \<le> (b::u8) \<Longrightarrow> b \<le> 127 \<Longrightarrow>
   2 \<le> (if b + 1 > 127 then 2 else b + 1) \<and> (if b + 1 > 127 then 2 else b + 1) \<le> 127"
  by (auto simp: word_le_nat_alt word_less_nat_alt unat_word_ariths)



lemma keeps_interrupt: "usbtmc_interrupt u s = (b, s') \<Longrightarrow> keeps s s'"
  by (auto simp: usbtmc_interrupt_def keeps_def iin_ok_def tag_ok_def bulk_outs_def
      split: option.splits if_splits)

lemma interrupt_ghosts:
  "usbtmc_interrupt u s = (b, s') \<Longrightarrow>
     trace s' = trace s \<and> allocs s' = allocs s \<and> iin_bTag s' = iin_bTag s \<and> bTag s' = bTag s
     \<and> zombie s' = zombie s \<and> usb488_caps s' = usb488_caps s"
  by (auto simp: usbtmc_interrupt_def split: option.splits if_splits)

lemma run_interrupts_ghosts:
  "trace (run_interrupts us s) = trace s \<and> allocs (run_interrupts us s) = allocs s
   \<and> iin_bTag (run_interrupts us s) = iin_bTag s \<and> bTag (run_interrupts us s) = bTag s
   \<and> zombie (run_interrupts us s) = zombie s"
proof (induction us arbitrary: s)
  case Nil
  show ?case by simp
next
  case (Cons u us)
  obtain b s1 where i: "usbtmc_interrupt u s = (b, s1)" by (cases "usbtmc_interrupt u s")
  from interrupt_ghosts[OF i] Cons.IH[of s1] i show ?case by (cases b) simp_all
qed

lemma wait_ghosts:
  "wait_event_interruptible_timeout env s = (r, s') \<Longrightarrow>
     trace s' = trace s \<and> allocs s' = allocs s \<and> iin_bTag s' = iin_bTag s \<and> bTag s' = bTag s
     \<and> zombie s' = zombie s"
  by (auto simp: wait_event_interruptible_timeout_def Let_def run_interrupts_ghosts
      split: prod.splits if_splits)




lemma read_stb_exit_ghosts:
  "read_stb_exit (r, s) = (r', s') \<Longrightarrow>
     r' = r \<and> trace s' = trace s \<and> allocs s' = allocs s \<and> bTag s' = bTag s \<and> zombie s' = zombie s
     \<and> iin_bTag s' = (if iin_bTag s + 1 > 127 then 2 else iin_bTag s + 1)"
  by (auto simp: read_stb_exit_def Let_def)

lemma read_stb_effect:
  assumes "usbtmc488_ioctl_read_stb env fd arg_ok s = (r, s')"
  shows "bTag s' = bTag s \<and> zombie s' = zombie s \<and>
         ((trace s' = trace s \<and> iin_bTag s' = iin_bTag s) \<or>
          (trace s' = ControlMsg USBTMC488_REQUEST_READ_STATUS_BYTE USB_RECIP_INTERFACE
                        (ucast (iin_bTag s)) (ifnum s) 3 # trace s \<and>
           iin_bTag s' = (if iin_bTag s + 1 > 127 then 2 else iin_bTag s + 1)))"
proof (cases "file_list s fd")
  case None
  with assms show ?thesis by (simp add: usbtmc488_ioctl_read_stb_def)
next
  case (Some file_data)
  show ?thesis
  proof (cases "srq_asserted file_data \<noteq> 0")
    case True
    with assms Some show ?thesis by (auto simp: usbtmc488_ioctl_read_stb_def)
  next
    case False
    obtain b s2 where k: "kmalloc env 8 (s\<lparr>file_list := (file_list s)(fd \<mapsto> file_data\<lparr>srq_asserted := 0\<rparr>)\<rparr>) = (b, s2)"
      by (cases "kmalloc env 8 (s\<lparr>file_list := (file_list s)(fd \<mapsto> file_data\<lparr>srq_asserted := 0\<rparr>)\<rparr>)")
    obtain rr s4 where c: "usb_control_msg env USBTMC488_REQUEST_READ_STATUS_BYTE USB_RECIP_INTERFACE
                           (ucast (iin_bTag s2)) (ifnum s2) 3 (s2\<lparr>iin_data_valid := 0\<rparr>) = (rr, s4)"
      by (cases "usb_control_msg env USBTMC488_REQUEST_READ_STATUS_BYTE USB_RECIP_INTERFACE
                           (ucast (iin_bTag s2)) (ifnum s2) 3 (s2\<lparr>iin_data_valid := 0\<rparr>)")
    obtain rw s5 where w: "wait_event_interruptible_timeout env s4 = (rw, s5)"
      by (cases "wait_event_interruptible_timeout env s4")
    have t4: "trace s4 = ControlMsg USBTMC488_REQUEST_READ_STATUS_BYTE USB_RECIP_INTERFACE
                        (ucast (iin_bTag s)) (ifnum s) 3 # trace s
              \<and> iin_bTag s4 = iin_bTag s \<and> bTag s4 = bTag s \<and> zombie s4 = zombie s"
      using k c by (auto simp: prim_defs)
    note g = wait_ghosts[OF w]
    show ?thesis
    proof (cases b)
      case False
      with assms Some \<open>\<not> srq_asserted file_data \<noteq> 0\<close> k show ?thesis
        by (auto simp: usbtmc488_ioctl_read_stb_def kmalloc_def)
    next
      case True
      from assms Some \<open>\<not> srq_asserted file_data \<noteq> 0\<close> k True c w
      obtain x sx where e: "read_stb_exit (x, sx) = (r, s')" and sx: "sx = s4 \<or> sx = s5"
        by (auto simp: usbtmc488_ioctl_read_stb_def Let_def split: sum.splits if_splits)
      from read_stb_exit_ghosts[OF e] sx t4 g show ?thesis by auto
    qed
  qed
qed

lemma keeps_read_stb: "usbtmc488_ioctl_read_stb env fd arg_ok s = (r, s') \<Longrightarrow> keeps s s'"
  using read_stb_effect[of env fd arg_ok s r s'] iin_bump[of "iin_bTag s"]
  by (auto simp: keeps_def iin_ok_def tag_ok_def bulk_outs_def)



lemma snd_effect:
  "usb_bulk_msg_snd env ep bytes s = (r, s') \<Longrightarrow>
     core s' = core s \<and> bulk_outs s' = BulkOut ep bytes # bulk_outs s \<and> bulk_in_count s' = bulk_in_count s"
  by (auto simp: prim_defs core_def bulk_outs_def bulk_in_count_def split: sum.splits prod.splits)

lemma core_update_last_write [simp]: "core (s\<lparr>bTag_last_write := x\<rparr>) = (core s)\<lparr>bTag_last_write := x\<rparr>"
  by (simp add: core_def)

lemma core_update_last_read [simp]: "core (s\<lparr>bTag_last_read := x\<rparr>) = (core s)\<lparr>bTag_last_read := x\<rparr>"
  by (simp add: core_def)

lemma bulk_log_updates [simp]:
  "bulk_outs (s\<lparr>bTag_last_write := x\<rparr>) = bulk_outs s" "bulk_in_count (s\<lparr>bTag_last_write := x\<rparr>) = bulk_in_count s"
  "bulk_outs (s\<lparr>bTag_last_read := x\<rparr>) = bulk_outs s" "bulk_in_count (s\<lparr>bTag_last_read := x\<rparr>) = bulk_in_count s"
  "bulk_outs (increment_bTag s) = bulk_outs s" "bulk_in_count (increment_bTag s) = bulk_in_count s"
  by (simp_all add: bulk_outs_def bulk_in_count_def increment_bTag_fields)


lemma framed_Cons_whole: "whole c \<Longrightarrow> framed cs \<Longrightarrow> framed (c # cs)"
  by (cases cs) simp_all

lemma framed_head_nonempty: "framed (BulkOut ep b # cs) \<Longrightarrow> b \<noteq> []"
proof (cases cs)
  case Nil
  assume "framed (BulkOut ep b # cs)"
  with Nil show ?thesis by auto
next
  case (Cons d ds)
  assume "framed (BulkOut ep b # cs)"
  with Cons show ?thesis by (cases d) auto
qed

lemma resend_take:
  "0 < m \<Longrightarrow> m \<le> n \<Longrightarrow> buffer \<noteq> [] \<Longrightarrow>
     resend_of (BulkOut ep (take m buffer)) (BulkOut ep (take n buffer))"
  by (simp add: min_def)

lemma whole_frame_ok: "whole c \<Longrightarrow> frame_ok c"
  by (cases c) simp_all

lemma frame_ok_resend: "resend_of c d \<Longrightarrow> frame_ok d \<Longrightarrow> frame_ok c"
proof (cases c; cases d)
  fix ep b ep0 b0
  assume r: "resend_of c d" and f: "frame_ok d" and c: "c = BulkOut ep b" and d: "d = BulkOut ep0 b0"
  from r c d have p: "b = take (length b) b0" "length b \<le> length b0" by simp_all
  show "frame_ok c"
  proof (cases "3 \<le> length b")
    case False
    with c show ?thesis by simp
  next
    case True
    with p have "b ! 1 = b0 ! 1" "b ! 2 = b0 ! 2" "3 \<le> length b0"
      by (metis nth_take less_le_trans numeral_3_eq_3 Suc_le_eq One_nat_def lessI Suc_lessD,
          metis nth_take less_le_trans numeral_3_eq_3 Suc_le_eq numeral_2_eq_2 lessI, simp)
    with f d c show ?thesis by simp
  qed
qed simp_all

lemma framed_frame_ok: "framed cs \<Longrightarrow> list_all frame_ok cs"
  by (induction cs rule: framed.induct)
     (auto simp del: frame_ok.simps dest: whole_frame_ok frame_ok_resend)

lemma length_le32_bytes [simp]: "length (le32_bytes n) = 4"
  by (simp add: le32_bytes_def)

lemma dev_dep_msg_out_header:
  "12 \<le> length (dev_dep_msg_out b tp attr payload) \<and>
   dev_dep_msg_out b tp attr payload ! 1 = b \<and> dev_dep_msg_out b tp attr payload ! 2 = NOT b"
  by (simp add: dev_dep_msg_out_def)

lemma roundup4_ge: "x \<le> roundup4 x"
  by (simp add: roundup4_def)

lemma whole_chunk:
  assumes "b \<noteq> 0"
  shows "whole (BulkOut ep (take (roundup4 (USBTMC_HEADER_SIZE + tp)) (dev_dep_msg_out b tp attr payload)))"
proof -
  have n: "12 \<le> roundup4 (USBTMC_HEADER_SIZE + tp)"
    using roundup4_ge[of "USBTMC_HEADER_SIZE + tp"] by (simp add: USBTMC_HEADER_SIZE_def)
  with dev_dep_msg_out_header[of b tp attr payload] assms show ?thesis by simp
qed

lemma write_send_framed:
  "write_send fuel env buffer n s = Some (r, s') \<Longrightarrow>
     framed (BulkOut (bulk_out s) (take n buffer) # bulk_outs s) \<Longrightarrow> framed (bulk_outs s')"
proof (induction fuel arbitrary: n s)
  case 0
  then show ?case by simp
next
  case (Suc fuel)
  obtain rr s1 where t: "usb_bulk_msg_snd env (bulk_out s) (take n buffer) s = (rr, s1)"
    by (cases "usb_bulk_msg_snd env (bulk_out s) (take n buffer) s")
  note e = snd_effect[OF t]
  from e have c1: "core s1 = core s" by simp
  have bo: "bulk_out s1 = bulk_out s" using core_fields[OF c1] by simp
  have o1: "bulk_outs s1 = BulkOut (bulk_out s) (take n buffer) # bulk_outs s" using e by simp
  with Suc.prems(2) have f1: "framed (bulk_outs s1)" by simp
  from Suc.prems(2) have ne: "buffer \<noteq> []" using framed_head_nonempty by fastforce
  have "s' = s1 \<or> (\<exists>m. 0 < m \<and> m \<le> n \<and> write_send fuel env buffer m s1 = Some (r, s'))"
  proof (cases rr)
    case (Inl x)
    with Suc.prems(1) t show ?thesis by simp
  next
    case (Inr actual)
    show ?thesis
    proof (cases "n - actual = 0")
      case True
      with Suc.prems(1) t Inr show ?thesis by simp
    next
      case False
      with Suc.prems(1) t Inr have "write_send fuel env buffer (n - actual) s1 = Some (r, s')" by simp
      moreover from False have "0 < n - actual" "n - actual \<le> n" by simp_all
      ultimately show ?thesis by blast
    qed
  qed
  then consider (here) "s' = s1"
    | (again) m where "0 < m" "m \<le> n" "write_send fuel env buffer m s1 = Some (r, s')"
    by blast
  then show ?case
  proof cases
    case here
    with f1 show ?thesis by simp
  next
    case again
    from resend_take[OF again(1,2) ne]
    have "framed (BulkOut (bulk_out s1) (take m buffer) # bulk_outs s1)"
      using f1 o1 bo by simp
    from Suc.IH[OF again(3) this] show ?thesis .
  qed
qed

lemma u8_wrap: "((b::u8) + 1 = 0) = (b = 255)"
proof
  assume "b + 1 = 0"
  then have "b = 0 - 1" by (metis add_diff_cancel_right')
  then show "b = 255" by simp
next
  assume "b = 255"
  then show "b + 1 = 0" by simp
qed

lemma increment_bTag_bTag: "bTag (increment_bTag s) = (if bTag s = 255 then 1 else bTag s + 1)"
  by (simp add: increment_bTag_def Let_def u8_wrap)


lemma trigger_effect:
  assumes "usbtmc488_ioctl_trigger env s = (r, s')"
  shows "zombie s' = zombie s \<and> iin_bTag s' = iin_bTag s \<and> bTag_last_read s' = bTag_last_read s \<and>
         auto_abort s' = auto_abort s \<and> bulk_in_count s' = bulk_in_count s \<and>
         ((r = Inl ENOMEM \<and> bulk_outs s' = bulk_outs s \<and> bTag s' = bTag s \<and> bTag_last_write s' = bTag_last_write s) \<or>
          (bulk_outs s' = BulkOut (bulk_out s) ([128, bTag s, NOT (bTag s)] @ replicate 9 0) # bulk_outs s \<and>
           bTag s' = bTag (increment_bTag s) \<and> bTag_last_write s' = bTag s))"
proof -
  obtain b s1 where k: "kmalloc env USBTMC_HEADER_SIZE s = (b, s1)"
    by (cases "kmalloc env USBTMC_HEADER_SIZE s")
  obtain rr s2 where t: "usb_bulk_msg_snd env (bulk_out s1) ([128, bTag s1, NOT (bTag s1)] @ replicate 9 0) s1 = (rr, s2)"
    by (cases "usb_bulk_msg_snd env (bulk_out s1) ([128, bTag s1, NOT (bTag s1)] @ replicate 9 0) s1")
  have c1: "core s1 = core s" "bulk_outs s1 = bulk_outs s" "bulk_in_count s1 = bulk_in_count s"
    using quiet_kmalloc[OF k] by (simp_all add: quiet_def)
  note e = snd_effect[OF t]
  have c2: "core s2 = core s" using e c1 by simp
  note f1 = core_fields[OF c1(1)]
  note f2 = core_fields[OF c2]
  show ?thesis
  proof (cases b)
    case False
    with assms k have "r = Inl ENOMEM" "s' = s1" by (simp_all add: usbtmc488_ioctl_trigger_def)
    with c1 f1 show ?thesis by simp
  next
    case True
    with assms k t have s': "s' = increment_bTag (s2\<lparr>bTag_last_write := bTag s2\<rparr>)"
      by (cases rr) (simp_all add: usbtmc488_ioctl_trigger_def Let_def)
    with f2 e c1 f1 show ?thesis
      by (simp add: increment_bTag_fields increment_bTag_bTag)
  qed
qed

lemma send_request_effect:
  assumes "send_request_dev_dep_msg_in env fd n s = (r, s')"
  shows "zombie s' = zombie s \<and> iin_bTag s' = iin_bTag s \<and> bTag_last_read s' = bTag_last_read s \<and>
         auto_abort s' = auto_abort s \<and> bulk_in_count s' = bulk_in_count s \<and>
         ((r \<in> {Inl ENOMEM, Inl EBADF} \<and> bulk_outs s' = bulk_outs s \<and> bTag s' = bTag s \<and> bTag_last_write s' = bTag_last_write s) \<or>
          (\<exists>x y. bulk_outs s' = BulkOut (bulk_out s) ([2, bTag s, NOT (bTag s), 0] @ le32_bytes n @ [x, y, 0, 0]) # bulk_outs s \<and>
           bTag s' = bTag (increment_bTag s) \<and> bTag_last_write s' = bTag s))"
proof (cases "file_list s fd")
  case None
  with assms show ?thesis by (simp add: send_request_dev_dep_msg_in_def)
next
  case (Some file_data)
  define buffer where "buffer = [2, bTag s, NOT (bTag s), 0] @ le32_bytes n @
     [if f_TermCharEnabled file_data then 2 else 0, f_TermChar file_data, 0, 0]"
  obtain b s1 where k: "kmalloc env USBTMC_HEADER_SIZE s = (b, s1)"
    by (cases "kmalloc env USBTMC_HEADER_SIZE s")
  have c1: "core s1 = core s" "bulk_outs s1 = bulk_outs s" "bulk_in_count s1 = bulk_in_count s"
    using quiet_kmalloc[OF k] by (simp_all add: quiet_def)
  note f1 = core_fields[OF c1(1)]
  obtain rr s2 where t: "usb_bulk_msg_snd env (bulk_out s1) buffer s1 = (rr, s2)"
    by (cases "usb_bulk_msg_snd env (bulk_out s1) buffer s1")
  note e = snd_effect[OF t]
  have c2: "core s2 = core s" using e c1 by simp
  note f2 = core_fields[OF c2]
  show ?thesis
  proof (cases b)
    case False
    with assms k Some have "r = Inl ENOMEM" "s' = s1" by (simp_all add: send_request_dev_dep_msg_in_def)
    with c1 f1 show ?thesis by simp
  next
    case True
    with assms k t Some f1 have s': "s' = increment_bTag (s2\<lparr>bTag_last_write := bTag s2\<rparr>)"
      by (cases rr) (simp_all add: send_request_dev_dep_msg_in_def Let_def buffer_def)
    with f2 e c1 f1 show ?thesis
      by (simp add: increment_bTag_fields increment_bTag_bTag buffer_def)
  qed
qed


lemma keeps_trigger: "usbtmc488_ioctl_trigger env s = (r, s') \<Longrightarrow> keeps s s'"
  using trigger_effect[of env s r s'] increment_bTag_nonzero[of s]
  by (auto simp: keeps_def iin_ok_def tag_ok_def simp del: framed.simps intro!: framed_Cons_whole)

lemma keeps_send_request: "send_request_dev_dep_msg_in env fd n s = (r, s') \<Longrightarrow> keeps s s'"
  using send_request_effect[of env fd n s r s'] increment_bTag_nonzero[of s]
  by (auto simp: keeps_def iin_ok_def tag_ok_def simp del: framed.simps intro!: framed_Cons_whole)

lemma read_abort_effect:
  "read_abort fuel env x s = Some (r, s') \<Longrightarrow> r = x \<and> ctrl_only s s'"
  by (auto simp: read_abort_def split: if_splits option.splits dest: ctrl_only_abort_in)

lemma read_loop_effect:
  "usbtmc_read_loop fuel env ulen tp rem out s = Some (r, s') \<Longrightarrow>
     zombie s' = zombie s \<and> iin_bTag s' = iin_bTag s \<and> bTag s' = bTag s \<and>
     bTag_last_write s' = bTag_last_write s \<and> bulk_outs s' = bulk_outs s \<and> auto_abort s' = auto_abort s \<and>
     (if rem = 0 then bulk_in_count s' = bulk_in_count s \<and> bTag_last_read s' = bTag_last_read s
      else bulk_in_count s < bulk_in_count s' \<and> bTag_last_read s' = bTag s)"
proof (induction fuel arbitrary: rem out s)
  case 0
  then show ?case by (simp split: if_splits)
next
  case (Suc fuel)
  show ?case
  proof (cases "rem = 0")
    case True
    with Suc.prems show ?thesis by simp
  next
    case False
    obtain rr s0 where rcv: "usb_bulk_msg_rcv env (bulk_in s) (io_buffer_size s) s = (rr, s0)"
      by (cases "usb_bulk_msg_rcv env (bulk_in s) (io_buffer_size s) s")
    define s1 where "s1 = s0\<lparr>bTag_last_read := bTag s0\<rparr>"
    note e = rcv_effect[OF rcv]
    from e have c0: "core s0 = core s" by simp
    note f0 = core_fields[OF c0]
    have s1: "zombie s1 = zombie s" "iin_bTag s1 = iin_bTag s" "bTag s1 = bTag s"
      "bTag_last_write s1 = bTag_last_write s" "bulk_outs s1 = bulk_outs s" "auto_abort s1 = auto_abort s"
      "bulk_in_count s1 = Suc (bulk_in_count s)" "bTag_last_read s1 = bTag s"
      using f0 e by (simp_all add: s1_def)
    from Suc.prems False rcv
    have "(\<exists>x. read_abort fuel env x s1 = Some (r, s')) \<or> s' = s1 \<or>
          (\<exists>rem' out'. usbtmc_read_loop fuel env ulen tp rem' out' s1 = Some (r, s'))"
      by (auto simp: s1_def Let_def split: sum.splits if_splits)
    then consider (abort) x where "read_abort fuel env x s1 = Some (r, s')"
      | (here) "s' = s1"
      | (loop) rem' out' where "usbtmc_read_loop fuel env ulen tp rem' out' s1 = Some (r, s')"
      by blast
    then show ?thesis
    proof cases
      case abort
      then have "ctrl_only s1 s'" by (simp add: read_abort_effect)
      then have c: "core s' = core s1" "bulk_outs s' = bulk_outs s1" "bulk_in_count s1 \<le> bulk_in_count s'"
        by (simp_all add: ctrl_only_def)
      from core_fields[OF c(1)] c s1 False show ?thesis by simp
    next
      case here
      with s1 False show ?thesis by simp
    next
      case loop
      from Suc.IH[OF loop] s1 False show ?thesis by (auto split: if_splits)
    qed
  qed
qed

lemma read_effect:
  assumes "usbtmc_read fuel env fd ulen count s = Some (r, s')"
  shows "zombie s' = zombie s \<and> iin_bTag s' = iin_bTag s \<and> (tag_ok s \<longrightarrow> tag_ok s') \<and>
         (if bulk_in_count s' = bulk_in_count s then bTag_last_read s' = bTag_last_read s
          else bTag_last_read s' = bTag s' \<and> bTag s' = bTag (increment_bTag s))"
proof -
  obtain b s1 where k: "kmalloc env (io_buffer_size s) s = (b, s1)"
    by (cases "kmalloc env (io_buffer_size s) s")
  have c1: "core s1 = core s" "bulk_outs s1 = bulk_outs s" "bulk_in_count s1 = bulk_in_count s"
    using quiet_kmalloc[OF k] by (simp_all add: quiet_def)
  note f1 = core_fields[OF c1(1)]
  have t1: "tag_ok s \<longrightarrow> tag_ok s1" using c1 f1 by (simp add: tag_ok_def)
  obtain rs s2 where q: "send_request_dev_dep_msg_in env fd count s1 = (rs, s2)"
    by (cases "send_request_dev_dep_msg_in env fd count s1")
  note e2 = send_request_effect[OF q]
  have t2: "tag_ok s1 \<longrightarrow> tag_ok s2" using keeps_send_request[OF q] by (simp add: keeps_def)
  obtain ra s3 where a: "usbtmc_ioctl_abort_bulk_out env s2 = (ra, s3)"
    by (cases "usbtmc_ioctl_abort_bulk_out env s2")
  have c3: "core s3 = core s2" "bulk_outs s3 = bulk_outs s2" "bulk_in_count s3 = bulk_in_count s2"
    using quiet_abort_out[OF a] by (simp_all add: quiet_def)
  note f3 = core_fields[OF c3(1)]
  have t3: "tag_ok s2 \<longrightarrow> tag_ok s3" using c3 f3 by (simp add: tag_ok_def)
  have inc: "bTag (increment_bTag s1) = bTag (increment_bTag s)"
    using f1 by (simp add: increment_bTag_bTag)
  from assms k q a
  consider (early) "s' = s1" | (sent) "s' = s2" "\<exists>e. rs = Inl e" | (aborted) "s' = s3" "\<exists>e. rs = Inl e"
    | (loop) "usbtmc_read_loop fuel env ulen count count [] s2 = Some (r, s')" "rs = Inr ()"
    by (cases b; cases rs) (auto simp: usbtmc_read_def split: if_splits)
  then show ?thesis
  proof cases
    case early
    with c1 f1 t1 show ?thesis by simp
  next
    case sent
    with e2 c1 f1 t1 t2 show ?thesis by auto
  next
    case aborted
    with e2 c1 f1 c3 f3 t1 t2 t3 show ?thesis by auto
  next
    case loop
    note l = read_loop_effect[OF loop(1)]
    from l have "tag_ok s2 \<longrightarrow> tag_ok s'" by (simp add: tag_ok_def)
    with l e2 c1 f1 t1 t2 loop(2) inc show ?thesis by (auto split: if_splits)
  qed
qed

lemma keeps_read: "usbtmc_read fuel env fd ulen count s = Some (r, s') \<Longrightarrow> keeps s s'"
  using read_effect[of fuel env fd ulen count s r s'] by (simp add: keeps_def iin_ok_def)



lemma sends_prefixI [simp]: "sends_prefix ep buffer (BulkOut ep (take n buffer))"
  unfolding sends_prefix_def by (rule exI[of _ n]) simp

lemma write_send_effect:
  "write_send fuel env buffer n s = Some (r, s') \<Longrightarrow>
     core s' = core s \<and> bulk_in_count s' = bulk_in_count s \<and>
     (\<exists>cs. bulk_outs s' = cs @ bulk_outs s \<and> cs \<noteq> [] \<and> list_all (sends_prefix (bulk_out s) buffer) cs)"
proof (induction fuel arbitrary: n s)
  case 0
  then show ?case by simp
next
  case (Suc fuel)
  obtain rr s1 where t: "usb_bulk_msg_snd env (bulk_out s) (take n buffer) s = (rr, s1)"
    by (cases "usb_bulk_msg_snd env (bulk_out s) (take n buffer) s")
  note e = snd_effect[OF t]
  from e have c1: "core s1 = core s" by simp
  have bo: "bulk_out s1 = bulk_out s" using core_fields[OF c1] by simp
  have base: "bulk_outs s1 = [BulkOut (bulk_out s) (take n buffer)] @ bulk_outs s" using e by simp
  have "s' = s1 \<or> (\<exists>n'. write_send fuel env buffer n' s1 = Some (r, s'))"
  proof (cases rr)
    case (Inl x)
    with Suc.prems t show ?thesis by simp
  next
    case (Inr actual)
    with Suc.prems t show ?thesis by (cases "n - actual = 0") auto
  qed
  then consider (here) "s' = s1"
    | (again) n' where "write_send fuel env buffer n' s1 = Some (r, s')"
    by blast
  then show ?case
  proof cases
    case here
    have "bulk_outs s' = [BulkOut (bulk_out s) (take n buffer)] @ bulk_outs s \<and>
          [BulkOut (bulk_out s) (take n buffer)] \<noteq> [] \<and>
          list_all (sends_prefix (bulk_out s) buffer) [BulkOut (bulk_out s) (take n buffer)]"
      using here base by simp
    then have "\<exists>cs. bulk_outs s' = cs @ bulk_outs s \<and> cs \<noteq> [] \<and> list_all (sends_prefix (bulk_out s) buffer) cs"
      by (rule exI)
    with here e c1 show ?thesis by simp
  next
    case again
    from Suc.IH[OF again] obtain cs where
      cs: "core s' = core s1" "bulk_in_count s' = bulk_in_count s1" "bulk_outs s' = cs @ bulk_outs s1"
          "list_all (sends_prefix (bulk_out s1) buffer) cs"
      by blast
    have "bulk_outs s' = (cs @ [BulkOut (bulk_out s) (take n buffer)]) @ bulk_outs s \<and>
          cs @ [BulkOut (bulk_out s) (take n buffer)] \<noteq> [] \<and>
          list_all (sends_prefix (bulk_out s) buffer) (cs @ [BulkOut (bulk_out s) (take n buffer)])"
      using cs(3,4) base bo by simp
    then have "\<exists>cs. bulk_outs s' = cs @ bulk_outs s \<and> cs \<noteq> [] \<and> list_all (sends_prefix (bulk_out s) buffer) cs"
      by (rule exI)
    with cs(1,2) c1 e show ?thesis by simp
  qed
qed


lemma chunk_sent:
  assumes "list_all (sends_prefix ep (dev_dep_msg_out tag tp attr payload)) cs" and "cs \<noteq> []"
  shows "\<exists>b t. cs = BulkOut ep b # t \<and> (2 \<le> length b \<longrightarrow> b ! 1 = tag)"
proof -
  from assms(2) obtain c t where ct: "cs = c # t" by (cases cs) auto
  with assms(1) obtain k where "c = BulkOut ep (take k (dev_dep_msg_out tag tp attr payload))"
    by (auto simp: sends_prefix_def)
  with ct show ?thesis by (auto simp: dev_dep_msg_out_def)
qed

lemma last_out_tag_ok_cong:
  "bulk_outs s' = bulk_outs s \<Longrightarrow> bTag_last_write s' = bTag_last_write s \<Longrightarrow> last_out_tag_ok s' = last_out_tag_ok s"
  by (simp add: last_out_tag_ok_def split: list.splits usb_call.splits)

lemma write_loop_effect:
  "usbtmc_write_loop fuel env ubuf count rem dn s = Some (r, s') \<Longrightarrow>
     zombie s' = zombie s \<and> iin_bTag s' = iin_bTag s \<and> bTag_last_read s' = bTag_last_read s \<and>
     bulk_in_count s' = bulk_in_count s \<and> (tag_ok s \<longrightarrow> tag_ok s') \<and>
     ((bulk_outs s' = bulk_outs s \<and> bTag_last_write s' = bTag_last_write s \<and> bTag s' = bTag s) \<or>
      last_out_tag_ok s')"
proof (induction fuel arbitrary: rem dn s)
  case 0
  then show ?case by (simp split: if_splits)
next
  case (Suc fuel)
  show ?case
  proof (cases "rem = 0")
    case True
    with Suc.prems show ?thesis by simp
  next
    case False
    define this_part where "this_part = (if rem > payload_room (io_buffer_size s)
                         then payload_room (io_buffer_size s) else rem)"
    define attr :: u8 where "attr = (if rem > payload_room (io_buffer_size s) then 0
                    else if eom_val s then 1 else 0)"
    define buffer where "buffer = dev_dep_msg_out (bTag s) this_part attr (take this_part (drop dn ubuf))"
    show ?thesis
    proof (cases "dn + this_part > length ubuf")
      case True
      with Suc.prems False have "s' = s"
        by (simp add: Let_def this_part_def)
      then show ?thesis by simp
    next
      case nofault: False
      obtain rs s1 where w: "write_send fuel env buffer (roundup4 (USBTMC_HEADER_SIZE + this_part)) s = Some (rs, s1)"
        using Suc.prems False nofault
        by (cases "write_send fuel env buffer (roundup4 (USBTMC_HEADER_SIZE + this_part)) s")
           (auto simp: Let_def this_part_def attr_def buffer_def)
      from write_send_effect[OF w] obtain cs where
        cs: "core s1 = core s" "bulk_in_count s1 = bulk_in_count s" "bulk_outs s1 = cs @ bulk_outs s" "cs \<noteq> []"
            "list_all (sends_prefix (bulk_out s) buffer) cs"
        by blast
      note f1 = core_fields[OF cs(1)]
      define s2 where "s2 = increment_bTag (s1\<lparr>bTag_last_write := bTag s1\<rparr>)"
      have s2: "zombie s2 = zombie s" "iin_bTag s2 = iin_bTag s" "bTag_last_read s2 = bTag_last_read s"
        "bulk_in_count s2 = bulk_in_count s" "bulk_outs s2 = cs @ bulk_outs s" "bTag_last_write s2 = bTag s" "bTag s2 \<noteq> 0"
        using f1 cs by (simp_all add: s2_def increment_bTag_fields increment_bTag_nonzero)
      from chunk_sent[OF cs(5)[unfolded buffer_def] cs(4)]
      have l2: "last_out_tag_ok s2" using s2 by (auto simp: last_out_tag_ok_def)
      have t2: "tag_ok s \<longrightarrow> tag_ok s2"
      proof
        assume t: "tag_ok s"
        then have "framed (BulkOut (bulk_out s) (take (roundup4 (USBTMC_HEADER_SIZE + this_part)) buffer) #
                     bulk_outs s)"
          unfolding buffer_def using whole_chunk[of "bTag s"]
          by (simp add: tag_ok_def framed_Cons_whole del: whole.simps framed.simps)
        from write_send_framed[OF w this] have "framed (bulk_outs s1)" .
        with s2 cs(3) show "tag_ok s2" by (simp add: tag_ok_def)
      qed
      obtain ra s3 where a: "usbtmc_ioctl_abort_bulk_out env s2 = (ra, s3)"
        by (cases "usbtmc_ioctl_abort_bulk_out env s2")
      have c3: "core s3 = core s2" "bulk_outs s3 = bulk_outs s2" "bulk_in_count s3 = bulk_in_count s2"
        using quiet_abort_out[OF a] by (simp_all add: quiet_def)
      note f3 = core_fields[OF c3(1)]
      from Suc.prems False nofault w a
      consider (here) "s' = s2" | (aborted) "s' = s3"
        | (loop) rem' dn' where "usbtmc_write_loop fuel env ubuf count rem' dn' s2 = Some (r, s')"
        by (cases rs)
           (auto simp: Let_def this_part_def[symmetric] attr_def[symmetric] buffer_def[symmetric]
              s2_def[symmetric] split: if_splits)
      then show ?thesis
      proof cases
        case here
        with s2 l2 t2 show ?thesis by simp
      next
        case aborted
        have "last_out_tag_ok s3" using last_out_tag_ok_cong[of s3 s2] c3 f3 l2 by simp
        moreover have "tag_ok s2 \<longrightarrow> tag_ok s3" using c3 f3 by (simp add: tag_ok_def)
        ultimately show ?thesis using aborted s2 t2 c3 f3 by simp
      next
        case loop
        note ih = Suc.IH[OF loop]
        from ih l2 have "last_out_tag_ok s'" using last_out_tag_ok_cong[of s' s2] by auto
        with ih s2 t2 show ?thesis by simp
      qed
    qed
  qed
qed

lemma write_effect:
  assumes "usbtmc_write fuel env ubuf count s = Some (r, s')"
  shows "zombie s' = zombie s \<and> iin_bTag s' = iin_bTag s \<and> bTag_last_read s' = bTag_last_read s \<and>
     bulk_in_count s' = bulk_in_count s \<and> (tag_ok s \<longrightarrow> tag_ok s') \<and>
     ((bulk_outs s' = bulk_outs s \<and> bTag_last_write s' = bTag_last_write s \<and> bTag s' = bTag s) \<or>
      last_out_tag_ok s')"
proof -
  obtain b s1 where k: "kmalloc env (io_buffer_size s) s = (b, s1)"
    by (cases "kmalloc env (io_buffer_size s) s")
  have c1: "core s1 = core s" "bulk_outs s1 = bulk_outs s" "bulk_in_count s1 = bulk_in_count s"
    using quiet_kmalloc[OF k] by (simp_all add: quiet_def)
  note f1 = core_fields[OF c1(1)]
  have t1: "tag_ok s \<longrightarrow> tag_ok s1" using c1 f1 by (simp add: tag_ok_def)
  from assms k consider (early) "s' = s1"
    | (loop) "usbtmc_write_loop fuel env ubuf count count 0 s1 = Some (r, s')"
    by (cases b) (auto simp: usbtmc_write_def split: if_splits)
  then show ?thesis
  proof cases
    case early
    with c1 f1 t1 show ?thesis by simp
  next
    case loop
    from write_loop_effect[OF loop] c1 f1 t1 show ?thesis by auto
  qed
qed

lemma keeps_write: "usbtmc_write fuel env ubuf count s = Some (r, s') \<Longrightarrow> keeps s s'"
  using write_effect[of fuel env ubuf count s r s'] by (simp add: keeps_def iin_ok_def)
lemma keeps_fields:
  "zombie s' = zombie s \<Longrightarrow> iin_bTag s' = iin_bTag s \<Longrightarrow> bTag s' = bTag s \<Longrightarrow> trace s' = trace s
     \<Longrightarrow> keeps s s'"
  by (simp add: keeps_def iin_ok_def tag_ok_def bulk_outs_def)


lemma keeps_ret_none: "keeps s (snd rs) \<Longrightarrow> ret_none rs = (r, s') \<Longrightarrow> keeps s s'"
  by (cases rs; cases "fst rs") (auto simp: ret_none_def)

lemma keeps_ret_u8: "keeps s (snd rs) \<Longrightarrow> ret_u8 rs = (r, s') \<Longrightarrow> keeps s s'"
  by (cases rs; cases "fst rs") (auto simp: ret_u8_def)

lemma keeps_snd: "(\<And>r s'. f = (r, s') \<Longrightarrow> keeps s s') \<Longrightarrow> keeps s (snd f)"
  by (cases f) simp

lemma keeps_ioctl:
  assumes "usbtmc_ioctl fuel env m fd cmd arg s = Some (r, s')"
  shows "keeps s s'"
proof (cases "zombie s")
  case True
  with assms show ?thesis by (simp add: usbtmc_ioctl_def)
next
  case False
  have h1: "keeps s (snd (usbtmc_ioctl_clear_out_halt env s))"
    unfolding usbtmc_ioctl_clear_out_halt_def by (rule keeps_snd) (rule quiet_keeps[OF quiet_halt])
  have h2: "keeps s (snd (usbtmc_ioctl_clear_in_halt env s))"
    unfolding usbtmc_ioctl_clear_in_halt_def by (rule keeps_snd) (rule quiet_keeps[OF quiet_halt])
  have h3: "keeps s (snd (usbtmc_ioctl_indicator_pulse env s))"
    by (rule keeps_snd) (rule quiet_keeps[OF quiet_indicator_pulse])
  have h4: "keeps s (snd (usbtmc_ioctl_abort_bulk_out env s))"
    by (rule keeps_snd) (rule quiet_keeps[OF quiet_abort_out])
  have h5: "keeps s (snd (usbtmc_ioctl_request env a s))" for a
    by (rule keeps_snd) (rule quiet_keeps[OF quiet_request])
  have h6: "keeps s (snd (usbtmc_ioctl_get_timeout b s))" for b
    by (simp add: usbtmc_ioctl_get_timeout_def)
  have h7: "keeps s (snd (usbtmc_ioctl_set_timeout a s))" for a
    by (auto simp: usbtmc_ioctl_set_timeout_def split: option.splits intro!: keeps_fields)
  have h8: "keeps s (snd (usbtmc_ioctl_eom_enable a s))" for a
    by (auto simp: usbtmc_ioctl_eom_enable_def split: option.splits intro!: keeps_fields)
  have h9: "keeps s (snd (usbtmc_ioctl_config_termc a s))" for a
    by (auto simp: usbtmc_ioctl_config_termc_def split: option.splits prod.splits intro!: keeps_fields)
  have h10: "keeps s (snd (usbtmc488_ioctl_read_stb env fd b s))" for b
    by (rule keeps_snd) (rule keeps_read_stb)
  have h11: "keeps s (snd (usbtmc488_ioctl_simple env m a c s))" for a c
    by (rule keeps_snd) (rule quiet_keeps[OF quiet_simple])
  have h12: "keeps s (snd (usbtmc488_ioctl_trigger env s))"
    by (rule keeps_snd) (rule keeps_trigger)
  have h13: "usbtmc_ioctl_clear fuel env s = Some x \<Longrightarrow> keeps s (snd x)" for x
    by (cases x) (auto dest: ctrl_only_clear intro: ctrl_only_keeps)
  have h14: "usbtmc_ioctl_abort_bulk_in fuel env s = Some x \<Longrightarrow> keeps s (snd x)" for x
    by (cases x) (auto dest: ctrl_only_abort_in intro: ctrl_only_keeps)
  from assms False h5[of "arg_request arg"] h6[of "arg_writable arg"] show ?thesis
    by (cases cmd)
       (auto simp: usbtmc_ioctl_def split: if_splits
          elim!: keeps_ret_none[rotated] keeps_ret_u8[rotated]
          intro: h1 h2 h3 h4 h5 h6 h7 h8 h9 h10 h11 h12 h13 h14)
qed



lemma keeps_open: "usbtmc_open env fd s = (r, s') \<Longrightarrow> keeps s s'"
  by (cases "kmalloc_ok env (allocs s) 0")
     (auto simp: usbtmc_open_def kmalloc_def split: if_splits intro!: keeps_fields)

lemma keeps_release: "keeps s (usbtmc_release fd s)"
  by (simp add: usbtmc_release_def keeps_fields)

lemma keeps_attr: "keeps s (attr_store w s)"
  by (cases w) (simp_all add: keeps_fields)

lemma keeps_disconnect: "keeps s (usbtmc_disconnect s)"
  by (simp add: usbtmc_disconnect_def usbtmc_free_int_def keeps_def iin_ok_def tag_ok_def bulk_outs_def)


lemma keeps_step: "step env s s' \<Longrightarrow> keeps s s'"
  by (induction rule: step.induct)
     (auto intro: keeps_read keeps_write keeps_ioctl keeps_open keeps_release keeps_interrupt
        keeps_attr keeps_disconnect)

lemma keeps_steps: "steps env s s' \<Longrightarrow> keeps s s'"
  by (induction rule: steps.induct) (auto intro: keeps_trans keeps_step)



lemma get_capabilities_effect:
  "get_capabilities env s = (r, s') \<Longrightarrow>
     bTag s' = bTag s \<and> iin_bTag s' = iin_bTag s \<and> zombie s' = zombie s \<and> bulk_outs s' = bulk_outs s"
  by (cases "kmalloc_ok env (allocs s) 0x18")
     (auto simp: get_capabilities_def prim_defs bulk_outs_def split: sum.splits if_splits)

lemma get_capabilities_snd [simp]:
  "bTag (snd (get_capabilities env s)) = bTag s"
  "iin_bTag (snd (get_capabilities env s)) = iin_bTag s"
  "zombie (snd (get_capabilities env s)) = zombie s"
  "bulk_outs (snd (get_capabilities env s)) = bulk_outs s"
  using get_capabilities_effect[of env s "fst (get_capabilities env s)" "snd (get_capabilities env s)"]
  by simp_all

lemma probe_effect:
  assumes "usbtmc_probe env host intf p_io p_to = Inr s"
  shows "bTag s = 1 \<and> iin_bTag s = 2 \<and> \<not> zombie s \<and> bulk_outs s = []"
proof -
  have o: "filter is_bulk_out (trace (snd (get_capabilities env s))) = filter is_bulk_out (trace s)" for s
    using get_capabilities_snd(4)[of env s] by (simp add: bulk_outs_def)
  from assms show ?thesis
    by (cases "kmalloc_ok env 0 0")
       (auto simp: usbtmc_probe_def Let_def kmalloc_def kzalloc_data_def bulk_outs_def o
          split: option.splits if_splits bool.splits)
qed


lemma probe_example:
  "usbtmc_probe (scripted (caps_reply # rs)) example_host example_intf 2048 5000 = Inr probed_dev"
  by (simp add: usbtmc_probe_def scripted_def caps_reply_def example_host_def example_intf_def
      probed_dev_def kzalloc_data_def get_capabilities_def prim_defs find_endpoint_def buf_of_def
      USBTMC_MIN_TIMEOUT_def USBTMC_STATUS_SUCCESS_def Let_def)

lemma open_example:
  "usbtmc_open (scripted rs) 1 probed_dev = (Inr (), opened_dev)"
  by (simp add: usbtmc_open_def scripted_def probed_dev_def opened_dev_def example_handle_def
      kzalloc_data_def kmalloc_def)

section \<open>The claims\<close>

subsection \<open>Status byte and service requests\<close>

lemma stb_example:
  "usbtmc488_ioctl_read_stb stb_env 1 True opened_dev = (Inr 0x42, stb_dev)"
  by (simp add: usbtmc488_ioctl_read_stb_def read_stb_exit_def scripted_def opened_dev_def probed_dev_def
      example_handle_def kzalloc_data_def prim_defs buf_of_def USBTMC_STATUS_SUCCESS_def Let_def
      stb_env_def stb_dev_def caps_reply_def)

lemma interrupt_caps:
  "usbtmc_interrupt u (s\<lparr>usb488_caps := c\<rparr>) =
     (fst (usbtmc_interrupt u s), (snd (usbtmc_interrupt u s))\<lparr>usb488_caps := c\<rparr>)"
  by (simp add: usbtmc_interrupt_def split: option.splits)

lemma run_interrupts_caps:
  "run_interrupts us (s\<lparr>usb488_caps := c\<rparr>) = (run_interrupts us s)\<lparr>usb488_caps := c\<rparr>"
proof (induction us arbitrary: s)
  case Nil
  show ?case by simp
next
  case (Cons u us)
  obtain b s1 where i: "usbtmc_interrupt u s = (b, s1)" by (cases "usbtmc_interrupt u s")
  with Cons.IH[of s1] show ?case by (cases b) (simp_all add: interrupt_caps)
qed

lemma wait_caps:
  "wait_event_interruptible_timeout env (s\<lparr>usb488_caps := c\<rparr>) =
     (fst (wait_event_interruptible_timeout env s),
      (snd (wait_event_interruptible_timeout env s))\<lparr>usb488_caps := c\<rparr>)"
  by (simp add: wait_event_interruptible_timeout_def run_interrupts_caps Let_def split: prod.splits)

lemma read_stb_exit_caps:
  "read_stb_exit (r, s\<lparr>usb488_caps := c\<rparr>) =
     (fst (read_stb_exit (r, s)), (snd (read_stb_exit (r, s)))\<lparr>usb488_caps := c\<rparr>)"
  by (simp add: read_stb_exit_def Let_def)

lemma read_stb_caps:
  "usbtmc488_ioctl_read_stb env fd arg_ok (s\<lparr>usb488_caps := c\<rparr>) =
     (fst (usbtmc488_ioctl_read_stb env fd arg_ok s),
      (snd (usbtmc488_ioctl_read_stb env fd arg_ok s))\<lparr>usb488_caps := c\<rparr>)"
proof (cases "file_list s fd")
  case None
  then show ?thesis by (simp add: usbtmc488_ioctl_read_stb_def)
next
  case (Some file_data)
  show ?thesis
  proof (cases "srq_asserted file_data \<noteq> 0")
    case True
    with Some show ?thesis by (simp add: usbtmc488_ioctl_read_stb_def)
  next
    case False
    show ?thesis
    proof (cases "kmalloc_ok env (allocs s) 8")
      case False
      with Some \<open>\<not> srq_asserted file_data \<noteq> 0\<close> show ?thesis
        by (simp add: usbtmc488_ioctl_read_stb_def kmalloc_def)
    next
      case True
      define s4 where "s4 = s\<lparr>file_list := (file_list s)(fd \<mapsto> file_data\<lparr>srq_asserted := 0\<rparr>),
                              allocs := Suc (allocs s), iin_data_valid := 0,
                              trace := ControlMsg USBTMC488_REQUEST_READ_STATUS_BYTE USB_RECIP_INTERFACE
                                         (ucast (iin_bTag s)) (ifnum s) 3 # trace s\<rparr>"
      define rr where "rr = usb_reply env (trace s4)"
      define tail :: "(errno + nat \<times> (nat \<Rightarrow> u8)) \<Rightarrow> usbtmc_device_data \<Rightarrow> (errno + u8) \<times> usbtmc_device_data"
        where "tail = (\<lambda>rr s4. case rr of
                      Inl e \<Rightarrow> (Inl e, s4)
                    | Inr (rv, buffer) \<Rightarrow>
                        if buffer 0 \<noteq> USBTMC_STATUS_SUCCESS then (Inl EIO, s4)
                        else if iin_ep_present s4 then
                          (case wait_event_interruptible_timeout env s4 of
                             (Inl e, s5) \<Rightarrow> (Inl e, s5)
                           | (Inr n, s5) \<Rightarrow>
                               if n = 0 then (Inl ETIMEDOUT, s5)
                               else (if arg_ok then Inr (bNotify2 s5) else Inl EFAULT, s5))
                        else (if arg_ok then Inr (buffer 2) else Inl EFAULT, s4))"
      have a: "usbtmc488_ioctl_read_stb env fd arg_ok s = read_stb_exit (tail rr s4)"
        using Some \<open>\<not> srq_asserted file_data \<noteq> 0\<close> True
        by (simp add: usbtmc488_ioctl_read_stb_def prim_defs Let_def s4_def rr_def tail_def
              split: sum.splits prod.splits)
      have e: "s\<lparr>usb488_caps := c,
                 file_list := (file_list s)(fd \<mapsto> file_data\<lparr>srq_asserted := 0\<rparr>),
                 allocs := Suc (allocs s), iin_data_valid := 0,
                 trace := ControlMsg USBTMC488_REQUEST_READ_STATUS_BYTE USB_RECIP_INTERFACE
                            (ucast (iin_bTag s)) (ifnum s) 3 # trace s\<rparr> = s4\<lparr>usb488_caps := c\<rparr>"
        by (simp add: s4_def)
      have b: "usbtmc488_ioctl_read_stb env fd arg_ok (s\<lparr>usb488_caps := c\<rparr>) =
                 read_stb_exit (tail rr (s4\<lparr>usb488_caps := c\<rparr>))"
        using Some \<open>\<not> srq_asserted file_data \<noteq> 0\<close> True
        by (simp add: usbtmc488_ioctl_read_stb_def prim_defs Let_def e rr_def tail_def
              split: sum.splits prod.splits)
           (simp add: s4_def)?
      have t: "tail rr (s4\<lparr>usb488_caps := c\<rparr>) = (fst (tail rr s4), (snd (tail rr s4))\<lparr>usb488_caps := c\<rparr>)"
        unfolding tail_def
        by (cases "wait_event_interruptible_timeout env s4")
           (simp add: wait_caps split: sum.splits prod.splits)
      show ?thesis
        unfolding a b t
        using read_stb_exit_caps[where r = "fst (tail rr s4)" and s = "snd (tail rr s4)" and c = c] by simp
    qed
  qed
qed


text \<open>
  Claim C1, as amended. The capability gate is in \<open>usbtmc488_ioctl_simple\<close>: REN_CONTROL,
  GOTO_LOCAL and LOCAL_LOCKOUT fail with \<open>EINVAL\<close> and leave the device record and the
  log of USB calls untouched when \<open>usb488_caps\<close> lacks the simple bit. READ_STB has no
  gate: what it returns and what it does to the device are the same whatever
  \<open>usb488_caps\<close> holds.
\<close>

theorem simple_capability_gate:
  "(usb488_caps s AND CAPABILITY_SIMPLE = 0 \<longrightarrow>
      usbtmc488_ioctl_simple env CAPABILITY_SIMPLE arg cmd s = (Inl EINVAL, s)) \<and>
   usbtmc488_ioctl_read_stb env fd arg_ok (s\<lparr>usb488_caps := c\<rparr>) =
     (fst (usbtmc488_ioctl_read_stb env fd arg_ok s),
      (snd (usbtmc488_ioctl_read_stb env fd arg_ok s))\<lparr>usb488_caps := c\<rparr>)"
  by (simp add: usbtmc488_ioctl_simple_def read_stb_caps)


text \<open>
  Witness: a device without capabilities refuses GOTO_LOCAL, and READ_STB delivers the
  status byte \<open>0x42\<close> with the capability byte set to 2 as it does with 0.
\<close>

theorem simple_capability_gate_witness:
  "usb488_caps opened_dev AND 2 = 0 \<and>
   usbtmc488_ioctl_simple stb_env 2 None USBTMC488_REQUEST_GOTO_LOCAL opened_dev = (Inl EINVAL, opened_dev) \<and>
   usbtmc488_ioctl_read_stb stb_env 1 True (opened_dev\<lparr>usb488_caps := 2\<rparr>) =
     (Inr 0x42, stb_dev\<lparr>usb488_caps := 2\<rparr>)"
proof -
  have h: "usb488_caps opened_dev AND 2 = 0"
    by (simp add: opened_dev_def probed_dev_def kzalloc_data_def)
  from simple_capability_gate[where s = opened_dev and CAPABILITY_SIMPLE = 2 and env = stb_env
         and arg = None and cmd = USBTMC488_REQUEST_GOTO_LOCAL and fd = 1 and arg_ok = True and c = 2]
    h stb_example
  show ?thesis by simp
qed


text \<open>
  Claim C1 as stated fails: on a device whose \<open>usb488_caps\<close> is 0, READ_STB issues the
  READ_STATUS_BYTE control request and returns the status byte.
\<close>

theorem read_stb_ignores_capability:
  "usb488_caps opened_dev = 0 \<and>
   usbtmc488_ioctl_read_stb stb_env 1 True opened_dev = (Inr 0x42, stb_dev) \<and>
   trace stb_dev = ControlMsg USBTMC488_REQUEST_READ_STATUS_BYTE USB_RECIP_INTERFACE 2 0 3 #
                     trace opened_dev"
  using stb_example by (simp add: stb_dev_def opened_dev_def probed_dev_def kzalloc_data_def)


text \<open>
  Claim C10. When the handle's \<open>srq_asserted\<close> is set, READ_STB returns the stored
  \<open>srq_byte\<close> (\<open>EFAULT\<close> when the user's pointer cannot be written), and the log of USB
  calls, the allocation count, \<open>iin_bTag\<close> and \<open>iin_data_valid\<close> stay as they were.
  Whenever READ_STB changes \<open>iin_bTag\<close>, it has issued the READ_STATUS_BYTE control
  request tagged with the old \<open>iin_bTag\<close>.
\<close>

theorem read_stb_fast_path:
  "(file_list s fd = Some file_data \<and> srq_asserted file_data \<noteq> 0 \<longrightarrow>
      (\<exists>s'. usbtmc488_ioctl_read_stb env fd arg_ok s =
               (if arg_ok then Inr (srq_byte file_data) else Inl EFAULT, s') \<and>
            trace s' = trace s \<and> allocs s' = allocs s \<and>
            iin_bTag s' = iin_bTag s \<and> iin_data_valid s' = iin_data_valid s)) \<and>
   (usbtmc488_ioctl_read_stb env fd arg_ok s = (r, t) \<and> iin_bTag t \<noteq> iin_bTag s \<longrightarrow>
      trace t = ControlMsg USBTMC488_REQUEST_READ_STATUS_BYTE USB_RECIP_INTERFACE
                    (ucast (iin_bTag s)) (ifnum s) 3 # trace s)"
proof (intro conjI impI)
  assume "file_list s fd = Some file_data \<and> srq_asserted file_data \<noteq> 0"
  then show "\<exists>s'. usbtmc488_ioctl_read_stb env fd arg_ok s =
               (if arg_ok then Inr (srq_byte file_data) else Inl EFAULT, s') \<and>
            trace s' = trace s \<and> allocs s' = allocs s \<and>
            iin_bTag s' = iin_bTag s \<and> iin_data_valid s' = iin_data_valid s"
    by (simp add: usbtmc488_ioctl_read_stb_def)
next
  assume "usbtmc488_ioctl_read_stb env fd arg_ok s = (r, t) \<and> iin_bTag t \<noteq> iin_bTag s"
  then show "trace t = ControlMsg USBTMC488_REQUEST_READ_STATUS_BYTE USB_RECIP_INTERFACE
                    (ucast (iin_bTag s)) (ifnum s) 3 # trace s"
    using read_stb_effect[of env fd arg_ok s r t] by auto
qed


text \<open>
  Witness: the fast path on a handle with a pending request, and the slow path on a
  handle without one.
\<close>

theorem read_stb_fast_path_witness:
  "(file_list srq_dev 1 = Some (example_handle\<lparr>srq_byte := 0x42, srq_asserted := 1\<rparr>) \<and>
    srq_asserted (example_handle\<lparr>srq_byte := 0x42, srq_asserted := 1\<rparr>) \<noteq> 0 \<and>
    fst (usbtmc488_ioctl_read_stb stb_env 1 True srq_dev) = Inr 0x42 \<and>
    trace (snd (usbtmc488_ioctl_read_stb stb_env 1 True srq_dev)) = trace srq_dev \<and>
    iin_bTag (snd (usbtmc488_ioctl_read_stb stb_env 1 True srq_dev)) = 2) \<and>
   (usbtmc488_ioctl_read_stb stb_env 1 True opened_dev = (Inr 0x42, stb_dev) \<and>
    iin_bTag stb_dev \<noteq> iin_bTag opened_dev \<and>
    trace stb_dev = ControlMsg USBTMC488_REQUEST_READ_STATUS_BYTE USB_RECIP_INTERFACE 2 0 3 #
                      trace opened_dev)"
proof -
  have h: "file_list srq_dev 1 = Some (example_handle\<lparr>srq_byte := 0x42, srq_asserted := 1\<rparr>) \<and>
           srq_asserted (example_handle\<lparr>srq_byte := 0x42, srq_asserted := 1\<rparr>) \<noteq> 0"
    by (simp add: srq_dev_def)
  have i: "iin_bTag srq_dev = 2" "iin_bTag stb_dev \<noteq> iin_bTag opened_dev"
    by (simp_all add: srq_dev_def stb_dev_def opened_dev_def probed_dev_def kzalloc_data_def)
  from read_stb_fast_path[where s = srq_dev and fd = 1 and env = stb_env and arg_ok = True
         and file_data = "example_handle\<lparr>srq_byte := 0x42, srq_asserted := 1\<rparr>"
         and r = "Inr 0x42" and t = stb_dev] h i
  have a: "fst (usbtmc488_ioctl_read_stb stb_env 1 True srq_dev) = Inr 0x42 \<and>
    trace (snd (usbtmc488_ioctl_read_stb stb_env 1 True srq_dev)) = trace srq_dev \<and>
    iin_bTag (snd (usbtmc488_ioctl_read_stb stb_env 1 True srq_dev)) = 2"
    by auto
  from read_stb_fast_path[where s = opened_dev and fd = 1 and env = stb_env and arg_ok = True
         and r = "Inr 0x42" and t = stb_dev] stb_example i
  have b: "trace stb_dev = ControlMsg USBTMC488_REQUEST_READ_STATUS_BYTE USB_RECIP_INTERFACE 2 0 3 #
                      trace opened_dev"
    by (simp add: opened_dev_def probed_dev_def kzalloc_data_def)
  from h a b stb_example i show ?thesis by simp
qed


text \<open>
  Claim C8. An SRQ notification (status 0, first byte \<open>0x81\<close>) stores its second byte
  as \<open>srq_byte\<close> and sets \<open>srq_asserted\<close> in every open handle, and opens or closes none.
  READ_STB on any open handle then returns that byte (\<open>EFAULT\<close> when the user's pointer
  cannot be written), issues no USB call, and clears \<open>srq_asserted\<close> of that handle
  only: the handle list differs from the one after the notification in that entry alone.
\<close>

theorem srq_fan_out:
  "urb_status u = None \<and> iin_buffer0 u = 0x81 \<longrightarrow>
     (\<exists>s1. usbtmc_interrupt u s = (True, s1) \<and>
        file_list s1 = (\<lambda>fd. map_option (\<lambda>file_data. file_data\<lparr>srq_byte := iin_buffer1 u,
                                                              srq_asserted := 1\<rparr>) (file_list s fd)) \<and>
        (\<forall>fd file_data. file_list s fd = Some file_data \<longrightarrow>
           (\<exists>s2. usbtmc488_ioctl_read_stb env fd arg_ok s1 =
                    (if arg_ok then Inr (iin_buffer1 u) else Inl EFAULT, s2) \<and>
                 file_list s2 = (file_list s1)(fd \<mapsto> file_data\<lparr>srq_byte := iin_buffer1 u,
                                                              srq_asserted := 0\<rparr>) \<and>
                 trace s2 = trace s1)))"
  by (auto simp: usbtmc_interrupt_def usbtmc488_ioctl_read_stb_def)


text \<open>Witness: two open handles; after the notification, READ_STB on the first.\<close>

theorem srq_fan_out_witness:
  "urb_status srq_urb = None \<and> iin_buffer0 srq_urb = 0x81 \<and>
   file_list two_handles_dev 1 = Some example_handle \<and>
   file_list (snd (usbtmc_interrupt srq_urb two_handles_dev)) =
     [1 \<mapsto> example_handle\<lparr>srq_byte := 0x42, srq_asserted := 1\<rparr>,
      2 \<mapsto> example_handle\<lparr>srq_byte := 0x42, srq_asserted := 1\<rparr>] \<and>
   fst (usbtmc488_ioctl_read_stb stb_env 1 True (snd (usbtmc_interrupt srq_urb two_handles_dev))) = Inr 0x42 \<and>
   file_list (snd (usbtmc488_ioctl_read_stb stb_env 1 True (snd (usbtmc_interrupt srq_urb two_handles_dev)))) =
     [1 \<mapsto> example_handle\<lparr>srq_byte := 0x42, srq_asserted := 0\<rparr>,
      2 \<mapsto> example_handle\<lparr>srq_byte := 0x42, srq_asserted := 1\<rparr>]"
proof -
  have h: "urb_status srq_urb = None \<and> iin_buffer0 srq_urb = 0x81" by (simp add: srq_urb_def)
  have f: "file_list two_handles_dev 1 = Some example_handle" by (simp add: two_handles_dev_def)
  from srq_fan_out[where u = srq_urb and s = two_handles_dev and env = stb_env and arg_ok = True] h f
  obtain s1 s2 where
    a: "usbtmc_interrupt srq_urb two_handles_dev = (True, s1)"
       "file_list s1 = (\<lambda>fd. map_option (\<lambda>file_data. file_data\<lparr>srq_byte := iin_buffer1 srq_urb,
                                                              srq_asserted := 1\<rparr>) (file_list two_handles_dev fd))"
       "usbtmc488_ioctl_read_stb stb_env 1 True s1 = (Inr (iin_buffer1 srq_urb), s2)"
       "file_list s2 = (file_list s1)(1 \<mapsto> example_handle\<lparr>srq_byte := iin_buffer1 srq_urb,
                                                              srq_asserted := 0\<rparr>)"
    by (metis (no_types, lifting))
  have b: "iin_buffer1 srq_urb = 0x42" by (simp add: srq_urb_def)
  have "file_list s1 = [1 \<mapsto> example_handle\<lparr>srq_byte := 0x42, srq_asserted := 1\<rparr>,
      2 \<mapsto> example_handle\<lparr>srq_byte := 0x42, srq_asserted := 1\<rparr>]"
    unfolding a(2) b by (auto simp: two_handles_dev_def)
  moreover have "file_list s2 = [1 \<mapsto> example_handle\<lparr>srq_byte := 0x42, srq_asserted := 0\<rparr>,
      2 \<mapsto> example_handle\<lparr>srq_byte := 0x42, srq_asserted := 1\<rparr>]"
    unfolding a(4) a(2) b by (auto simp: two_handles_dev_def)
  ultimately show ?thesis using h f a b by simp
qed


subsection \<open>The tag counters\<close>

lemma reachable_inv: "reachable env s \<Longrightarrow> iin_ok s \<and> tag_ok s"
proof (induction rule: reachable.induct)
  case (reachable_probe host intf p q s)
  from probe_effect[OF this] show ?case by (simp add: iin_ok_def tag_ok_def)
next
  case (reachable_step s s')
  with keeps_step[of env s s'] show ?case by (simp add: keeps_def)
qed

lemma u8_succ_gt_127:
  assumes "(b::u8) \<le> 127"
  shows "(b + 1 > 127) = (b = 127)"
proof -
  have ub: "unat b \<le> 127" using assms by (simp add: word_le_nat_alt)
  then have s: "unat (b + 1) = unat b + 1" by (simp add: unat_word_ariths)
  have "(b + 1 > 127) = (unat b = 127)"
    using ub s by (auto simp add: word_less_nat_alt)
  also have "\<dots> = (b = 127)"
    by (simp add: word_unat_eq_iff)
  finally show ?thesis .
qed


text \<open>
  Claim C7. Probe initialises \<open>iin_bTag\<close> to 2. In every state a device can reach,
  \<open>2 \<le> iin_bTag \<le> 127\<close>, so it is never the value 1 of SRQ; and a READ_STB that
  issues a USB call advances it by one, from 127 to 2.
\<close>

theorem iin_bTag_range:
  "(usbtmc_probe env host intf param_io_buffer_size param_usb_timeout = Inr s0 \<longrightarrow> iin_bTag s0 = 2) \<and>
   (reachable env s \<longrightarrow>
      2 \<le> iin_bTag s \<and> iin_bTag s \<le> 127 \<and>
      (usbtmc488_ioctl_read_stb env fd arg_ok s = (r, t) \<and> trace t \<noteq> trace s \<longrightarrow>
         iin_bTag t = (if iin_bTag s = 127 then 2 else iin_bTag s + 1)))"
proof (intro conjI impI)
  assume "usbtmc_probe env host intf param_io_buffer_size param_usb_timeout = Inr s0"
  from probe_effect[OF this] show "iin_bTag s0 = 2" by simp
next
  assume r: "reachable env s"
  from reachable_inv[OF r] show "2 \<le> iin_bTag s" by (simp add: iin_ok_def)
next
  assume r: "reachable env s"
  from reachable_inv[OF r] show "iin_bTag s \<le> 127" by (simp add: iin_ok_def)
next
  assume r: "reachable env s"
  assume e: "usbtmc488_ioctl_read_stb env fd arg_ok s = (r, t) \<and> trace t \<noteq> trace s"
  from reachable_inv[OF r] have le: "iin_bTag s \<le> 127" by (simp add: iin_ok_def)
  from e read_stb_effect[of env fd arg_ok s r t]
  have "iin_bTag t = (if iin_bTag s + 1 > 127 then 2 else iin_bTag s + 1)" by auto
  then show "iin_bTag t = (if iin_bTag s = 127 then 2 else iin_bTag s + 1)"
    using u8_succ_gt_127[OF le] by simp
qed


text \<open>Witness: the example device after probe and open, and its first READ_STB.\<close>

theorem iin_bTag_range_witness:
  "usbtmc_probe stb_env example_host example_intf 2048 5000 = Inr probed_dev \<and> iin_bTag probed_dev = 2 \<and>
   reachable stb_env opened_dev \<and> 2 \<le> iin_bTag opened_dev \<and> iin_bTag opened_dev \<le> 127 \<and>
   usbtmc488_ioctl_read_stb stb_env 1 True opened_dev = (Inr 0x42, stb_dev) \<and>
   trace stb_dev \<noteq> trace opened_dev \<and> iin_bTag stb_dev = 3"
proof -
  have p: "usbtmc_probe stb_env example_host example_intf 2048 5000 = Inr probed_dev"
    unfolding stb_env_def by (rule probe_example)
  have o: "usbtmc_open stb_env 1 probed_dev = (Inr (), opened_dev)" unfolding stb_env_def by (rule open_example)
  have f: "file_list probed_dev 1 = None" by (simp add: probed_dev_def kzalloc_data_def)
  have re: "reachable stb_env opened_dev"
    by (rule reachable_step[OF reachable_probe[OF p] step_open[OF f o]])
  have t: "trace stb_dev \<noteq> trace opened_dev" by (simp add: stb_dev_def)
  have i: "iin_bTag opened_dev = 2" by (simp add: opened_dev_def probed_dev_def kzalloc_data_def)
  from iin_bTag_range[where env = stb_env and host = example_host and intf = example_intf
         and param_io_buffer_size = 2048 and param_usb_timeout = 5000 and ?s0.0 = probed_dev
         and s = opened_dev and fd = 1 and arg_ok = True and r = "Inr 0x42" and t = stb_dev]
    p re stb_example t i
  show ?thesis by simp
qed

lemma frames_in_trace:
  assumes "framed (bulk_outs s)" and "BulkOut ep bytes \<in> set (trace s)" and "3 \<le> length bytes"
  shows "bytes ! 1 \<noteq> 0 \<and> bytes ! 2 = NOT (bytes ! 1)"
proof -
  from assms(2) have "BulkOut ep bytes \<in> set (bulk_outs s)" by (simp add: bulk_outs_def)
  moreover from assms(1) have "list_all frame_ok (bulk_outs s)" by (rule framed_frame_ok)
  ultimately have "frame_ok (BulkOut ep bytes)" unfolding list_all_iff by blast
  with assms(3) show ?thesis by simp
qed


text \<open>
  Claim C6. Probe initialises \<open>bTag\<close> to 1, and the increment skips 0 (255 is followed
  by 1). The frame that the write engine builds for a chunk has 12 bytes at least, the
  tag it is given at offset 1 and the complement of the tag at offset 2. In every state a
  device can reach, \<open>bTag\<close> is not 0; every bulk-out transfer ever issued (by write, by
  the read request and by TRIGGER) is a whole frame, of 12 bytes at least with a non-zero
  tag at offset 1 and its complement at offset 2, or is a resend of leading bytes of the
  transfer just before it; and every bulk-out transfer that reaches offset 2, resends
  included, has a non-zero byte at offset 1 and its complement at offset 2.
\<close>

theorem bTag_never_zero:
  "(usbtmc_probe env host intf param_io_buffer_size param_usb_timeout = Inr s0 \<longrightarrow> bTag s0 = 1) \<and>
   bTag (increment_bTag s1) = (if bTag s1 = 255 then 1 else bTag s1 + 1) \<and>
   (12 \<le> length (dev_dep_msg_out b this_part attr payload) \<and>
    dev_dep_msg_out b this_part attr payload ! 1 = b \<and>
    dev_dep_msg_out b this_part attr payload ! 2 = NOT b) \<and>
   (reachable env s \<longrightarrow>
      bTag s \<noteq> 0 \<and> framed (bulk_outs s) \<and>
      (\<forall>ep bytes. BulkOut ep bytes \<in> set (trace s) \<longrightarrow> 3 \<le> length bytes \<longrightarrow>
         bytes ! 1 \<noteq> 0 \<and> bytes ! 2 = NOT (bytes ! 1)))"
proof (intro conjI impI allI)
  assume "usbtmc_probe env host intf param_io_buffer_size param_usb_timeout = Inr s0"
  from probe_effect[OF this] show "bTag s0 = 1" by simp
next
  show "bTag (increment_bTag s1) = (if bTag s1 = 255 then 1 else bTag s1 + 1)"
    by (rule increment_bTag_bTag)
next
  show "12 \<le> length (dev_dep_msg_out b this_part attr payload)"
    "dev_dep_msg_out b this_part attr payload ! 1 = b"
    "dev_dep_msg_out b this_part attr payload ! 2 = NOT b"
    using dev_dep_msg_out_header[of b this_part attr payload] by simp_all
next
  assume "reachable env s"
  from reachable_inv[OF this] show "bTag s \<noteq> 0" by (simp add: tag_ok_def)
next
  assume "reachable env s"
  from reachable_inv[OF this] show "framed (bulk_outs s)" by (simp add: tag_ok_def)
next
  fix ep bytes
  assume "reachable env s" and b: "BulkOut ep bytes \<in> set (trace s)" "3 \<le> length bytes"
  from reachable_inv[OF this(1)] have "framed (bulk_outs s)" by (simp add: tag_ok_def)
  from frames_in_trace[OF this b] show "bytes ! 1 \<noteq> 0" "bytes ! 2 = NOT (bytes ! 1)" by simp_all
qed

lemma replicate_9: "replicate 9 x = [x, x, x, x, x, x, x, x, x]"
  by (simp add: numeral_eq_Suc)

lemma run_trigger_example:
  "usbtmc_ioctl 0 run_env 2 1 USBTMC488_IOCTL_TRIGGER no_writable_arg opened_dev =
     Some (Inr Out_none, run_triggered)"
  by (simp add: usbtmc_ioctl_def usbtmc488_ioctl_trigger_def ret_none_def increment_bTag_def
      run_env_def scripted_def caps_reply_def opened_dev_def probed_dev_def run_triggered_def
      example_handle_def kzalloc_data_def prim_defs USBTMC_HEADER_SIZE_def Let_def replicate_9)

lemma run_read_example:
  "usbtmc_read 3 run_env 1 64 64 run_triggered = Some (Inr [1, 2, 3, 4, 5, 6, 7, 8, 9, 10], run_read)"
  by (simp add: usbtmc_read_def send_request_dev_dep_msg_in_def increment_bTag_def
      scripted_def opened_dev_def probed_dev_def copy_to_user_def n_characters_of_def
      example_handle_def kzalloc_data_def prim_defs buf_of_def USBTMC_HEADER_SIZE_def Let_def le32_bytes_def
      numeral_3_eq_3 upt_rec run_env_def run_triggered_def run_read_def run_reply_def run_request_def
      caps_reply_def)

lemma run_write_example:
  "usbtmc_write 3 run_env [0x41, 0x42, 0x43, 0x44] 4 run_read = Some (Inr 4, run_written)"
  by (simp add: usbtmc_write_def increment_bTag_def dev_dep_msg_out_def payload_room_def roundup4_def
      scripted_def opened_dev_def probed_dev_def
      example_handle_def kzalloc_data_def prim_defs buf_of_def USBTMC_HEADER_SIZE_def Let_def le32_bytes_def
      numeral_3_eq_3 run_env_def run_triggered_def run_read_def run_written_def run_frame_def
      caps_reply_def)

lemma run_outs:
  "bulk_outs run_written =
     [BulkOut 2 (take 12 run_frame), BulkOut 2 run_frame, BulkOut 2 run_request,
      BulkOut 2 [128, 1, 0xFE, 0, 0, 0, 0, 0, 0, 0, 0, 0]]"
  by (simp add: bulk_outs_def run_written_def run_read_def run_triggered_def opened_dev_def probed_dev_def)


text \<open>
  Witness: the run of a TRIGGER, a read and a write with one partial transfer; its four
  bulk-out transfers are three whole frames and one resend.
\<close>

theorem bTag_never_zero_witness:
  "usbtmc_probe run_env example_host example_intf 2048 5000 = Inr probed_dev \<and> bTag probed_dev = 1 \<and>
   bTag (increment_bTag (probed_dev\<lparr>bTag := 255\<rparr>)) = 1 \<and>
   12 \<le> length (dev_dep_msg_out 3 4 1 [0x41, 0x42, 0x43, 0x44]) \<and>
   dev_dep_msg_out 3 4 1 [0x41, 0x42, 0x43, 0x44] = run_frame \<and>
   reachable run_env run_written \<and> bTag run_written \<noteq> 0 \<and>
   bulk_outs run_written =
     [BulkOut 2 (take 12 run_frame), BulkOut 2 run_frame, BulkOut 2 run_request,
      BulkOut 2 [128, 1, 0xFE, 0, 0, 0, 0, 0, 0, 0, 0, 0]] \<and>
   framed (bulk_outs run_written) \<and>
   BulkOut 2 run_frame \<in> set (trace run_written) \<and> 3 \<le> length run_frame \<and>
   run_frame ! 1 \<noteq> 0 \<and> run_frame ! 2 = NOT (run_frame ! 1)"
proof -
  have p: "usbtmc_probe run_env example_host example_intf 2048 5000 = Inr probed_dev"
    unfolding run_env_def by (rule probe_example)
  have o: "usbtmc_open run_env 1 probed_dev = (Inr (), opened_dev)"
    unfolding run_env_def by (rule open_example)
  have f: "file_list probed_dev 1 = None" by (simp add: probed_dev_def kzalloc_data_def)
  have r1: "reachable run_env opened_dev"
    by (rule reachable_step[OF reachable_probe[OF p] step_open[OF f o]])
  have r2: "reachable run_env run_triggered"
    by (rule reachable_step[OF r1 step_ioctl[OF run_trigger_example]])
  have r3: "reachable run_env run_read"
    by (rule reachable_step[OF r2 step_read[OF run_read_example]])
  have re: "reachable run_env run_written"
    by (rule reachable_step[OF r3 step_write[OF run_write_example]])
  have m: "BulkOut 2 run_frame \<in> set (trace run_written)" "3 \<le> length run_frame"
    by (simp_all add: run_written_def run_frame_def)
  have d: "dev_dep_msg_out 3 4 1 [0x41, 0x42, 0x43, 0x44] = run_frame"
    by (simp add: dev_dep_msg_out_def run_frame_def le32_bytes_def roundup4_def USBTMC_HEADER_SIZE_def)
  have b: "bTag probed_dev = 1" by (simp add: probed_dev_def)
  from bTag_never_zero[where env = run_env and host = example_host and intf = example_intf
         and param_io_buffer_size = 2048 and param_usb_timeout = 5000 and ?s0.0 = probed_dev
         and ?s1.0 = "probed_dev\<lparr>bTag := 255\<rparr>" and s = run_written
         and b = 3 and this_part = 4 and attr = 1 and payload = "[0x41, 0x42, 0x43, 0x44]"]
    p re m d b run_outs
  show ?thesis by auto
qed

lemma read_example:
  "usbtmc_read 3 read_env 1 64 64 opened_dev = Some (Inr [1, 2, 3, 4, 5, 6, 7, 8, 9, 10], read_done_dev)"
  by (simp add: usbtmc_read_def send_request_dev_dep_msg_in_def increment_bTag_def
      scripted_def opened_dev_def probed_dev_def copy_to_user_def n_characters_of_def
      example_handle_def kzalloc_data_def prim_defs buf_of_def USBTMC_HEADER_SIZE_def Let_def le32_bytes_def
      numeral_3_eq_3 upt_rec read_env_def read_done_dev_def reply_ok_def request_frame_def caps_reply_def)

lemma write_example:
  "usbtmc_write 3 write_env [0x41, 0x42, 0x43, 0x44] 4 opened_dev = Some (Inr 4, write_done_dev)"
  by (simp add: usbtmc_write_def increment_bTag_def dev_dep_msg_out_def payload_room_def roundup4_def
      scripted_def opened_dev_def probed_dev_def
      example_handle_def kzalloc_data_def prim_defs buf_of_def USBTMC_HEADER_SIZE_def Let_def le32_bytes_def
      numeral_3_eq_3 write_env_def write_done_dev_def out_frame_def caps_reply_def)

lemma read_abort_example:
  "usbtmc_read 3 bulk_in_fails_env 1 64 64 abort_dev = Some (Inl ETIMEDOUT, abort_in_dev)"
  by (simp add: usbtmc_read_def send_request_dev_dep_msg_in_def increment_bTag_def read_abort_def
      usbtmc_ioctl_abort_bulk_in_def USBTMC_STATUS_SUCCESS_def USBTMC_STATUS_FAILED_def
      scripted_def opened_dev_def probed_dev_def abort_dev_def sent_dev_def abort_in_dev_def
      example_handle_def kzalloc_data_def prim_defs buf_of_def USBTMC_HEADER_SIZE_def Let_def le32_bytes_def
      numeral_3_eq_3 bulk_in_fails_env_def request_frame_def caps_reply_def)


text \<open>
  Claim C3 at a read of 64 bytes on a device whose \<open>bTag\<close> is 1. The request goes out
  with tag 1 and the reply carries tag 1, yet the read ends with \<open>bTag_last_read = 2\<close>;
  and when the bulk-in transfer fails with \<open>auto_abort\<close> set, INITIATE_ABORT_BULK_IN
  names tag 2. A write of four bytes on the same device sends its frame with tag 1 and
  ends with \<open>bTag_last_write = 1\<close>.
\<close>

theorem read_records_advanced_tag:
  "bTag opened_dev = 1 \<and>
   usbtmc_read 3 read_env 1 64 64 opened_dev = Some (Inr [1, 2, 3, 4, 5, 6, 7, 8, 9, 10], read_done_dev) \<and>
   trace read_done_dev = BulkIn 0x81 2048 # BulkOut 2 request_frame # trace opened_dev \<and>
   request_frame ! 1 = 1 \<and> reply_ok ! 1 = 1 \<and>
   bTag_last_read read_done_dev = 2 \<and>
   bTag abort_dev = 1 \<and> auto_abort abort_dev \<and>
   usbtmc_read 3 bulk_in_fails_env 1 64 64 abort_dev = Some (Inl ETIMEDOUT, abort_in_dev) \<and>
   trace abort_in_dev =
     ControlMsg USBTMC_REQUEST_INITIATE_ABORT_BULK_IN USB_RECIP_ENDPOINT 2 0x81 2 #
     BulkIn 0x81 2048 # BulkOut 2 request_frame # trace abort_dev \<and>
   usbtmc_write 3 write_env [0x41, 0x42, 0x43, 0x44] 4 opened_dev = Some (Inr 4, write_done_dev) \<and>
   trace write_done_dev = BulkOut 2 out_frame # trace opened_dev \<and>
   out_frame ! 1 = 1 \<and> bTag_last_write write_done_dev = 1"
  using read_example read_abort_example write_example
  by (simp add: opened_dev_def probed_dev_def kzalloc_data_def read_done_dev_def request_frame_def
      reply_ok_def abort_dev_def sent_dev_def abort_in_dev_def write_done_dev_def out_frame_def)


subsection \<open>Faults during a read\<close>

lemmas example_defs = scripted_def caps_reply_def opened_dev_def probed_dev_def example_handle_def
  kzalloc_data_def buf_of_def abort_dev_def sent_dev_def send_failed_dev_def abort_out_dev_def
  abort_in_dev_def bulk_in_done_dev_def request_frame_def reply_bad_msgid_def
  send_fails_env_def bulk_in_fails_env_def bad_msgid_env_def

lemma send_fails_example:
  "send_request_dev_dep_msg_in send_fails_env 1 64 (abort_dev\<lparr>allocs := Suc (allocs abort_dev)\<rparr>) =
     (Inl EPIPE, send_failed_dev)"
  by (simp add: send_request_dev_dep_msg_in_def increment_bTag_def example_defs prim_defs
      USBTMC_HEADER_SIZE_def Let_def le32_bytes_def)

lemma abort_out_example:
  "usbtmc_ioctl_abort_bulk_out send_fails_env send_failed_dev = (Inl EPERM, abort_out_dev)"
  by (simp add: usbtmc_ioctl_abort_bulk_out_def example_defs prim_defs USBTMC_STATUS_SUCCESS_def)

lemma rcv_fails_example:
  "usb_bulk_msg_rcv bulk_in_fails_env (bulk_in sent_dev) (io_buffer_size sent_dev) sent_dev =
     (Inl ETIMEDOUT, bulk_in_done_dev)"
  by (simp add: example_defs prim_defs)

lemma rcv_bad_example:
  "usb_bulk_msg_rcv bad_msgid_env (bulk_in sent_dev) (io_buffer_size sent_dev) sent_dev =
     (Inr (24, buf_of reply_bad_msgid), bulk_in_done_dev)"
  by (simp add: scripted_def caps_reply_def opened_dev_def probed_dev_def example_handle_def
      kzalloc_data_def abort_dev_def sent_dev_def bulk_in_done_dev_def bad_msgid_env_def prim_defs)

lemma abort_in_example:
  "usbtmc_ioctl_abort_bulk_in 2 bulk_in_fails_env (bulk_in_done_dev\<lparr>bTag_last_read := bTag bulk_in_done_dev\<rparr>) =
     Some (Inr (), abort_in_dev)"
  "usbtmc_ioctl_abort_bulk_in 2 bad_msgid_env (bulk_in_done_dev\<lparr>bTag_last_read := bTag bulk_in_done_dev\<rparr>) =
     Some (Inr (), abort_in_dev)"
  by (simp_all add: usbtmc_ioctl_abort_bulk_in_def example_defs prim_defs USBTMC_STATUS_SUCCESS_def
      USBTMC_STATUS_FAILED_def)


text \<open>
  Claim C2, as amended. With \<open>auto_abort\<close> set: when the send of
  REQUEST_DEV_DEP_MSG_IN fails, the read runs \<open>usbtmc_ioctl_abort_bulk_out\<close> and returns
  the error of the send; when a bulk-in transfer of the loop fails, the read runs
  \<open>usbtmc_ioctl_abort_bulk_in\<close> on the state it is in and returns the error of the
  transfer; when the first reply fails a header check (shorter than 12 bytes, MsgID not
  2, tag not \<open>bTag_last_write\<close>, more characters than asked for), the read ends in the
  state that \<open>usbtmc_ioctl_abort_bulk_in\<close> leaves. The second and third part hold at every
  pass of the loop of \<open>usbtmc_read\<close>.
\<close>

theorem read_fault_runs_abort:
  "auto_abort s \<longrightarrow>
     (\<not> zombie s \<and> kmalloc_ok env (allocs s) (io_buffer_size s) \<and>
      send_request_dev_dep_msg_in env fd count (s\<lparr>allocs := Suc (allocs s)\<rparr>) = (Inl e, s2) \<longrightarrow>
        usbtmc_read fuel env fd ulen count s =
          Some (Inl e, snd (usbtmc_ioctl_abort_bulk_out env s2))) \<and>
     (0 < remaining \<and> usb_bulk_msg_rcv env (bulk_in s) (io_buffer_size s) s = (Inl e, s0) \<longrightarrow>
        usbtmc_read_loop (Suc fuel) env ulen this_part remaining out s =
          map_option (\<lambda>(ra, t). (Inl e, t))
            (usbtmc_ioctl_abort_bulk_in fuel env (s0\<lparr>bTag_last_read := bTag s0\<rparr>))) \<and>
     (0 < remaining \<and>
      usb_bulk_msg_rcv env (bulk_in s) (io_buffer_size s) s = (Inr (actual, buffer), s0) \<and>
      (actual < USBTMC_HEADER_SIZE \<or> buffer 0 \<noteq> 2 \<or> buffer 1 \<noteq> bTag_last_write s0 \<or>
       n_characters_of buffer > this_part) \<longrightarrow>
        map_option snd (usbtmc_read_loop (Suc fuel) env ulen this_part remaining [] s) =
          map_option snd (usbtmc_ioctl_abort_bulk_in fuel env (s0\<lparr>bTag_last_read := bTag s0\<rparr>)))"
proof (intro impI conjI)
  assume aa: "auto_abort s"
  assume h: "\<not> zombie s \<and> kmalloc_ok env (allocs s) (io_buffer_size s) \<and>
      send_request_dev_dep_msg_in env fd count (s\<lparr>allocs := Suc (allocs s)\<rparr>) = (Inl e, s2)"
  from h have q: "send_request_dev_dep_msg_in env fd count (s\<lparr>allocs := Suc (allocs s)\<rparr>) = (Inl e, s2)"
    by simp
  from send_request_effect[OF q] aa have a2: "auto_abort s2" by simp
  from h a2 show "usbtmc_read fuel env fd ulen count s =
          Some (Inl e, snd (usbtmc_ioctl_abort_bulk_out env s2))"
    by (simp add: usbtmc_read_def kmalloc_def split: prod.splits)
next
  assume aa: "auto_abort s"
  assume h: "0 < remaining \<and> usb_bulk_msg_rcv env (bulk_in s) (io_buffer_size s) s = (Inl e, s0)"
  from h have rcv: "usb_bulk_msg_rcv env (bulk_in s) (io_buffer_size s) s = (Inl e, s0)" by simp
  from rcv_effect[OF rcv] have "core s0 = core s" by simp
  from core_fields(6)[OF this] aa have a0: "auto_abort s0" by simp
  from h a0 show "usbtmc_read_loop (Suc fuel) env ulen this_part remaining out s =
          map_option (\<lambda>(ra, t). (Inl e, t))
            (usbtmc_ioctl_abort_bulk_in fuel env (s0\<lparr>bTag_last_read := bTag s0\<rparr>))"
    by (simp add: read_abort_def split: option.splits)
next
  assume aa: "auto_abort s"
  assume h: "0 < remaining \<and>
      usb_bulk_msg_rcv env (bulk_in s) (io_buffer_size s) s = (Inr (actual, buffer), s0) \<and>
      (actual < USBTMC_HEADER_SIZE \<or> buffer 0 \<noteq> 2 \<or> buffer 1 \<noteq> bTag_last_write s0 \<or>
       n_characters_of buffer > this_part)"
  from h have rcv: "usb_bulk_msg_rcv env (bulk_in s) (io_buffer_size s) s = (Inr (actual, buffer), s0)"
    by simp
  from rcv_effect[OF rcv] have "core s0 = core s" by simp
  from core_fields(6)[OF this] aa have a0: "auto_abort s0" by simp
  from h a0 show "map_option snd (usbtmc_read_loop (Suc fuel) env ulen this_part remaining [] s) =
          map_option snd (usbtmc_ioctl_abort_bulk_in fuel env (s0\<lparr>bTag_last_read := bTag s0\<rparr>))"
    by (auto simp: read_abort_def Let_def split: option.splits)
qed


text \<open>Witness: a failed send, a failed bulk-in transfer, a reply with MsgID 9.\<close>

theorem read_fault_runs_abort_witness:
  "auto_abort abort_dev \<and> \<not> zombie abort_dev \<and>
   kmalloc_ok send_fails_env (allocs abort_dev) (io_buffer_size abort_dev) \<and>
   send_request_dev_dep_msg_in send_fails_env 1 64 (abort_dev\<lparr>allocs := Suc (allocs abort_dev)\<rparr>) =
     (Inl EPIPE, send_failed_dev) \<and>
   usbtmc_read 3 send_fails_env 1 64 64 abort_dev = Some (Inl EPIPE, abort_out_dev) \<and>
   auto_abort sent_dev \<and> (0::nat) < 64 \<and>
   usb_bulk_msg_rcv bulk_in_fails_env (bulk_in sent_dev) (io_buffer_size sent_dev) sent_dev =
     (Inl ETIMEDOUT, bulk_in_done_dev) \<and>
   usbtmc_read_loop 3 bulk_in_fails_env 64 64 64 [] sent_dev = Some (Inl ETIMEDOUT, abort_in_dev) \<and>
   usb_bulk_msg_rcv bad_msgid_env (bulk_in sent_dev) (io_buffer_size sent_dev) sent_dev =
     (Inr (24, buf_of reply_bad_msgid), bulk_in_done_dev) \<and>
   buf_of reply_bad_msgid 0 \<noteq> 2 \<and>
   map_option snd (usbtmc_read_loop 3 bad_msgid_env 64 64 64 [] sent_dev) = Some abort_in_dev"
proof -
  have a: "auto_abort abort_dev" "\<not> zombie abort_dev" "auto_abort sent_dev"
    "kmalloc_ok send_fails_env (allocs abort_dev) (io_buffer_size abort_dev)"
    "buf_of reply_bad_msgid 0 \<noteq> 2"
    by (simp_all add: example_defs)
  note t1 = read_fault_runs_abort[where s = abort_dev and env = send_fails_env and fd = 1 and count = 64
      and e = EPIPE and ?s2.0 = send_failed_dev and fuel = 2 and ulen = 64 and remaining = 0
      and ?s0.0 = abort_dev and this_part = 64 and out = "[]" and actual = 0 and buffer = "buf_of []"]
  note t2 = read_fault_runs_abort[where s = sent_dev and env = bulk_in_fails_env and fd = 1 and count = 64
      and e = ETIMEDOUT and ?s2.0 = send_failed_dev and fuel = 2 and ulen = 64 and remaining = 64
      and ?s0.0 = bulk_in_done_dev and this_part = 64 and out = "[]" and actual = 0 and buffer = "buf_of []"]
  note t3 = read_fault_runs_abort[where s = sent_dev and env = bad_msgid_env and fd = 1 and count = 64
      and e = ETIMEDOUT and ?s2.0 = send_failed_dev and fuel = 2 and ulen = 64 and remaining = 64
      and ?s0.0 = bulk_in_done_dev and this_part = 64 and out = "[]" and actual = 24
      and buffer = "buf_of reply_bad_msgid"]
  have r1: "usbtmc_read 2 send_fails_env 1 64 64 abort_dev = Some (Inl EPIPE, abort_out_dev)"
    using t1 a send_fails_example abort_out_example by simp
  have r1': "usbtmc_read 3 send_fails_env 1 64 64 abort_dev = usbtmc_read 2 send_fails_env 1 64 64 abort_dev"
    using a send_fails_example by (simp add: usbtmc_read_def kmalloc_def)
  have r2: "usbtmc_read_loop 3 bulk_in_fails_env 64 64 64 [] sent_dev = Some (Inl ETIMEDOUT, abort_in_dev)"
    using t2 a rcv_fails_example abort_in_example by (simp add: numeral_3_eq_3 del: usbtmc_read_loop.simps)
  have r3: "map_option snd (usbtmc_read_loop 3 bad_msgid_env 64 64 64 [] sent_dev) = Some abort_in_dev"
    using t3 a rcv_bad_example abort_in_example by (simp add: numeral_3_eq_3 del: usbtmc_read_loop.simps)
  from a r1 r1' r2 r3 send_fails_example rcv_fails_example rcv_bad_example show ?thesis by simp
qed


text \<open>
  Claim C2 as stated fails: when the send of the request fails, the calls of the read
  are the request and INITIATE_ABORT_BULK_OUT; no ABORT_BULK_IN request is made.
\<close>

theorem send_failure_runs_abort_bulk_out:
  "auto_abort abort_dev \<and>
   usbtmc_read 3 send_fails_env 1 64 64 abort_dev = Some (Inl EPIPE, abort_out_dev) \<and>
   trace abort_out_dev =
     [ControlMsg USBTMC_REQUEST_INITIATE_ABORT_BULK_OUT USB_RECIP_ENDPOINT 1 2 2,
      BulkOut 2 request_frame,
      ControlMsg USBTMC_REQUEST_GET_CAPABILITIES USB_RECIP_INTERFACE 0 0 0x18]"
proof -
  have k: "kmalloc send_fails_env (io_buffer_size abort_dev) abort_dev =
             (True, abort_dev\<lparr>allocs := Suc (allocs abort_dev)\<rparr>)"
    by (simp add: kmalloc_def send_fails_env_def scripted_def)
  have a: "auto_abort abort_dev" "\<not> zombie abort_dev" "auto_abort send_failed_dev"
    by (simp_all add: example_defs)
  have "usbtmc_read 3 send_fails_env 1 64 64 abort_dev = Some (Inl EPIPE, abort_out_dev)"
    using send_fails_example abort_out_example by (simp add: usbtmc_read_def k a)
  moreover have "trace abort_out_dev =
     [ControlMsg USBTMC_REQUEST_INITIATE_ABORT_BULK_OUT USB_RECIP_ENDPOINT 1 2 2,
      BulkOut 2 request_frame,
      ControlMsg USBTMC_REQUEST_GET_CAPABILITIES USB_RECIP_INTERFACE 0 0 0x18]"
    by (simp add: abort_out_dev_def send_failed_dev_def abort_dev_def opened_dev_def probed_dev_def)
  ultimately show ?thesis using a by simp
qed


text \<open>
  Claim C5 at a reply with MsgID 9: the read delivers nothing and returns 0, where the
  claim has it fail with a protocol fault.
\<close>

theorem wrong_msgid_read_returns_zero:
  "reply_bad_msgid ! 0 \<noteq> 2 \<and>
   usbtmc_read 3 bad_msgid_env 1 64 64 opened_dev = Some (Inr [], read_done_dev)"
  by (simp add: usbtmc_read_def send_request_dev_dep_msg_in_def increment_bTag_def read_abort_def
      scripted_def opened_dev_def probed_dev_def copy_to_user_def n_characters_of_def
      example_handle_def kzalloc_data_def prim_defs buf_of_def USBTMC_HEADER_SIZE_def Let_def le32_bytes_def
      numeral_3_eq_3 bad_msgid_env_def read_done_dev_def reply_bad_msgid_def request_frame_def caps_reply_def)


subsection \<open>Partial bulk-out transfers\<close>

lemma take_12_out_frame: "take 12 out_frame = [1, 1, 0xFE, 0, 4, 0, 0, 0, 1, 0, 0, 0]"
  by (simp add: out_frame_def)


text \<open>
  Claim C4 at a pipe that takes 4 of the 16 bytes of a frame: the second transfer hands
  over the first 12 bytes of the frame again, not the 12 bytes that remain, and the
  write returns \<open>count\<close>.
\<close>

theorem partial_send_resends_head:
  "usbtmc_write 3 partial_env [0x41, 0x42, 0x43, 0x44] 4 opened_dev = Some (Inr 4, partial_dev) \<and>
   trace partial_dev = BulkOut 2 (take 12 out_frame) # BulkOut 2 out_frame # trace opened_dev \<and>
   take 12 out_frame \<noteq> drop 4 out_frame"
  by (simp add: usbtmc_write_def increment_bTag_def dev_dep_msg_out_def payload_room_def roundup4_def
      scripted_def opened_dev_def probed_dev_def
      example_handle_def kzalloc_data_def prim_defs buf_of_def USBTMC_HEADER_SIZE_def Let_def le32_bytes_def
      numeral_3_eq_3 partial_env_def partial_dev_def out_frame_def caps_reply_def)


subsection \<open>After disconnect\<close>

text \<open>
  Claim C9, as amended. Disconnect sets \<open>zombie\<close>, and no step of the device clears it.
  On a zombie device every ioctl returns \<open>ENODEV\<close> and changes nothing; every read and
  every write first allocates its buffer, returns \<open>ENOMEM\<close> if that fails and
  \<open>ENODEV\<close> otherwise, and changes nothing but the allocation count. None of them
  issues a USB call.
\<close>

theorem zombie_latches:
  "zombie (usbtmc_disconnect s0) \<and>
   (zombie s \<longrightarrow>
      (steps env s t \<longrightarrow> zombie t) \<and>
      usbtmc_ioctl fuel env CAPABILITY_SIMPLE fd cmd arg s = Some (Inl ENODEV, s) \<and>
      usbtmc_read fuel env fd ulen count s =
        Some (if kmalloc_ok env (allocs s) (io_buffer_size s) then Inl ENODEV else Inl ENOMEM,
              s\<lparr>allocs := Suc (allocs s)\<rparr>) \<and>
      usbtmc_write fuel env ubuf count s =
        Some (if kmalloc_ok env (allocs s) (io_buffer_size s) then Inl ENODEV else Inl ENOMEM,
              s\<lparr>allocs := Suc (allocs s)\<rparr>))"
proof (intro conjI impI)
  show "zombie (usbtmc_disconnect s0)"
    by (simp add: usbtmc_disconnect_def usbtmc_free_int_def)
next
  assume "zombie s" and "steps env s t"
  with keeps_steps[of env s t] show "zombie t" by (simp add: keeps_def)
next
  assume "zombie s"
  then show "usbtmc_ioctl fuel env CAPABILITY_SIMPLE fd cmd arg s = Some (Inl ENODEV, s)"
    by (simp add: usbtmc_ioctl_def)
next
  assume "zombie s"
  then show "usbtmc_read fuel env fd ulen count s =
        Some (if kmalloc_ok env (allocs s) (io_buffer_size s) then Inl ENODEV else Inl ENOMEM,
              s\<lparr>allocs := Suc (allocs s)\<rparr>)"
    by (simp add: usbtmc_read_def kmalloc_def)
next
  assume "zombie s"
  then show "usbtmc_write fuel env ubuf count s =
        Some (if kmalloc_ok env (allocs s) (io_buffer_size s) then Inl ENODEV else Inl ENOMEM,
              s\<lparr>allocs := Suc (allocs s)\<rparr>)"
    by (simp add: usbtmc_write_def kmalloc_def)
qed


text \<open>Witness: the example device after disconnect.\<close>

theorem zombie_latches_witness:
  "zombie (usbtmc_disconnect opened_dev) \<and>
   steps stb_env (usbtmc_disconnect opened_dev) (usbtmc_release 1 (usbtmc_disconnect opened_dev)) \<and>
   zombie (usbtmc_release 1 (usbtmc_disconnect opened_dev)) \<and>
   usbtmc_ioctl 0 stb_env 2 1 USBTMC488_IOCTL_TRIGGER no_writable_arg (usbtmc_disconnect opened_dev) =
     Some (Inl ENODEV, usbtmc_disconnect opened_dev) \<and>
   usbtmc_read 0 stb_env 1 64 64 (usbtmc_disconnect opened_dev) =
     Some (Inl ENODEV, (usbtmc_disconnect opened_dev)\<lparr>allocs := 4\<rparr>) \<and>
   usbtmc_write 0 stb_env [0x2A] 1 (usbtmc_disconnect opened_dev) =
     Some (Inl ENODEV, (usbtmc_disconnect opened_dev)\<lparr>allocs := 4\<rparr>)"
proof -
  have st: "steps stb_env (usbtmc_disconnect opened_dev) (usbtmc_release 1 (usbtmc_disconnect opened_dev))"
    by (rule steps_step[OF steps_refl step_release])
  have k: "kmalloc_ok stb_env 3 2048" by (simp add: stb_env_def scripted_def)
  have a: "allocs (usbtmc_disconnect opened_dev) = 3" "io_buffer_size (usbtmc_disconnect opened_dev) = 2048"
    by (simp_all add: usbtmc_disconnect_def usbtmc_free_int_def opened_dev_def probed_dev_def kzalloc_data_def)
  from zombie_latches[where ?s0.0 = opened_dev and s = "usbtmc_disconnect opened_dev" and env = stb_env
         and t = "usbtmc_release 1 (usbtmc_disconnect opened_dev)" and fuel = 0 and CAPABILITY_SIMPLE = 2
         and fd = 1 and cmd = USBTMC488_IOCTL_TRIGGER and arg = no_writable_arg and ulen = 64
         and count = 64 and ubuf = "[0x2A]"]
       zombie_latches[where ?s0.0 = opened_dev and s = "usbtmc_disconnect opened_dev" and env = stb_env
         and t = "usbtmc_release 1 (usbtmc_disconnect opened_dev)" and fuel = 0 and CAPABILITY_SIMPLE = 2
         and fd = 1 and cmd = USBTMC488_IOCTL_TRIGGER and arg = no_writable_arg and ulen = 64
         and count = 1 and ubuf = "[0x2A]"]
       st k a
  show ?thesis by simp
qed


text \<open>
  Claim C9 as stated fails: a read on a zombie device returns \<open>ENOMEM\<close> when its buffer
  cannot be allocated.
\<close>

theorem zombie_read_without_memory:
  "zombie (usbtmc_disconnect opened_dev) \<and>
   usbtmc_read 1 nomem_env 1 64 64 (usbtmc_disconnect opened_dev) =
     Some (Inl ENOMEM, (usbtmc_disconnect opened_dev)\<lparr>allocs := 4\<rparr>)"
  by (simp add: usbtmc_read_def kmalloc_def nomem_env_def usbtmc_disconnect_def usbtmc_free_int_def
      opened_dev_def probed_dev_def kzalloc_data_def)

end
